(* ===== verification/Prelude.thy ===== *)
theory Prelude
  imports "HOL-Library.Word" "HOL-Library.Sublist"
begin

text \<open>
  Shared vocabulary of the development: the machine integers, times and errors that every
  package of the program uses, the result type of its fallible operations, and the
  list and word lemmas that several components share.

  Identifiers (Go \<open>uint64\<close>) are 64-bit words. Go's \<open>int\<close>, \<open>int64\<close> and
  \<open>time.Duration\<close> are HOL integers; wherever the program computes with them the result is
  wrapped to 64 bits by \<open>wrap64\<close>. A \<open>time.Time\<close> is the number of
  nanoseconds since Go's zero time, so that \<open>IsZero t\<close> is \<open>t = 0\<close>.
\<close>

named_theorems op_simps \<open>unfolding rules of the sequencing combinators\<close>
named_theorems frame_simps \<open>which tables an operation leaves alone\<close>

section \<open>Integers and time\<close>

type_synonym u64 = "64 word"
type_synonym time = int
type_synonym duration = int

definition wrap64 :: "int \<Rightarrow> int" where
  "wrap64 x = signed_take_bit 63 x"

definition max_int64 :: int where
  "max_int64 = 9223372036854775807"

definition min_int64 :: int where
  "min_int64 = - 9223372036854775808"

lemma wrap64_code [code]:
  "wrap64 x = (x + 9223372036854775808) mod 18446744073709551616 - 9223372036854775808"
  by (simp add: wrap64_def signed_take_bit_eq_take_bit_shift take_bit_eq_mod)

lemma wrap64_in_range: "- (2 ^ 63) \<le> x \<Longrightarrow> x < 2 ^ 63 \<Longrightarrow> wrap64 x = x"
  by (simp add: wrap64_def signed_take_bit_int_eq_self)

lemma wrap64_bounds: "- (2 ^ 63) \<le> wrap64 x \<and> wrap64 x < 2 ^ 63"
proof -
  have "signed_take_bit 63 x < 2 ^ 63" by (rule signed_take_bit_int_less_exp)
  moreover have "- (2 ^ 63) \<le> signed_take_bit 63 x"
    by (rule signed_take_bit_int_greater_eq_minus_exp)
  ultimately show ?thesis by (simp add: wrap64_def)
qed

text \<open>Go's integer division truncates towards zero.\<close>

definition go_quot :: "int \<Rightarrow> int \<Rightarrow> int" where
  "go_quot a b = sgn a * sgn b * (\<bar>a\<bar> div \<bar>b\<bar>)"

lemma go_quot_nonneg: "0 \<le> a \<Longrightarrow> 0 < b \<Longrightarrow> go_quot a b = a div b"
  by (cases "a = 0") (simp_all add: go_quot_def)

definition nanosecond :: duration where "nanosecond = 1"
definition millisecond :: duration where "millisecond = 1000000"
definition second :: duration where "second = 1000000000"
definition minute :: duration where "minute = 60000000000"
definition hour :: duration where "hour = 3600000000000"

lemmas duration_defs = nanosecond_def millisecond_def second_def minute_def hour_def

section \<open>Errors\<close>

text \<open>
  The package-level error variables of the program, compared with \<open>errors.Is\<close>.
\<close>

datatype sentinel =
    AssetErrInvalidInput | AssetErrHostDisabled | AssetErrNotFound | AssetErrConflict
  | ProbeErrInvalidInput | ProbeErrNotFound | ProbeErrConflict
  | ProbeErrExecutionBusy | ProbeErrNetworkDenied
  | IncidentErrNotFound | IncidentErrConflict
  | AuthErrUserNotFound | AuthErrInvalidCredentials | AuthErrUserDisabled
  | AuthErrUnauthenticated | AuthErrInvalidToken

fun sentinel_text :: "sentinel \<Rightarrow> string" where
  "sentinel_text AssetErrInvalidInput = ''invalid input''"
| "sentinel_text AssetErrHostDisabled = ''host is disabled''"
| "sentinel_text AssetErrNotFound = ''asset not found''"
| "sentinel_text AssetErrConflict = ''asset conflict''"
| "sentinel_text ProbeErrInvalidInput = ''invalid probe input''"
| "sentinel_text ProbeErrNotFound = ''probe resource not found''"
| "sentinel_text ProbeErrConflict = ''probe resource conflict''"
| "sentinel_text ProbeErrExecutionBusy = ''execution owned by another worker''"
| "sentinel_text ProbeErrNetworkDenied = ''network target denied''"
| "sentinel_text IncidentErrNotFound = ''incident not found''"
| "sentinel_text IncidentErrConflict = ''incident transition conflict''"
| "sentinel_text AuthErrUserNotFound = ''user not found''"
| "sentinel_text AuthErrInvalidCredentials = ''invalid username or password''"
| "sentinel_text AuthErrUserDisabled = ''user is disabled''"
| "sentinel_text AuthErrUnauthenticated = ''unauthenticated''"
| "sentinel_text AuthErrInvalidToken = ''invalid token''"

text \<open>
  An error that comes from outside the program (driver, network, context, library) is known
  to it only by its text and by what \<open>errors.Is\<close> and \<open>errors.As\<close> answer
  about it: that is what the record holds.
\<close>

record foreign =
  fx_text :: string
  fx_record_not_found :: bool     \<comment> \<open>\<open>Is gorm.ErrRecordNotFound\<close>\<close>
  fx_mysql :: "nat option"        \<comment> \<open>\<open>As *mysql.MySQLError\<close>: its number\<close>
  fx_canceled :: bool             \<comment> \<open>\<open>Is context.Canceled\<close>\<close>
  fx_deadline :: bool             \<comment> \<open>\<open>Is context.DeadlineExceeded\<close>\<close>
  fx_dns :: bool                  \<comment> \<open>\<open>As *net.DNSError\<close>\<close>
  fx_net_timeout :: "bool option" \<comment> \<open>\<open>As net.Error\<close>: its \<open>Timeout()\<close>\<close>
  fx_tls :: bool                  \<comment> \<open>\<open>As tls.RecordHeaderError\<close>\<close>
  fx_refused :: bool              \<comment> \<open>\<open>Is syscall.ECONNREFUSED\<close>\<close>
  fx_redis_nil :: bool            \<comment> \<open>\<open>Is redis.Nil\<close>\<close>

text \<open>
  \<open>New\<close> is an error made by \<open>errors.New\<close> inside a function, which no caller can
  compare with; \<open>Wrap\<close> is \<open>fmt.Errorf\<close> with \<open>%w\<close> (or a library
  wrapper) around another error, with the text that precedes it.
\<close>

datatype go_error =
    Sentinel sentinel
  | New string
  | Wrap string go_error
  | Foreign foreign

fun err_text :: "go_error \<Rightarrow> string" where
  "err_text (Sentinel s) = sentinel_text s"
| "err_text (New s) = s"
| "err_text (Wrap p e) = p @ err_text e"
| "err_text (Foreign f) = fx_text f"

fun errors_Is :: "go_error \<Rightarrow> sentinel \<Rightarrow> bool" where
  "errors_Is (Sentinel s) t = (s = t)"
| "errors_Is (New _) t = False"
| "errors_Is (Wrap _ e) t = errors_Is e t"
| "errors_Is (Foreign _) t = False"

text \<open>The library error at the end of a chain, if there is one.\<close>

fun err_foreign :: "go_error \<Rightarrow> foreign option" where
  "err_foreign (Sentinel s) = None"
| "err_foreign (New _) = None"
| "err_foreign (Wrap _ e) = err_foreign e"
| "err_foreign (Foreign f) = Some f"

definition foreign_is :: "(foreign \<Rightarrow> bool) \<Rightarrow> go_error \<Rightarrow> bool" where
  "foreign_is p e = (case err_foreign e of None \<Rightarrow> False | Some f \<Rightarrow> p f)"

lemma foreign_is_simps [simp]:
  "foreign_is p (Sentinel s) = False"
  "foreign_is p (New t) = False"
  "foreign_is p (Wrap t e) = foreign_is p e"
  "foreign_is p (Foreign f) = p f"
  by (simp_all add: foreign_is_def)

definition plain_foreign :: "string \<Rightarrow> foreign" where
  "plain_foreign t = \<lparr>fx_text = t, fx_record_not_found = False, fx_mysql = None,
     fx_canceled = False, fx_deadline = False, fx_dns = False, fx_net_timeout = None,
     fx_tls = False, fx_refused = False, fx_redis_nil = False\<rparr>"

definition gorm_ErrRecordNotFound :: go_error where
  "gorm_ErrRecordNotFound =
     Foreign ((plain_foreign ''record not found'')\<lparr>fx_record_not_found := True\<rparr>)"

definition mysql_error :: "nat \<Rightarrow> string \<Rightarrow> go_error" where
  "mysql_error n t = Foreign ((plain_foreign t)\<lparr>fx_mysql := Some n\<rparr>)"

lemma foreign_fields [simp]:
  "fx_record_not_found (plain_foreign t) = False"
  "fx_mysql (plain_foreign t) = None"
  "fx_canceled (plain_foreign t) = False"
  "fx_text (plain_foreign t) = t"
  by (simp_all add: plain_foreign_def)

section \<open>Fallible operations on a state\<close>

text \<open>
  A Go function that returns \<open>(T, error)\<close> and acts on a state \<open>'w\<close> is a
  state transformer with a sum result; \<open>op_bind\<close> is the sequence
  \<open>x, err := m; if err != nil { return err }; ...\<close>.
\<close>

type_synonym ('w, 'a) op = "'w \<Rightarrow> (go_error + 'a) \<times> 'w"

definition op_return :: "'a \<Rightarrow> ('w, 'a) op" where
  "op_return x = (\<lambda>w. (Inr x, w))"

definition op_fail :: "go_error \<Rightarrow> ('w, 'a) op" where
  "op_fail e = (\<lambda>w. (Inl e, w))"

definition op_bind :: "('w, 'a) op \<Rightarrow> ('a \<Rightarrow> ('w, 'b) op) \<Rightarrow> ('w, 'b) op" where
  "op_bind m f = (\<lambda>w. case m w of (Inl e, w') \<Rightarrow> (Inl e, w') | (Inr x, w') \<Rightarrow> f x w')"

definition op_map_error :: "(go_error \<Rightarrow> go_error) \<Rightarrow> ('w, 'a) op \<Rightarrow> ('w, 'a) op" where
  "op_map_error g m = (\<lambda>w. case m w of (Inl e, w') \<Rightarrow> (Inl (g e), w') | (Inr x, w') \<Rightarrow> (Inr x, w'))"

definition op_when_fail :: "bool \<Rightarrow> go_error \<Rightarrow> ('w, unit) op" where
  "op_when_fail b e = (if b then op_fail e else op_return ())"

lemma op_return_run [op_simps, simp, code]: "op_return x w = (Inr x, w)"
  by (simp add: op_return_def)

lemma op_fail_run [op_simps, simp, code]: "op_fail e w = (Inl e, w)"
  by (simp add: op_fail_def)

lemma op_bind_run [op_simps, code]:
  "op_bind m f w = (case m w of (Inl e, w') \<Rightarrow> (Inl e, w') | (Inr x, w') \<Rightarrow> f x w')"
  by (simp add: op_bind_def)

lemma op_map_error_run [op_simps, code]:
  "op_map_error g m w =
     (case m w of (Inl e, w') \<Rightarrow> (Inl (g e), w') | (Inr x, w') \<Rightarrow> (Inr x, w'))"
  by (simp add: op_map_error_def)

lemma op_bind_Inr:
  "op_bind m f w = (Inr y, w'') \<Longrightarrow>
   (\<And>x w'. m w = (Inr x, w') \<Longrightarrow> f x w' = (Inr y, w'') \<Longrightarrow> P) \<Longrightarrow> P"
  by (auto simp: op_bind_def split: prod.splits sum.splits)

lemma op_map_error_Inr [simp]:
  "op_map_error g m w = (Inr x, w') \<longleftrightarrow> m w = (Inr x, w')"
  by (auto simp: op_map_error_def split: prod.splits sum.splits)

lemma op_map_error_snd [simp]: "snd (op_map_error g m w) = snd (m w)"
  by (auto simp: op_map_error_def split: prod.splits sum.splits)

lemma op_when_fail_Inr [simp]:
  "op_when_fail b e w = (Inr u, w') \<longleftrightarrow> \<not> b \<and> w' = w"
  by (cases u) (auto simp: op_when_fail_def)

lemma op_when_fail_run [op_simps, code]:
  "op_when_fail b e w = (if b then (Inl e, w) else (Inr (), w))"
  by (simp add: op_when_fail_def)

section \<open>Lists of rows\<close>

lemma find_Some_mem: "find p xs = Some x \<Longrightarrow> x \<in> set xs \<and> p x"
  by (auto simp: find_Some_iff in_set_conv_nth)

lemma find_map_same:
  "(\<And>x. x \<in> set xs \<Longrightarrow> p (f x) = p x) \<Longrightarrow> find p (map f xs) = map_option f (find p xs)"
  by (induction xs) auto

lemma find_append:
  "find p (xs @ ys) = (case find p xs of None \<Rightarrow> find p ys | Some x \<Rightarrow> Some x)"
  by (induction xs) auto

lemma find_None_eq: "find p xs = None \<longleftrightarrow> (\<forall>x\<in>set xs. \<not> p x)"
  by (auto simp: find_None_iff)

lemma distinct_map_unique:
  "distinct (map f xs) \<Longrightarrow> x \<in> set xs \<Longrightarrow> y \<in> set xs \<Longrightarrow> f x = f y \<Longrightarrow> x = y"
  by (induction xs) (auto simp: image_iff)

lemma filter_key_singleton:
  "distinct (map f xs) \<Longrightarrow> x \<in> set xs \<Longrightarrow> filter (\<lambda>y. f y = f x) xs = [x]"
proof (induction xs)
  case Nil
  then show ?case by simp
next
  case (Cons a xs)
  show ?case
  proof (cases "a = x")
    case True
    then have "\<forall>y\<in>set xs. f y \<noteq> f x" using Cons.prems(1) by (auto simp: image_iff)
    then have "filter (\<lambda>y. f y = f x) xs = []" by (simp add: filter_empty_conv)
    then show ?thesis using True by simp
  next
    case False
    then have x: "x \<in> set xs" using Cons.prems(2) by simp
    then have "f a \<noteq> f x" using Cons.prems(1) by (auto simp: image_iff)
    then show ?thesis using Cons.IH Cons.prems(1) x by simp
  qed
qed

lemma find_key_distinct:
  "distinct (map f xs) \<Longrightarrow> x \<in> set xs \<Longrightarrow> find (\<lambda>y. f y = f x) xs = Some x"
  by (induction xs) (auto simp: image_iff)

lemma list_all2_mem1: "list_all2 P xs ys \<Longrightarrow> x \<in> set xs \<Longrightarrow> \<exists>y\<in>set ys. P x y"
  by (induction rule: list_all2_induct) auto

lemma list_all2_mem2: "list_all2 P xs ys \<Longrightarrow> y \<in> set ys \<Longrightarrow> \<exists>x\<in>set xs. P x y"
  by (induction rule: list_all2_induct) auto

text \<open>Rewriting some rows of a table is a pointwise relation that keeps a stable key.\<close>

lemma list_all2_map_if:
  assumes "\<And>x. x \<in> set xs \<Longrightarrow> p x \<Longrightarrow> R x (f x)" and "\<And>x. R x x"
  shows "list_all2 R xs (map (\<lambda>x. if p x then f x else x) xs)"
  unfolding list_all2_map2 by (rule list_all2_same [THEN iffD2, rule_format]) (use assms in auto)

lemma map_if_key:
  "(\<And>x. x \<in> set xs \<Longrightarrow> p x \<Longrightarrow> k (f x) = k x) \<Longrightarrow> map k (map (\<lambda>x. if p x then f x else x) xs) = map k xs"
  by simp

text \<open>Two rows with the same key under a normalisation are the same row.\<close>

definition unique_by :: "('r \<Rightarrow> 'k) \<Rightarrow> 'r list \<Rightarrow> bool" where
  "unique_by f rs = distinct (map f rs)"

lemma unique_by_append:
  "unique_by f (rs @ [r]) \<longleftrightarrow> unique_by f rs \<and> (\<forall>x\<in>set rs. f x \<noteq> f r)"
  by (auto simp: unique_by_def image_iff)

lemma unique_by_eq:
  "unique_by f rs \<Longrightarrow> x \<in> set rs \<Longrightarrow> y \<in> set rs \<Longrightarrow> f x = f y \<Longrightarrow> x = y"
  unfolding unique_by_def by (rule distinct_map_unique)

end
