(* ===== verification/GoStrings.thy ===== *)
theory GoStrings
  imports Prelude
begin

text \<open>
  The parts of Go's \<open>strings\<close>, \<open>strconv\<close> and \<open>encoding/hex\<close> packages
  that the program calls. A Go string is its list of bytes, one \<open>char\<close> each, so that
  \<open>length\<close> is Go's \<open>len\<close>. The facts proved here are those the components need:
  trimming is idempotent, decimal printing and parsing are inverse, splitting can be undone.
\<close>

section \<open>strings.TrimSpace\<close>

text \<open>
  The UTF-8 encodings of the code points with \<open>unicode.IsSpace\<close>: the six ASCII ones,
  U+0085, U+00A0, U+1680, U+2000 to U+200A, U+2028, U+2029, U+202F, U+205F and U+3000.
\<close>

definition space_seqs :: "string list" where
  "space_seqs =
     [[CHR 0x09], [CHR 0x0A], [CHR 0x0B], [CHR 0x0C], [CHR 0x0D], [CHR 0x20],
      [CHR 0xC2, CHR 0x85], [CHR 0xC2, CHR 0xA0], [CHR 0xE1, CHR 0x9A, CHR 0x80],
      [CHR 0xE2, CHR 0x80, CHR 0x80], [CHR 0xE2, CHR 0x80, CHR 0x81],
      [CHR 0xE2, CHR 0x80, CHR 0x82], [CHR 0xE2, CHR 0x80, CHR 0x83],
      [CHR 0xE2, CHR 0x80, CHR 0x84], [CHR 0xE2, CHR 0x80, CHR 0x85],
      [CHR 0xE2, CHR 0x80, CHR 0x86], [CHR 0xE2, CHR 0x80, CHR 0x87],
      [CHR 0xE2, CHR 0x80, CHR 0x88], [CHR 0xE2, CHR 0x80, CHR 0x89],
      [CHR 0xE2, CHR 0x80, CHR 0x8A], [CHR 0xE2, CHR 0x80, CHR 0xA8],
      [CHR 0xE2, CHR 0x80, CHR 0xA9], [CHR 0xE2, CHR 0x80, CHR 0xAF],
      [CHR 0xE2, CHR 0x81, CHR 0x9F], [CHR 0xE3, CHR 0x80, CHR 0x80]]"

definition begins_with :: "string \<Rightarrow> string \<Rightarrow> bool" where
  "begins_with q s \<longleftrightarrow> take (length q) s = q"

lemma begins_with_prefix: "begins_with q s \<longleftrightarrow> prefix q s"
proof
  assume "begins_with q s"
  then have "s = q @ drop (length q) s"
    by (metis append_take_drop_id begins_with_def)
  then show "prefix q s" by (rule prefixI)
qed (auto simp: begins_with_def prefix_def)

function trim_seqs :: "string list \<Rightarrow> string \<Rightarrow> string" where
  "trim_seqs qs s =
     (case find (\<lambda>q. q \<noteq> [] \<and> begins_with q s) qs of
        None \<Rightarrow> s
      | Some q \<Rightarrow> trim_seqs qs (drop (length q) s))"
  by pat_completeness auto
termination
proof (relation "measure (\<lambda>(qs, s). length s)", goal_cases)
  case (2 qs s q)
  then have "q \<noteq> []" and "begins_with q s"
    using find_Some_mem by fastforce+
  then show ?case by (cases s) (auto simp: begins_with_def)
qed simp

declare trim_seqs.simps [simp del]

definition TrimSpace :: "string \<Rightarrow> string" where
  "TrimSpace s = rev (trim_seqs (map rev space_seqs) (rev (trim_seqs space_seqs s)))"

text \<open>A string is trimmed when no space sequence is at either end.\<close>

definition starts_spaced :: "string list \<Rightarrow> string \<Rightarrow> bool" where
  "starts_spaced qs s \<longleftrightarrow> list_ex (\<lambda>q. q \<noteq> [] \<and> begins_with q s) qs"

definition trimmed :: "string \<Rightarrow> bool" where
  "trimmed s \<longleftrightarrow> \<not> starts_spaced space_seqs s \<and> \<not> starts_spaced (map rev space_seqs) (rev s)"

lemma trim_seqs_id: "\<not> starts_spaced qs s \<Longrightarrow> trim_seqs qs s = s"
  by (subst trim_seqs.simps)
     (auto simp: starts_spaced_def list_ex_iff split: option.split dest!: find_Some_mem)

lemma trim_seqs_clean: "\<not> starts_spaced qs (trim_seqs qs s)"
proof (induction qs s rule: trim_seqs.induct)
  case (1 qs s)
  show ?case
  proof (cases "find (\<lambda>q. q \<noteq> [] \<and> begins_with q s) qs")
    case None
    then have "\<not> starts_spaced qs s"
      by (auto simp: find_None_eq starts_spaced_def list_ex_iff)
    then show ?thesis by (simp add: trim_seqs_id)
  next
    case (Some q)
    with 1 show ?thesis by (subst trim_seqs.simps) simp
  qed
qed

lemma trim_seqs_suffix: "suffix (trim_seqs qs s) s"
proof (induction qs s rule: trim_seqs.induct)
  case (1 qs s)
  show ?case
  proof (cases "find (\<lambda>q. q \<noteq> [] \<and> begins_with q s) qs")
    case None
    then show ?thesis by (subst trim_seqs.simps) simp
  next
    case (Some q)
    then have "suffix (trim_seqs qs (drop (length q) s)) (drop (length q) s)"
      using 1 by simp
    then have "suffix (trim_seqs qs (drop (length q) s)) s"
      using suffix_drop suffix_order.trans by blast
    with Some show ?thesis by (subst trim_seqs.simps) simp
  qed
qed

text \<open>Dropping a tail keeps a string free of leading spaces.\<close>

lemma starts_spaced_prefix:
  "prefix s t \<Longrightarrow> starts_spaced qs s \<Longrightarrow> starts_spaced qs t"
  by (auto simp: starts_spaced_def list_ex_iff begins_with_prefix
           intro: prefix_order.trans)

lemma TrimSpace_trimmed: "trimmed (TrimSpace s)"
proof -
  let ?l = "trim_seqs space_seqs s"
  let ?r = "trim_seqs (map rev space_seqs) (rev ?l)"
  have "suffix ?r (rev ?l)" by (rule trim_seqs_suffix)
  then have "prefix (rev ?r) ?l" by (simp add: suffix_to_prefix)
  then have "\<not> starts_spaced space_seqs (rev ?r)"
    using starts_spaced_prefix trim_seqs_clean by blast
  moreover have "\<not> starts_spaced (map rev space_seqs) (rev (rev ?r))"
    using trim_seqs_clean by simp
  ultimately show ?thesis by (simp add: trimmed_def TrimSpace_def)
qed

lemma TrimSpace_id: "trimmed s \<Longrightarrow> TrimSpace s = s"
  by (simp add: TrimSpace_def trimmed_def trim_seqs_id)

lemma TrimSpace_idem [simp]: "TrimSpace (TrimSpace s) = TrimSpace s"
  by (simp add: TrimSpace_id TrimSpace_trimmed)

lemma TrimSpace_sublist: "sublist (TrimSpace s) s"
proof -
  have "prefix (TrimSpace s) (trim_seqs space_seqs s)"
    using trim_seqs_suffix [of "map rev space_seqs" "rev (trim_seqs space_seqs s)"]
    by (simp add: TrimSpace_def suffix_to_prefix)
  then show ?thesis
    using trim_seqs_suffix [of space_seqs s]
    by (meson prefix_imp_sublist suffix_imp_sublist sublist_order.order_trans)
qed

section \<open>Other string functions\<close>

fun contains :: "string \<Rightarrow> string \<Rightarrow> bool" where
  "contains q [] = (q = [])"
| "contains q (c # s) = (begins_with q (c # s) \<or> contains q s)"

definition contains_any :: "string \<Rightarrow> string \<Rightarrow> bool" where
  "contains_any cs s = list_ex (\<lambda>c. c \<in> set cs) s"

definition TrimSuffix :: "string \<Rightarrow> string \<Rightarrow> string" where
  "TrimSuffix q s = (if begins_with (rev q) (rev s) then take (length s - length q) s else s)"

fun split_on :: "char \<Rightarrow> string \<Rightarrow> string list" where
  "split_on c [] = [[]]"
| "split_on c (x # xs) =
     (if x = c then [] # split_on c xs
      else (case split_on c xs of [] \<Rightarrow> [[x]] | y # ys \<Rightarrow> (x # y) # ys))"

text \<open>\<open>SplitN(s, sep, 2)\<close> for a one-byte separator.\<close>

fun split2 :: "char \<Rightarrow> string \<Rightarrow> string list" where
  "split2 c [] = [[]]"
| "split2 c (x # xs) =
     (if x = c then [[], xs]
      else (case split2 c xs of [] \<Rightarrow> [[x]] | y # ys \<Rightarrow> (x # y) # ys))"

definition ascii_lower_char :: "char \<Rightarrow> char" where
  "ascii_lower_char c =
     (if (65 :: nat) \<le> of_char c \<and> of_char c \<le> (90 :: nat) then char_of (of_char c + (32 :: nat)) else c)"

definition ascii_lower :: "string \<Rightarrow> string" where
  "ascii_lower s = map ascii_lower_char s"

text \<open>
  \<open>strings.EqualFold\<close> against a pattern of ASCII letters other than \<open>k\<close> and
  \<open>s\<close> (the two with non-ASCII case variants) is equality of the ASCII lower cases.
\<close>

definition equal_fold_ascii :: "string \<Rightarrow> string \<Rightarrow> bool" where
  "equal_fold_ascii s t \<longleftrightarrow> ascii_lower s = ascii_lower t"

lemma split_on_nonempty [simp]: "split_on c s \<noteq> []"
  by (induction s) (auto split: list.split)

lemma split2_nonempty [simp]: "split2 c s \<noteq> []"
  by (induction s) (auto split: list.split)

lemma split2_none: "c \<notin> set s \<Longrightarrow> split2 c s = [s]"
  by (induction s) auto

lemma split2_at: "c \<notin> set s \<Longrightarrow> split2 c (s @ c # t) = [s, t]"
  by (induction s) auto

lemma split2_two: "split2 c s = [a, b] \<Longrightarrow> s = a @ c # b \<and> c \<notin> set a"
proof (induction s arbitrary: a)
  case (Cons x xs)
  then show ?case
    by (cases "x = c") (auto split: list.splits)
qed simp

section \<open>strconv\<close>

definition is_digit :: "char \<Rightarrow> bool" where
  "is_digit c \<longleftrightarrow> (48 :: int) \<le> of_char c \<and> of_char c \<le> (57 :: int)"

definition digit_val :: "char \<Rightarrow> int" where
  "digit_val c = of_char c - 48"

definition digit_char :: "int \<Rightarrow> char" where
  "digit_char d = char_of (48 + d)"

text \<open>Decimal digits of a non-negative integer.\<close>

function dec :: "int \<Rightarrow> string" where
  "dec n = (if n < 10 then [digit_char n] else dec (n div 10) @ [digit_char (n mod 10)])"
  by pat_completeness auto
termination
  by (relation "measure nat") auto

declare dec.simps [simp del]

definition digits_val :: "string \<Rightarrow> int" where
  "digits_val s = foldl (\<lambda>n c. 10 * n + digit_val c) 0 s"

definition parse_nat :: "string \<Rightarrow> int option" where
  "parse_nat s = (if s \<noteq> [] \<and> list_all is_digit s then Some (digits_val s) else None)"

text \<open>\<open>ParseUint(s, 10, 64)\<close> and \<open>Atoi\<close>; \<open>None\<close> stands for either error.\<close>

definition ParseUint :: "string \<Rightarrow> u64 option" where
  "ParseUint s = (case parse_nat s of None \<Rightarrow> None
     | Some n \<Rightarrow> if n \<le> 18446744073709551615 then Some (of_int n) else None)"

definition Atoi :: "string \<Rightarrow> int option" where
  "Atoi s =
     (let neg = begins_with ''-'' s;
          body = (if neg \<or> begins_with ''+'' s then tl s else s)
      in case parse_nat body of
           None \<Rightarrow> None
         | Some n \<Rightarrow>
             if neg then (if - n < min_int64 then None else Some (- n))
             else (if n > max_int64 then None else Some n))"

definition FormatUint :: "u64 \<Rightarrow> string" where
  "FormatUint x = dec (uint x)"

definition Itoa :: "int \<Rightarrow> string" where
  "Itoa i = (if i < 0 then CHR ''-'' # dec (- i) else dec i)"

definition ParseBool :: "string \<Rightarrow> bool option" where
  "ParseBool s =
     (if s \<in> set [''1'', ''t'', ''T'', ''TRUE'', ''true'', ''True''] then Some True
      else if s \<in> set [''0'', ''f'', ''F'', ''FALSE'', ''false'', ''False''] then Some False
      else None)"

definition FormatBool :: "bool \<Rightarrow> string" where
  "FormatBool b = (if b then ''true'' else ''false'')"

lemma digit_char_is_digit [simp]: "0 \<le> d \<Longrightarrow> d < 10 \<Longrightarrow> is_digit (digit_char d)"
  by (simp add: is_digit_def digit_char_def)

lemma digit_val_char [simp]: "0 \<le> d \<Longrightarrow> d < 10 \<Longrightarrow> digit_val (digit_char d) = d"
  by (simp add: digit_val_def digit_char_def)

lemma digit_val_nonneg: "is_digit c \<Longrightarrow> 0 \<le> digit_val c"
  by (simp add: is_digit_def digit_val_def)

lemma dec_nonempty [simp]: "dec n \<noteq> []"
  by (subst dec.simps) simp

lemma dec_digits: "0 \<le> n \<Longrightarrow> list_all is_digit (dec n)"
proof (induction n rule: dec.induct)
  case (1 n)
  then show ?case by (subst dec.simps) simp
qed

lemma digits_val_snoc: "digits_val (s @ [c]) = 10 * digits_val s + digit_val c"
  by (simp add: digits_val_def)

lemma digits_val_nonneg: "list_all is_digit s \<Longrightarrow> 0 \<le> digits_val s"
proof (induction s rule: rev_induct)
  case Nil
  then show ?case by (simp add: digits_val_def)
next
  case (snoc c s)
  then show ?case using digit_val_nonneg [of c] by (simp add: digits_val_snoc)
qed

lemma digits_val_dec: "0 \<le> n \<Longrightarrow> digits_val (dec n) = n"
proof (induction n rule: dec.induct)
  case (1 n)
  show ?case
  proof (cases "n < 10")
    case True
    with 1 show ?thesis by (subst dec.simps) (simp add: digits_val_def)
  next
    case False
    with 1 show ?thesis by (subst dec.simps) (simp add: digits_val_snoc)
  qed
qed

lemma parse_nat_dec [simp]: "0 \<le> n \<Longrightarrow> parse_nat (dec n) = Some n"
  by (simp add: parse_nat_def dec_digits digits_val_dec)

lemma parse_nat_nonneg: "parse_nat s = Some n \<Longrightarrow> 0 \<le> n"
  by (auto simp: parse_nat_def digits_val_nonneg split: if_splits)

lemma uint_less_64: "uint (x :: u64) \<le> 18446744073709551615"
  using uint_lt2p [of x] by simp

lemma ParseUint_FormatUint [simp]: "ParseUint (FormatUint x) = Some x"
  using uint_less_64 [of x] by (simp add: ParseUint_def FormatUint_def)

lemma FormatUint_inject [simp]: "FormatUint x = FormatUint y \<longleftrightarrow> x = y"
  by (metis ParseUint_FormatUint option.inject)

lemma FormatUint_nonempty [simp]: "FormatUint x \<noteq> []"
  by (simp add: FormatUint_def)

lemma FormatUint_digits: "c \<in> set (FormatUint x) \<Longrightarrow> is_digit c"
  using dec_digits [of "uint x"] by (simp add: FormatUint_def list_all_iff)

lemma Atoi_Itoa: "min_int64 \<le> i \<Longrightarrow> i \<le> max_int64 \<Longrightarrow> Atoi (Itoa i) = Some i"
proof (cases "i < 0")
  case True
  assume "min_int64 \<le> i"
  with True show ?thesis by (simp add: Atoi_def Itoa_def begins_with_def)
next
  case False
  assume "i \<le> max_int64"
  obtain c s where c: "dec i = c # s" "is_digit c"
    using dec_nonempty [of i] dec_digits [of i] False by (cases "dec i") auto
  then have "c \<noteq> CHR ''-''" "c \<noteq> CHR ''+''" by (auto simp: is_digit_def)
  with c(1) have "Atoi (dec i) =
      (case parse_nat (dec i) of None \<Rightarrow> None | Some n \<Rightarrow> if n > max_int64 then None else Some n)"
    by (simp add: Atoi_def begins_with_def split: option.split)
  with False \<open>i \<le> max_int64\<close> show ?thesis by (simp add: Itoa_def)
qed

lemma Atoi_range: "Atoi s = Some i \<Longrightarrow> min_int64 \<le> i \<and> i \<le> max_int64"
  using parse_nat_nonneg
  by (fastforce simp: Atoi_def Let_def max_int64_def min_int64_def split: option.splits if_splits)

section \<open>encoding/hex\<close>

definition hex_digit :: "nat \<Rightarrow> char" where
  "hex_digit d = (if d < 10 then char_of (48 + d) else char_of (87 + d))"

definition hex_byte :: "char \<Rightarrow> string" where
  "hex_byte c = [hex_digit (of_char c div 16), hex_digit (of_char c mod 16)]"

definition hex_encode :: "string \<Rightarrow> string" where
  "hex_encode bs = concat (map hex_byte bs)"

lemma length_hex_encode: "length (hex_encode bs) = 2 * length bs"
  by (induction bs) (simp_all add: hex_encode_def hex_byte_def)

lemma hex_digit_code: "d < 16 \<Longrightarrow> of_char (hex_digit d) = (if d < 10 then 48 + d else 87 + d)"
  by (simp add: hex_digit_def)

lemma hex_digit_inject:
  assumes "a < 16" and "b < 16"
  shows "hex_digit a = hex_digit b \<longleftrightarrow> a = b"
proof
  assume "hex_digit a = hex_digit b"
  then have "(of_char (hex_digit a) :: nat) = of_char (hex_digit b)" by (rule arg_cong)
  then have "(if a < 10 then 48 + a else 87 + a) = (if b < 10 then 48 + b else 87 + b)"
    by (simp only: hex_digit_code assms)
  then show "a = b" using assms by (cases "a < 10"; cases "b < 10"; simp only: if_True if_False; arith)
qed simp

lemma hex_byte_inject: "hex_byte c = hex_byte d \<longleftrightarrow> c = d"
proof
  assume eq: "hex_byte c = hex_byte d"
  have c: "(of_char c :: nat) < 256" and d: "(of_char d :: nat) < 256" by simp_all
  from eq have "(of_char c :: nat) div 16 = of_char d div 16"
    and "(of_char c :: nat) mod 16 = of_char d mod 16"
    using c d by (auto simp: hex_byte_def hex_digit_inject)
  then have "(of_char c :: nat) = of_char d"
    by (metis div_mult_mod_eq)
  then show "c = d" by simp
qed simp

lemma length_hex_byte [simp]: "length (hex_byte c) = 2"
  by (simp add: hex_byte_def)

lemma hex_encode_simps [simp, code]:
  "hex_encode [] = []" "hex_encode (c # bs) = hex_byte c @ hex_encode bs"
  by (simp_all add: hex_encode_def)

lemma hex_encode_no_newline: "CHR 0x0A \<notin> set (hex_encode bs)"
proof -
  have digit: "hex_digit d \<noteq> CHR 0x0A" if "d < 16" for d
  proof
    assume "hex_digit d = CHR 0x0A"
    then have "(of_char (hex_digit d) :: nat) = of_char (CHR 0x0A)" by (rule arg_cong)
    then show False using hex_digit_code [OF that] by (simp split: if_splits)
  qed
  have small: "(of_char c :: nat) div 16 < 16" for c
    by (rule less_mult_imp_div_less) simp
  have "CHR 0x0A \<notin> set (hex_byte c)" for c
    using digit [OF small, of c] digit [of "of_char c mod 16"] by (auto simp: hex_byte_def)
  then show ?thesis by (auto simp: hex_encode_def)
qed

lemma hex_encode_Nil_iff: "hex_encode bs = [] \<longleftrightarrow> bs = []"
  by (cases bs) (simp_all add: hex_byte_def)

lemma hex_encode_inject: "hex_encode a = hex_encode b \<longleftrightarrow> a = b"
proof (induction a arbitrary: b)
  case Nil
  then show ?case using hex_encode_Nil_iff [of b] by auto
next
  case (Cons x a)
  show ?case
  proof (cases b)
    case Nil
    then show ?thesis using hex_encode_Nil_iff [of "x # a"] by (simp del: hex_encode_simps(2))
  next
    case (Cons y b')
    have "hex_encode (x # a) = hex_encode (y # b') \<longleftrightarrow>
        hex_byte x = hex_byte y \<and> hex_encode a = hex_encode b'"
      by (simp add: append_eq_append_conv)
    then show ?thesis using Cons.IH [of b'] Cons by (simp add: hex_byte_inject)
  qed
qed

end
