(* ===== verification/GoNet.thy ===== *)
theory GoNet
  imports GoStrings
begin

text \<open>
  The parts of Go's \<open>net\<close> package that the program's validation and network policy
  call: textual IP addresses, their classification, and \<open>host:port\<close> strings; and the
  record \<open>golib\<close> of library functions that stay parameters of the model (Unicode case
  mapping, URL parsing, SHA-256 and timestamp formatting).
\<close>

unbundle bit_operations_syntax

section \<open>Library functions that are parameters\<close>

record url =
  url_Scheme :: string
  url_Hostname :: string
  url_Port :: string
  url_has_User :: bool
  url_String :: string

record golib =
  lib_ToLower :: "string \<Rightarrow> string"
  lib_url_Parse :: "string \<Rightarrow> url option"
  lib_sha256_hex :: "string \<Rightarrow> string"
  lib_format_time :: "time \<Rightarrow> string"
  lib_parse_time :: "string \<Rightarrow> time option"

section \<open>net.ParseIP\<close>

type_synonym u8 = "8 word"
type_synonym ip = "u8 list"

definition v4_prefix :: ip where
  "v4_prefix = [0, 0, 0, 0, 0, 0, 0, 0, 0, 0, 0xff, 0xff]"

definition ipv4_octet :: "string \<Rightarrow> u8 option" where
  "ipv4_octet s =
     (case parse_nat s of
        None \<Rightarrow> None
      | Some n \<Rightarrow>
          if n \<le> 255 \<and> (length s = 1 \<or> \<not> begins_with ''0'' s) then Some (of_int n) else None)"

definition parse_ipv4 :: "string \<Rightarrow> ip option" where
  "parse_ipv4 s =
     (case map ipv4_octet (split_on CHR ''.'' s) of
        [Some a, Some b, Some c, Some d] \<Rightarrow> Some [a, b, c, d]
      | _ \<Rightarrow> None)"

definition hex_val :: "char \<Rightarrow> nat option" where
  "hex_val c =
     (let n = of_char c :: nat
      in if 48 \<le> n \<and> n \<le> 57 then Some (n - 48)
         else if 97 \<le> n \<and> n \<le> 102 then Some (n - 87)
         else if 65 \<le> n \<and> n \<le> 70 then Some (n - 55)
         else None)"

fun hex_prefix :: "string \<Rightarrow> nat list \<times> string" where
  "hex_prefix [] = ([], [])"
| "hex_prefix (c # s) =
     (case hex_val c of
        None \<Rightarrow> ([], c # s)
      | Some v \<Rightarrow> (case hex_prefix s of (vs, rest) \<Rightarrow> (v # vs, rest)))"

definition hex_group :: "nat list \<Rightarrow> nat" where
  "hex_group vs = foldl (\<lambda>a v. 16 * a + v) 0 vs"

text \<open>
  The group loop: \<open>n\<close> groups may still be read, \<open>out\<close> holds the bytes read so far,
  \<open>ell\<close> the position of \<open>::\<close> if it was seen. The result is the bytes and the
  position, or \<open>None\<close> for a syntax error.
\<close>

fun ipv6_groups :: "nat \<Rightarrow> string \<Rightarrow> ip \<Rightarrow> nat option \<Rightarrow> (ip \<times> nat option) option" where
  "ipv6_groups 0 s out ell = (if s = [] then Some (out, ell) else None)"
| "ipv6_groups (Suc n) s out ell =
     (case hex_prefix s of (vs, rest) \<Rightarrow>
        if vs = [] \<or> length vs > 4 then None
        else if begins_with ''.'' rest then
          (if (ell = None \<and> length out \<noteq> 12) \<or> length out + 4 > 16 then None
           else (case parse_ipv4 s of None \<Rightarrow> None | Some v4 \<Rightarrow> Some (out @ v4, ell)))
        else
          (let g = hex_group vs; out' = out @ [of_nat (g div 256), of_nat (g mod 256)]
           in case rest of
                [] \<Rightarrow> Some (out', ell)
              | c # rest' \<Rightarrow>
                  if c \<noteq> CHR '':'' \<or> rest' = [] then None
                  else if begins_with '':'' rest' then
                    (if ell \<noteq> None then None
                     else if tl rest' = [] then Some (out', Some (length out'))
                     else ipv6_groups n (tl rest') out' (Some (length out')))
                  else ipv6_groups n rest' out' ell))"

definition parse_ipv6 :: "string \<Rightarrow> ip option" where
  "parse_ipv6 s =
     (let lead = begins_with ''::'' s; s' = (if lead then drop 2 s else s)
      in if lead \<and> s' = [] then Some (replicate 16 0)
         else (case ipv6_groups 8 s' [] (if lead then Some 0 else None) of
                 None \<Rightarrow> None
               | Some (out, ell) \<Rightarrow>
                   (case ell of
                      None \<Rightarrow> if length out = 16 then Some out else None
                    | Some k \<Rightarrow>
                        if length out < 16
                        then Some (take k out @ replicate (16 - length out) 0 @ drop k out)
                        else None)))"

fun first_of :: "string \<Rightarrow> string \<Rightarrow> char option" where
  "first_of cs [] = None"
| "first_of cs (c # s) = (if c \<in> set cs then Some c else first_of cs s)"

text \<open>\<open>ParseIP\<close> gives IPv4 addresses in their 16-byte form; zones are refused.\<close>

definition ParseIP :: "string \<Rightarrow> ip option" where
  "ParseIP s =
     (case first_of ''.:%'' s of
        None \<Rightarrow> None
      | Some c \<Rightarrow>
          if c = CHR ''.'' then map_option ((@) v4_prefix) (parse_ipv4 s)
          else if c = CHR '':'' then parse_ipv6 s
          else None)"

section \<open>Classification of net.IP\<close>

definition To4 :: "ip \<Rightarrow> ip option" where
  "To4 a =
     (if length a = 4 then Some a
      else if length a = 16 \<and> take 12 a = v4_prefix then Some (drop 12 a)
      else None)"

definition ip_equal :: "ip \<Rightarrow> ip \<Rightarrow> bool" where
  "ip_equal a b \<longleftrightarrow>
     (if length a = length b then a = b
      else if length a = 4 \<and> length b = 16 then take 12 b = v4_prefix \<and> a = drop 12 b
      else if length a = 16 \<and> length b = 4 then take 12 a = v4_prefix \<and> drop 12 a = b
      else False)"

definition IPv4zero :: ip where "IPv4zero = v4_prefix @ [0, 0, 0, 0]"
definition IPv6unspecified :: ip where "IPv6unspecified = replicate 16 0"
definition IPv6loopback :: ip where "IPv6loopback = replicate 15 0 @ [1]"

definition IsUnspecified :: "ip \<Rightarrow> bool" where
  "IsUnspecified a \<longleftrightarrow> ip_equal a IPv4zero \<or> ip_equal a IPv6unspecified"

definition IsLoopback :: "ip \<Rightarrow> bool" where
  "IsLoopback a =
     (case To4 a of Some v \<Rightarrow> v ! 0 = 127 | None \<Rightarrow> ip_equal a IPv6loopback)"

definition IsPrivate :: "ip \<Rightarrow> bool" where
  "IsPrivate a =
     (case To4 a of
        Some v \<Rightarrow> v ! 0 = 10 \<or> (v ! 0 = 172 \<and> v ! 1 AND 0xf0 = 16) \<or> (v ! 0 = 192 \<and> v ! 1 = 168)
      | None \<Rightarrow> length a = 16 \<and> a ! 0 AND 0xfe = 0xfc)"

definition IsMulticast :: "ip \<Rightarrow> bool" where
  "IsMulticast a =
     (case To4 a of
        Some v \<Rightarrow> v ! 0 AND 0xf0 = 0xe0
      | None \<Rightarrow> length a = 16 \<and> a ! 0 = 0xff)"

definition IsLinkLocalMulticast :: "ip \<Rightarrow> bool" where
  "IsLinkLocalMulticast a =
     (case To4 a of
        Some v \<Rightarrow> v ! 0 = 224 \<and> v ! 1 = 0 \<and> v ! 2 = 0
      | None \<Rightarrow> length a = 16 \<and> a ! 0 = 0xff \<and> a ! 1 AND 0x0f = 0x02)"

definition IsLinkLocalUnicast :: "ip \<Rightarrow> bool" where
  "IsLinkLocalUnicast a =
     (case To4 a of
        Some v \<Rightarrow> v ! 0 = 169 \<and> v ! 1 = 254
      | None \<Rightarrow> length a = 16 \<and> a ! 0 = 0xfe \<and> a ! 1 AND 0xc0 = 0x80)"

text \<open>A 4-byte address and its 16-byte form are the same address.\<close>

lemma To4_mapped [simp]: "length v = 4 \<Longrightarrow> To4 (v4_prefix @ v) = Some v"
  by (simp add: To4_def v4_prefix_def)

lemma To4_short [simp]: "length v = 4 \<Longrightarrow> To4 v = Some v"
  by (simp add: To4_def)

lemma length_v4_prefix [simp]: "length v4_prefix = 12"
  by (simp add: v4_prefix_def)

lemma ip_equal_mapped:
  assumes "length v = 4" and "length b = 16"
  shows "ip_equal (v4_prefix @ v) b = ip_equal v b"
proof -
  have "v4_prefix @ v = b \<longleftrightarrow> take 12 b = v4_prefix \<and> v = drop 12 b"
    using append_eq_conv_conj [of v4_prefix v b] by auto
  then show ?thesis using assms by (simp add: ip_equal_def)
qed

section \<open>host:port\<close>

definition last_index :: "char \<Rightarrow> string \<Rightarrow> nat option" where
  "last_index c s =
     (case find (\<lambda>i. s ! i = c) (rev [0..<length s]) of None \<Rightarrow> None | Some i \<Rightarrow> Some i)"

definition first_index :: "char \<Rightarrow> string \<Rightarrow> nat option" where
  "first_index c s = find (\<lambda>i. s ! i = c) [0..<length s]"

definition SplitHostPort :: "string \<Rightarrow> (string \<times> string) option" where
  "SplitHostPort hp =
     (case last_index CHR '':'' hp of
        None \<Rightarrow> None
      | Some i \<Rightarrow>
          if begins_with ''['' hp then
            (case first_index CHR '']'' hp of
               None \<Rightarrow> None
             | Some e \<Rightarrow>
                 if e + 1 \<noteq> i then None
                 else if CHR ''['' \<in> set (drop 1 hp) \<or> CHR '']'' \<in> set (drop (e + 1) hp) then None
                 else Some (drop 1 (take e hp), drop (i + 1) hp))
          else
            (let host = take i hp
             in if CHR '':'' \<in> set host then None
                else if CHR ''['' \<in> set hp \<or> CHR '']'' \<in> set hp then None
                else Some (host, drop (i + 1) hp)))"

definition JoinHostPort :: "string \<Rightarrow> string \<Rightarrow> string" where
  "JoinHostPort h p =
     (if CHR '':'' \<in> set h then ''['' @ h @ '']:'' @ p else h @ '':'' @ p)"

end
