(* ===== verification/AssetValidation.thy ===== *)
theory AssetValidation
  imports GoNet
begin

text \<open>
  \<open>internal/asset/validation.go\<close>: host addresses, host names and probe targets. A check
  that returns an error of its own gives \<open>Some\<close> of it, \<open>None\<close> is Go's \<open>nil\<close>.
\<close>

definition hostname_char :: "char \<Rightarrow> bool" where
  "hostname_char c =
     (let n = of_char c :: nat
      in (97 \<le> n \<and> n \<le> 122) \<or> (65 \<le> n \<and> n \<le> 90) \<or> (48 \<le> n \<and> n \<le> 57) \<or> c = CHR ''-'')"

definition valid_label :: "string \<Rightarrow> bool" where
  "valid_label label \<longleftrightarrow>
     label \<noteq> [] \<and> length label \<le> 63 \<and> hd label \<noteq> CHR ''-'' \<and> last label \<noteq> CHR ''-'' \<and>
     list_all hostname_char label"

definition validHostname :: "string \<Rightarrow> bool" where
  "validHostname host0 =
     (let host = TrimSuffix ''.'' host0
      in if host = [] \<or> length host > 253 then False
         else list_all valid_label (split_on CHR ''.'' host))"

definition validateHostAddress :: "string \<Rightarrow> go_error option" where
  "validateHostAddress address =
     (if address = [] \<or> contains_any ''/@'' address \<or> contains ''://'' address
      then Some (Sentinel AssetErrInvalidInput)
      else if ParseIP address \<noteq> None then None
      else if contains '':'' address \<or> \<not> validHostname address
      then Some (Sentinel AssetErrInvalidInput)
      else None)"

definition valid_port :: "string \<Rightarrow> bool" where
  "valid_port port =
     (case Atoi port of None \<Rightarrow> False | Some v \<Rightarrow> \<not> (v < 1 \<or> v > 65535))"

definition validateTarget :: "golib \<Rightarrow> string \<Rightarrow> string \<Rightarrow> go_error option" where
  "validateTarget L kind target =
     (if kind = ''http'' then
        (case lib_url_Parse L target of
           None \<Rightarrow> Some (Sentinel AssetErrInvalidInput)
         | Some parsed \<Rightarrow>
             if url_Scheme parsed = [] \<or>
                (url_Scheme parsed \<noteq> ''http'' \<and> url_Scheme parsed \<noteq> ''https'') \<or>
                url_Hostname parsed = [] \<or> url_has_User parsed
             then Some (Sentinel AssetErrInvalidInput)
             else if url_Port parsed \<noteq> [] \<and> \<not> valid_port (url_Port parsed)
             then Some (Sentinel AssetErrInvalidInput)
             else None)
      else if kind = ''tcp'' then
        (case SplitHostPort target of
           None \<Rightarrow> Some (Sentinel AssetErrInvalidInput)
         | Some (host, port) \<Rightarrow>
             if host = [] then Some (Sentinel AssetErrInvalidInput)
             else if \<not> valid_port port then Some (Sentinel AssetErrInvalidInput)
             else if ParseIP host = None \<and> \<not> validHostname host
             then Some (Sentinel AssetErrInvalidInput)
             else None)
      else Some (Sentinel AssetErrInvalidInput))"

end
