(* ===== verification/Schema.thy ===== *)
theory Schema
  imports GoStrings
begin

text \<open>
  The rows of the MySQL tables, one record per Go model struct, and the database state
  as a record of row lists. Field names carry the struct's name as a prefix. Pointers that
  the program uses as "value or NULL" are options. Column uniqueness and column types are
  those of the SQL files under \<open>migrations\<close>.
\<close>

section \<open>internal/audit/model.go\<close>

record Log =
  Log_ID :: u64
  Log_ActorUserID :: "u64 option"
  Log_Username :: "string option"
  Log_Action :: string
  Log_Outcome :: string
  Log_FailureCode :: "string option"
  Log_ResourceType :: "string option"
  Log_ResourceID :: "string option"
  Log_RequestID :: "string option"
  Log_ClientIP :: "string option"
  Log_UserAgent :: "string option"
  Log_Details :: "string option"
  Log_CreatedAt :: time

definition Log_zero :: Log where
  "Log_zero = \<lparr>Log_ID = 0, Log_ActorUserID = None, Log_Username = None, Log_Action = [],
     Log_Outcome = [], Log_FailureCode = None, Log_ResourceType = None, Log_ResourceID = None,
     Log_RequestID = None, Log_ClientIP = None, Log_UserAgent = None, Log_Details = None,
     Log_CreatedAt = 0\<rparr>"

section \<open>internal/auth/model.go\<close>

abbreviation "AuthStatusActive \<equiv> ''active''"
abbreviation "AuthStatusDisabled \<equiv> ''disabled''"

record User =
  User_ID :: u64
  User_Username :: string
  User_PasswordHash :: string
  User_Status :: string
  User_LastLoginAt :: "time option"
  User_CreatedAt :: time
  User_UpdatedAt :: time

section \<open>internal/asset/model.go\<close>

abbreviation "StatusActive \<equiv> ''active''"
abbreviation "StatusDisabled \<equiv> ''disabled''"
abbreviation "TypeHTTP \<equiv> ''http''"
abbreviation "TypeTCP \<equiv> ''tcp''"

record Host =
  Host_ID :: u64
  Host_Name :: string
  Host_Address :: string
  Host_Description :: string
  Host_Status :: string
  Host_CreatedBy :: u64
  Host_UpdatedBy :: u64
  Host_CreatedAt :: time
  Host_UpdatedAt :: time

record MonitoredService =
  Svc_ID :: u64
  Svc_HostID :: u64
  Svc_Name :: string
  Svc_Type :: string
  Svc_Target :: string
  Svc_Description :: string
  Svc_Status :: string
  Svc_CreatedBy :: u64
  Svc_UpdatedBy :: u64
  Svc_CreatedAt :: time
  Svc_UpdatedAt :: time

section \<open>internal/probe/model.go\<close>

abbreviation "TaskActive \<equiv> ''active''"
abbreviation "TaskDisabled \<equiv> ''disabled''"
abbreviation "ExecutionQueued \<equiv> ''queued''"
abbreviation "ExecutionRunning \<equiv> ''running''"
abbreviation "ExecutionSuccess \<equiv> ''succeeded''"
abbreviation "ExecutionFailed \<equiv> ''failed''"

record Task =
  Task_ID :: u64
  Task_ServiceID :: u64
  Task_Name :: string
  Task_IntervalSeconds :: int
  Task_TimeoutMilliseconds :: int
  Task_MaxRetries :: int
  Task_RetryBaseDelayMilliseconds :: int
  Task_Status :: string
  Task_NextRunAt :: time
  Task_LastScheduledAt :: "time option"
  Task_CreatedBy :: u64
  Task_UpdatedBy :: u64
  Task_CreatedAt :: time
  Task_UpdatedAt :: time

record Execution =
  Exec_ID :: u64
  Exec_ExecutionID :: string
  Exec_TaskID :: u64
  Exec_ServiceID :: u64
  Exec_ProbeType :: string
  Exec_TargetSnapshot :: string
  Exec_ScheduledAt :: time
  Exec_StartedAt :: "time option"
  Exec_FinishedAt :: "time option"
  Exec_DurationMilliseconds :: "int option"
  Exec_Status :: string
  Exec_Success :: "bool option"
  Exec_AttemptCount :: int
  Exec_HTTPStatusCode :: "int option"
  Exec_ErrorCode :: "string option"
  Exec_ErrorMessage :: "string option"
  Exec_WorkerConsumer :: "string option"
  Exec_CreatedAt :: time
  Exec_UpdatedAt :: time

section \<open>internal/incident/model.go\<close>

abbreviation "IncFiring \<equiv> ''firing''"
abbreviation "IncAcknowledged \<equiv> ''acknowledged''"
abbreviation "IncProcessing \<equiv> ''processing''"
abbreviation "IncResolved \<equiv> ''resolved''"
abbreviation "IncClosed \<equiv> ''closed''"

record Incident =
  Inc_ID :: u64
  Inc_EventKey :: string
  Inc_Fingerprint :: string
  Inc_ExternalFingerprint :: "string option"
  Inc_AlertName :: string
  Inc_ServiceID :: u64
  Inc_TaskID :: u64
  Inc_ProbeType :: string
  Inc_Severity :: string
  Inc_Status :: string
  Inc_Summary :: string
  Inc_Description :: string
  Inc_FiredAt :: time
  Inc_LastSeenAt :: time
  Inc_ResolvedAt :: "time option"
  Inc_ClosedAt :: "time option"
  Inc_AcknowledgedAt :: "time option"
  Inc_ProcessingAt :: "time option"
  Inc_AcknowledgedBy :: "u64 option"
  Inc_ProcessingBy :: "u64 option"
  Inc_ClosedBy :: "u64 option"
  Inc_OccurrenceCount :: nat
  Inc_CreatedAt :: time
  Inc_UpdatedAt :: time

section \<open>The database\<close>

record db =
  T_users :: "User list"
  T_audit_logs :: "Log list"
  T_hosts :: "Host list"
  T_services :: "MonitoredService list"
  T_tasks :: "Task list"
  T_results :: "Execution list"
  T_incidents :: "Incident list"

definition empty_db :: db where
  "empty_db = \<lparr>T_users = [], T_audit_logs = [], T_hosts = [], T_services = [],
     T_tasks = [], T_results = [], T_incidents = []\<rparr>"

end
