(* ===== verification/Store.thy ===== *)
theory Store
  imports Schema
begin

text \<open>
  How the repositories talk to MySQL. The database is explicit state; a statement reads
  or rewrites the rows that its WHERE clause selects, as the SQL of the source says. What
  the program cannot determine, and what is not in its source, is the parameter \<open>env\<close>:
  the clock, whether a statement or a commit fails and with which error, whether the reply
  of a commit is lost, the generated identifiers, which rows another transaction has
  locked, random bytes, the column precision of DATETIME(3) and the collation of text
  columns. Every call outside the process reads \<open>env\<close> at the current tick and
  advances the tick.
\<close>

section \<open>Environment and world\<close>

record env =
  env_clock :: "nat \<Rightarrow> time"
  env_fault :: "nat \<Rightarrow> go_error option"
  env_lost :: "nat \<Rightarrow> bool"
  env_new_id :: "nat \<Rightarrow> u64 list \<Rightarrow> u64"
  env_locked :: "nat \<Rightarrow> u64 \<Rightarrow> bool"
  env_rand :: "nat \<Rightarrow> nat \<Rightarrow> go_error + string"
  env_col3 :: "time \<Rightarrow> time"
  env_coll :: "string \<Rightarrow> string"

record world =
  w_db :: db
  w_tick :: nat

definition tick :: "world \<Rightarrow> world" where
  "tick w = w\<lparr>w_tick := Suc (w_tick w)\<rparr>"

lemma tick_fields [simp]: "w_db (tick w) = w_db w" "w_tick (tick w) = Suc (w_tick w)"
  by (simp_all add: tick_def)

definition time_now :: "env \<Rightarrow> (world, time) op" where
  "time_now E w = (Inr (env_clock E (w_tick w)), tick w)"

definition rand_read :: "env \<Rightarrow> nat \<Rightarrow> (world, string) op" where
  "rand_read E n w = (env_rand E (w_tick w) n, tick w)"

section \<open>Statements and transactions\<close>

definition db_stmt :: "env \<Rightarrow> (nat \<Rightarrow> db \<Rightarrow> go_error + 'a \<times> db) \<Rightarrow> (world, 'a) op" where
  "db_stmt E f w =
     (case env_fault E (w_tick w) of
        Some e \<Rightarrow> (Inl e, tick w)
      | None \<Rightarrow>
          (case f (w_tick w) (w_db w) of
             Inl e \<Rightarrow> (Inl e, tick w)
           | Inr (x, d) \<Rightarrow> (Inr x, (tick w)\<lparr>w_db := d\<rparr>)))"

definition db_query :: "env \<Rightarrow> (db \<Rightarrow> go_error + 'a) \<Rightarrow> (world, 'a) op" where
  "db_query E f = db_stmt E (\<lambda>_ d. case f d of Inl e \<Rightarrow> Inl e | Inr x \<Rightarrow> Inr (x, d))"

text \<open>
  \<open>db.Transaction(body)\<close>: BEGIN, the body, then COMMIT, or ROLLBACK when the body
  returns an error. When COMMIT reports an error the transaction is undone, unless only the
  reply was lost.
\<close>

definition transaction :: "env \<Rightarrow> (world, 'a) op \<Rightarrow> (world, 'a) op" where
  "transaction E body w =
     (case env_fault E (w_tick w) of
        Some e \<Rightarrow> (Inl e, tick w)
      | None \<Rightarrow>
          (case body (tick w) of
             (Inl e, w') \<Rightarrow> (Inl e, w'\<lparr>w_db := w_db w\<rparr>)
           | (Inr x, w') \<Rightarrow>
               (case env_fault E (w_tick w') of
                  None \<Rightarrow> (Inr x, tick w')
                | Some e \<Rightarrow>
                    (Inl e, if env_lost E (w_tick w') then tick w'
                            else (tick w')\<lparr>w_db := w_db w\<rparr>))))"

text \<open>
  Row locks, commits and the isolation of one transaction from another are those of the
  engine: an operation of a repository is one atomic step of the database.
\<close>

lemma time_now_run [op_simps, simp]: "time_now E w = (Inr (env_clock E (w_tick w)), tick w)"
  by (simp add: time_now_def)

lemma db_stmt_Inr:
  "db_stmt E f w = (Inr x, w') \<longleftrightarrow>
     env_fault E (w_tick w) = None \<and>
     (\<exists>d. f (w_tick w) (w_db w) = Inr (x, d) \<and> w' = (tick w)\<lparr>w_db := d\<rparr>)"
  by (auto simp: db_stmt_def split: option.splits sum.splits)

lemma db_stmt_Inl_db: "db_stmt E f w = (Inl e, w') \<Longrightarrow> w_db w' = w_db w"
  by (auto simp: db_stmt_def split: option.splits sum.splits prod.splits)

lemma db_query_Inr:
  "db_query E f w = (Inr x, w') \<longleftrightarrow>
     env_fault E (w_tick w) = None \<and> f (w_db w) = Inr x \<and> w' = tick w"
  by (cases w) (auto simp: db_query_def db_stmt_Inr tick_def split: sum.splits)

lemma db_query_db: "w_db (snd (db_query E f w)) = w_db w"
  by (auto simp: db_query_def db_stmt_def split: option.splits sum.splits)

lemma transaction_Inr:
  "transaction E body w = (Inr x, w') \<longleftrightarrow>
     env_fault E (w_tick w) = None \<and>
     (\<exists>w1. body (tick w) = (Inr x, w1) \<and> env_fault E (w_tick w1) = None \<and> w' = tick w1)"
  by (auto simp: transaction_def split: option.splits sum.splits prod.splits)

text \<open>All or nothing: a failed transaction changed nothing, or only its reply was lost.\<close>

lemma transaction_Inl:
  assumes "transaction E body w = (Inl e, w')"
  shows "w_db w' = w_db w \<or>
    (\<exists>x w1. body (tick w) = (Inr x, w1) \<and> w_db w' = w_db w1 \<and>
       env_lost E (w_tick w1) \<and> env_fault E (w_tick w1) = Some e)"
  using assms by (auto simp: transaction_def split: option.splits sum.splits prod.splits if_splits)

text \<open>The effect of a transaction on the database: that of its body, or none.\<close>

lemma transaction_db:
  "w_db (snd (transaction E body w)) = w_db w \<or>
   (\<exists>x w1. body (tick w) = (Inr x, w1) \<and> w_db (snd (transaction E body w)) = w_db w1)"
  by (auto simp: transaction_def split: option.splits sum.splits prod.splits)

text \<open>
  The contract of an operation that is one transaction: on success the database satisfies
  \<open>P\<close> of the result; on an error it is unchanged, or the transaction went through and
  only the reply was lost.
\<close>

definition all_or_nothing :: "('w \<Rightarrow> db) \<Rightarrow> ('w, 'a) op \<Rightarrow> 'w \<Rightarrow> ('a \<Rightarrow> db \<Rightarrow> bool) \<Rightarrow> bool" where
  "all_or_nothing view m w P \<longleftrightarrow>
     (case m w of
        (Inr x, w') \<Rightarrow> P x (view w')
      | (Inl e, w') \<Rightarrow> view w' = view w \<or> (\<exists>x. P x (view w')))"

lemma all_or_nothing_Inr: "all_or_nothing view m w P \<Longrightarrow> m w = (Inr x, w') \<Longrightarrow> P x (view w')"
  by (simp add: all_or_nothing_def)

lemma all_or_nothing_cases:
  assumes "all_or_nothing view m w P"
  obtains "view (snd (m w)) = view w" | x where "P x (view (snd (m w)))"
  using assms by (auto simp: all_or_nothing_def split: prod.splits sum.splits)

lemma all_or_nothing_map_error [simp]:
  "all_or_nothing view (op_map_error g m) w P = all_or_nothing view m w P"
  by (auto simp: all_or_nothing_def op_map_error_def split: prod.splits sum.splits)

lemma all_or_nothing_mono:
  "all_or_nothing view m w P \<Longrightarrow> (\<And>x d. P x d \<Longrightarrow> Q x d) \<Longrightarrow> all_or_nothing view m w Q"
  by (fastforce simp: all_or_nothing_def split: prod.splits sum.splits)

lemma transaction_all_or_nothing:
  assumes "\<And>x w1. body (tick w) = (Inr x, w1) \<Longrightarrow> P x (w_db w1)"
  shows "all_or_nothing w_db (transaction E body) w P"
  using assms
  by (auto simp: all_or_nothing_def transaction_def split: prod.splits sum.splits option.splits)

lemma all_or_nothing_invariant:
  assumes "all_or_nothing view m w P" and "I (view w)" and "\<And>x d. P x d \<Longrightarrow> I d"
  shows "I (view (snd (m w)))"
  using assms by (metis all_or_nothing_cases)

text \<open>How the contract passes through the checks before the transaction and the read after it.\<close>

lemma all_or_nothing_fail [simp]: "all_or_nothing view (op_fail e) w P"
  by (simp add: all_or_nothing_def)

lemma all_or_nothing_after_read:
  assumes "view (snd (m w)) = view w"
    and "\<And>x w'. m w = (Inr x, w') \<Longrightarrow> view w' = view w \<Longrightarrow> all_or_nothing view (f x) w' P"
  shows "all_or_nothing view (op_bind m f) w P"
  using assms by (fastforce simp: all_or_nothing_def op_bind_def split: prod.splits sum.splits)

lemma all_or_nothing_before_read:
  assumes "all_or_nothing view m w (\<lambda>_. P)" and "\<And>w. view (snd (r w)) = view w"
  shows "all_or_nothing view (op_bind m (\<lambda>_. r)) w (\<lambda>_. P)"
proof (cases "m w")
  case (Pair o' w')
  have v: "view (snd (r w')) = view w'" by (rule assms(2))
  show ?thesis
    using assms(1) v unfolding all_or_nothing_def op_bind_def Pair
    by (cases o'; cases "r w'"; cases "fst (r w')") auto
qed

lemma all_or_nothing_read:
  "view (snd (m w)) = view w \<Longrightarrow> all_or_nothing view m w (\<lambda>_ d. d = view w)"
  by (auto simp: all_or_nothing_def split: prod.splits sum.splits)

lemma op_bind_reads:
  assumes "\<And>w. view (snd (m w)) = view w" and "\<And>x w. view (snd (f x w)) = view w"
  shows "view (snd (op_bind m f w)) = view w"
proof (cases "m w")
  case (Pair o' w')
  have "view w' = view w" using assms(1) [of w] Pair by simp
  then show ?thesis using assms(2) [of _ w'] Pair by (cases o') (simp_all add: op_bind_def)
qed

section \<open>Tables\<close>

text \<open>
  A table: where its rows are in the database, its primary key, its unique keys
  (\<open>tb_clash x r\<close> when the two rows may not coexist) and the conversion of a row to
  the precision of its columns.
\<close>

record 'r table =
  tb_rows :: "db \<Rightarrow> 'r list"
  tb_update :: "('r list \<Rightarrow> 'r list) \<Rightarrow> db \<Rightarrow> db"
  tb_key :: "'r \<Rightarrow> u64"
  tb_clash :: "'r \<Rightarrow> 'r \<Rightarrow> bool"
  tb_store :: "'r \<Rightarrow> 'r"

definition duplicate_entry :: go_error where
  "duplicate_entry = mysql_error 1062 ''Duplicate entry''"

definition no_auto_increment :: go_error where
  "no_auto_increment = mysql_error 1467 ''Failed to read auto-increment value''"

text \<open>
  INSERT: the generated identifier goes into the row; a clash with the primary key or a
  unique key is error 1062. The caller gets the row it inserted, the table the stored form.
\<close>

definition insert_row ::
  "env \<Rightarrow> 'r table \<Rightarrow> (u64 \<Rightarrow> time \<Rightarrow> 'r) \<Rightarrow> nat \<Rightarrow> db \<Rightarrow> go_error + 'r \<times> db" where
  "insert_row E T mk t d =
     (let rows = tb_rows T d;
          i = env_new_id E t (map (tb_key T) rows);
          r = mk i (env_clock E t)
      in if i = 0 then Inl no_auto_increment
         else if list_ex (\<lambda>x. tb_key T x = i \<or> tb_clash T x r) rows then Inl duplicate_entry
         else Inr (r, tb_update T (\<lambda>rs. rs @ [tb_store T r]) d))"

text \<open>\<open>SELECT ... WHERE p ORDER BY id LIMIT 1\<close>; no row is \<open>ErrRecordNotFound\<close>.\<close>

definition first_row :: "'r table \<Rightarrow> ('r \<Rightarrow> bool) \<Rightarrow> db \<Rightarrow> go_error + 'r" where
  "first_row T p d =
     (case find p (sort_key (tb_key T) (tb_rows T d)) of
        None \<Rightarrow> Inl gorm_ErrRecordNotFound
      | Some r \<Rightarrow> Inr r)"

definition count_rows :: "'r table \<Rightarrow> ('r \<Rightarrow> bool) \<Rightarrow> db \<Rightarrow> int" where
  "count_rows T p d = int (length (filter p (tb_rows T d)))"

text \<open>
  \<open>ORDER BY id DESC LIMIT lim OFFSET off\<close>; the query builder writes an OFFSET clause
  for a positive offset only, and a LIMIT clause for a non-negative limit only.
\<close>

definition page_rows :: "'r table \<Rightarrow> int \<Rightarrow> int \<Rightarrow> db \<Rightarrow> 'r list" where
  "page_rows T off lim d =
     (let sorted = rev (sort_key (tb_key T) (tb_rows T d));
          rest = (if 0 < off then drop (nat off) sorted else sorted)
      in if 0 \<le> lim then take (nat lim) rest else rest)"

text \<open>
  \<open>UPDATE ... SET f WHERE p\<close>: unique keys are checked on the result; the affected rows
  are those whose stored content changed. The first argument of \<open>f\<close> is the time that
  the mapper writes to \<open>updated_at\<close>, in the precision of the column.
\<close>

definition update_rows ::
  "env \<Rightarrow> 'r table \<Rightarrow> ('r \<Rightarrow> bool) \<Rightarrow> (time \<Rightarrow> 'r \<Rightarrow> 'r) \<Rightarrow> nat \<Rightarrow> db \<Rightarrow> go_error + nat \<times> db" where
  "update_rows E T p f t d =
     (let g = (\<lambda>r. if p r then f (env_col3 E (env_clock E t)) r else r);
          rows = tb_rows T d
      in if list_ex (\<lambda>r. p r \<and> list_ex (\<lambda>x. tb_key T x \<noteq> tb_key T r \<and> tb_clash T x (g r)) (map g rows)) rows
         then Inl duplicate_entry
         else Inr (length (filter (\<lambda>r. g r \<noteq> r) rows), tb_update T (map g) d))"

text \<open>The same as statements of the running operation.\<close>

definition tb_create :: "env \<Rightarrow> 'r table \<Rightarrow> (u64 \<Rightarrow> time \<Rightarrow> 'r) \<Rightarrow> (world, 'r) op" where
  "tb_create E T mk = db_stmt E (insert_row E T mk)"

definition tb_first :: "env \<Rightarrow> 'r table \<Rightarrow> ('r \<Rightarrow> bool) \<Rightarrow> (world, 'r) op" where
  "tb_first E T p = db_query E (first_row T p)"

definition tb_count :: "env \<Rightarrow> 'r table \<Rightarrow> ('r \<Rightarrow> bool) \<Rightarrow> (world, int) op" where
  "tb_count E T p = db_query E (\<lambda>d. Inr (count_rows T p d))"

definition tb_page :: "env \<Rightarrow> 'r table \<Rightarrow> int \<Rightarrow> int \<Rightarrow> (world, 'r list) op" where
  "tb_page E T off lim = db_query E (\<lambda>d. Inr (page_rows T off lim d))"

definition tb_update_where ::
  "env \<Rightarrow> 'r table \<Rightarrow> ('r \<Rightarrow> bool) \<Rightarrow> (time \<Rightarrow> 'r \<Rightarrow> 'r) \<Rightarrow> (world, nat) op" where
  "tb_update_where E T p f = db_stmt E (update_rows E T p f)"

lemma tb_reads_db [simp]:
  "w_db (snd (tb_first E T p w)) = w_db w"
  "w_db (snd (tb_count E T p w)) = w_db w"
  "w_db (snd (tb_page E T off lim w)) = w_db w"
  by (simp_all add: tb_first_def tb_count_def tb_page_def db_query_db)

lemma tb_create_Inr:
  "tb_create E T mk w = (Inr r, w') \<longleftrightarrow>
     env_fault E (w_tick w) = None \<and>
     (\<exists>d. insert_row E T mk (w_tick w) (w_db w) = Inr (r, d) \<and> w' = (tick w)\<lparr>w_db := d\<rparr>)"
  by (simp add: tb_create_def db_stmt_Inr)

lemma tb_first_Inr:
  "tb_first E T p w = (Inr r, w') \<longleftrightarrow>
     env_fault E (w_tick w) = None \<and> first_row T p (w_db w) = Inr r \<and> w' = tick w"
  by (simp add: tb_first_def db_query_Inr)

lemma tb_count_Inr:
  "tb_count E T p w = (Inr n, w') \<longleftrightarrow>
     env_fault E (w_tick w) = None \<and> n = count_rows T p (w_db w) \<and> w' = tick w"
  by (auto simp: tb_count_def db_query_Inr)

lemma tb_page_Inr:
  "tb_page E T off lim w = (Inr rs, w') \<longleftrightarrow>
     env_fault E (w_tick w) = None \<and> rs = page_rows T off lim (w_db w) \<and> w' = tick w"
  by (auto simp: tb_page_def db_query_Inr)

lemma tb_update_where_Inr:
  "tb_update_where E T p f w = (Inr n, w') \<longleftrightarrow>
     env_fault E (w_tick w) = None \<and>
     (\<exists>d. update_rows E T p f (w_tick w) (w_db w) = Inr (n, d) \<and> w' = (tick w)\<lparr>w_db := d\<rparr>)"
  by (simp add: tb_update_where_def db_stmt_Inr)

lemmas tb_Inr = tb_create_Inr tb_first_Inr tb_count_Inr tb_page_Inr tb_update_where_Inr

text \<open>
  The listing every repository offers: \<open>(page - 1) * size\<close> is computed in Go's
  64-bit \<open>int\<close>.
\<close>

definition page_offset :: "int \<Rightarrow> int \<Rightarrow> int" where
  "page_offset page sz = wrap64 (wrap64 (page - 1) * sz)"

definition list_page :: "env \<Rightarrow> 'r table \<Rightarrow> int \<Rightarrow> int \<Rightarrow> (world, 'r list \<times> int) op" where
  "list_page E T page sz =
     op_bind (tb_count E T (\<lambda>_. True)) (\<lambda>n.
     op_bind (tb_page E T (page_offset page sz) sz) (\<lambda>items.
     op_return (items, n)))"

lemma list_page_Inr:
  "list_page E T page sz w = (Inr (items, n), w') \<Longrightarrow>
     items = page_rows T (page_offset page sz) sz (w_db w) \<and>
     n = count_rows T (\<lambda>_. True) (w_db w) \<and> w_db w' = w_db w"
  by (auto simp: list_page_def tb_Inr elim!: op_bind_Inr)

lemma list_page_db [simp]: "w_db (snd (list_page E T page sz w)) = w_db w"
  by (auto simp: list_page_def op_bind_def tb_count_def tb_page_def db_query_def db_stmt_def
           split: prod.splits sum.splits option.splits)

section \<open>Laws of a table\<close>

text \<open>
  What every table of the schema satisfies: reading after writing, and that storing a row
  keeps its key. The facts proved from these laws are used by all repositories.
\<close>

locale table_laws =
  fixes T :: "'r table"
  assumes rows_update [simp]: "tb_rows T (tb_update T g d) = g (tb_rows T d)"
    and key_store [simp]: "tb_key T (tb_store T r) = tb_key T r"
begin

lemma insert_row_Inr:
  assumes "insert_row E T mk t d = Inr (r, d')"
  shows "tb_rows T d' = tb_rows T d @ [tb_store T r]"
    and "d' = tb_update T (\<lambda>rs. rs @ [tb_store T r]) d"
    and "\<forall>x\<in>set (tb_rows T d). tb_key T x \<noteq> env_new_id E t (map (tb_key T) (tb_rows T d)) \<and> \<not> tb_clash T x r"
    and "r = mk (env_new_id E t (map (tb_key T) (tb_rows T d))) (env_clock E t)"
    and "env_new_id E t (map (tb_key T) (tb_rows T d)) \<noteq> 0"
  using assms by (auto simp: insert_row_def Let_def list_ex_iff split: if_splits)

lemma insert_row_distinct:
  assumes "insert_row E T mk t d = Inr (r, d')"
    and "distinct (map (tb_key T) (tb_rows T d))"
    and "tb_key T r = env_new_id E t (map (tb_key T) (tb_rows T d))"
  shows "distinct (map (tb_key T) (tb_rows T d'))"
  using assms insert_row_Inr(1,3) [OF assms(1)] by force

lemma update_rows_Inr:
  assumes "update_rows E T p f t d = Inr (n, d')"
  shows "d' = tb_update T (map (\<lambda>r. if p r then f (env_col3 E (env_clock E t)) r else r)) d"
    and "tb_rows T d' = map (\<lambda>r. if p r then f (env_col3 E (env_clock E t)) r else r) (tb_rows T d)"
    and "n = length (filter (\<lambda>r. (if p r then f (env_col3 E (env_clock E t)) r else r) \<noteq> r) (tb_rows T d))"
  using assms by (auto simp: update_rows_def Let_def split: if_splits)

lemma update_rows_some_row:
  assumes "update_rows E T p f t d = Inr (n, d')" and "n \<noteq> 0"
  shows "\<exists>r\<in>set (tb_rows T d). p r"
  using assms(2) update_rows_Inr(3) [OF assms(1)]
  by (auto simp: filter_empty_conv split: if_splits)

lemma update_rows_keys:
  assumes "update_rows E T p f t d = Inr (n, d')" and "\<And>c r. tb_key T (f c r) = tb_key T r"
  shows "map (tb_key T) (tb_rows T d') = map (tb_key T) (tb_rows T d)"
  using assms(2) update_rows_Inr(2) [OF assms(1)] by (simp add: comp_def)

lemma first_row_Inr: "first_row T p d = Inr r \<Longrightarrow> r \<in> set (tb_rows T d) \<and> p r"
  by (auto simp: first_row_def split: option.splits dest!: find_Some_mem)

lemma first_row_Inl:
  "first_row T p d = Inl e \<longleftrightarrow> e = gorm_ErrRecordNotFound \<and> (\<forall>r\<in>set (tb_rows T d). \<not> p r)"
proof (cases "find p (sort_key (tb_key T) (tb_rows T d))")
  case None
  then have "\<forall>r\<in>set (tb_rows T d). \<not> p r" by (simp add: find_None_eq)
  with None show ?thesis by (auto simp: first_row_def)
next
  case (Some r)
  then have "r \<in> set (tb_rows T d) \<and> p r" using find_Some_mem by fastforce
  with Some show ?thesis by (auto simp: first_row_def)
qed

lemma first_row_key:
  assumes "distinct (map (tb_key T) (tb_rows T d))" and "r \<in> set (tb_rows T d)"
  shows "first_row T (\<lambda>x. tb_key T x = tb_key T r) d = Inr r"
proof -
  have "distinct (map (tb_key T) (sort_key (tb_key T) (tb_rows T d)))"
    using assms(1) by (simp add: distinct_map)
  then show ?thesis
    using assms(2) find_key_distinct [of "tb_key T" "sort_key (tb_key T) (tb_rows T d)" r]
    by (simp add: first_row_def)
qed

end

text \<open>A table whose unique key is equality under a function of the row.\<close>

locale keyed_table = table_laws T for T :: "'r table" +
  fixes uk :: "'r \<Rightarrow> 'k"
  assumes clash_uk: "tb_clash T x r \<longleftrightarrow> uk x = uk r"
    and uk_store [simp]: "uk (tb_store T r) = uk r"
begin

lemma insert_row_unique:
  assumes "insert_row E T mk t d = Inr (r, d')" and "unique_by uk (tb_rows T d)"
  shows "unique_by uk (tb_rows T d')"
  using assms insert_row_Inr(1,3) [OF assms(1)] by (auto simp: unique_by_append clash_uk)

lemma insert_row_conflict:
  assumes "x \<in> set (tb_rows T d)"
    and "uk x = uk (mk (env_new_id E t (map (tb_key T) (tb_rows T d))) (env_clock E t))"
    and "env_new_id E t (map (tb_key T) (tb_rows T d)) \<noteq> 0"
  shows "insert_row E T mk t d = Inl duplicate_entry"
  using assms by (auto simp: insert_row_def Let_def list_ex_iff clash_uk)

lemma update_rows_unique:
  assumes upd: "update_rows E T p f t d = Inr (n, d')"
    and keys: "\<And>c r. tb_key T (f c r) = tb_key T r"
    and dist: "distinct (map (tb_key T) (tb_rows T d))"
    and uniq: "unique_by uk (tb_rows T d)"
  shows "unique_by uk (tb_rows T d')"
proof -
  define g where "g = (\<lambda>r. if p r then f (env_col3 E (env_clock E t)) r else r)"
  let ?rs = "tb_rows T d"
  have rows: "tb_rows T d' = map g ?rs"
    using update_rows_Inr(2) [OF upd] by (simp add: g_def)
  have gkey: "tb_key T (g r) = tb_key T r" for r by (simp add: g_def keys)
  have free: "uk (g x) \<noteq> uk (g r)"
    if "r \<in> set ?rs" "p r" "x \<in> set ?rs" "tb_key T x \<noteq> tb_key T r" for r x
    using upd that
    by (auto simp: update_rows_def Let_def list_ex_iff clash_uk keys g_def split: if_splits)
  have "uk (g (?rs ! i)) \<noteq> uk (g (?rs ! j))"
    if ij: "i < length ?rs" "j < length ?rs" "i \<noteq> j" for i j
  proof -
    have k: "tb_key T (?rs ! i) \<noteq> tb_key T (?rs ! j)"
      using dist ij by (simp add: distinct_conv_nth)
    show ?thesis
    proof (cases "p (?rs ! i) \<or> p (?rs ! j)")
      case True
      then show ?thesis
        using free [of "?rs ! i" "?rs ! j"] free [of "?rs ! j" "?rs ! i"] ij k by auto
    next
      case False
      then show ?thesis using uniq ij by (simp add: g_def unique_by_def distinct_conv_nth)
    qed
  qed
  then show ?thesis by (simp add: rows unique_by_def distinct_conv_nth)
qed

text \<open>An update that selects exactly one row, keeps its unique key and changes it.\<close>

lemma update_rows_one:
  assumes uniq: "unique_by uk (tb_rows T d)" and x: "x \<in> set (tb_rows T d)"
    and sel: "\<And>r. r \<in> set (tb_rows T d) \<Longrightarrow> p r \<longleftrightarrow> r = x"
    and keep: "\<And>c. uk (f c x) = uk x" and keyed: "\<And>c r. tb_key T (f c r) = tb_key T r"
    and changed: "f (env_col3 E (env_clock E t)) x \<noteq> x"
  shows "update_rows E T p f t d =
    Inr (1, tb_update T (map (\<lambda>r. if p r then f (env_col3 E (env_clock E t)) r else r)) d)"
proof -
  let ?g = "\<lambda>r. if p r then f (env_col3 E (env_clock E t)) r else r"
  let ?rs = "tb_rows T d"
  have uk: "uk (?g r) = uk r" if "r \<in> set ?rs" for r using sel [OF that] keep by auto
  have one: "filter (\<lambda>r. ?g r \<noteq> r) ?rs = [x]"
  proof -
    have "filter (\<lambda>r. ?g r \<noteq> r) ?rs = filter (\<lambda>r. uk r = uk x) ?rs"
      by (rule filter_cong) (use sel changed x unique_by_eq [OF uniq] in auto)
    then show ?thesis using filter_key_singleton [of uk ?rs x] uniq x by (simp add: unique_by_def)
  qed
  have "\<not> list_ex (\<lambda>r. p r \<and> list_ex (\<lambda>y. tb_key T y \<noteq> tb_key T r \<and> tb_clash T y (?g r)) (map ?g ?rs)) ?rs"
  proof
    assume "list_ex (\<lambda>r. p r \<and> list_ex (\<lambda>y. tb_key T y \<noteq> tb_key T r \<and> tb_clash T y (?g r)) (map ?g ?rs)) ?rs"
    then obtain r y where r: "r \<in> set ?rs" "p r" and y: "y \<in> set ?rs"
      and k: "tb_key T (?g y) \<noteq> tb_key T r" "uk (?g y) = uk (?g r)"
      by (auto simp: list_ex_iff clash_uk)
    have "uk y = uk r" using uk [OF y] uk [OF r(1)] k(2) by metis
    then have "y = r" by (rule unique_by_eq [OF uniq y r(1)])
    then show False using k(1) r(2) keyed by auto
  qed
  then show ?thesis using one by (simp add: update_rows_def Let_def)
qed

end

end
