(* ===== verification/Tables.thy ===== *)
theory Tables
  imports Store
begin

text \<open>
  The tables of the schema with the unique keys of the migrations, and the writing of an
  audit row. Text keys are compared under the collation of the column.
\<close>

section \<open>The tables\<close>

definition col3_opt :: "env \<Rightarrow> time option \<Rightarrow> time option" where
  "col3_opt E = map_option (env_col3 E)"

definition logs_table :: "env \<Rightarrow> Log table" where
  "logs_table E = \<lparr>tb_rows = T_audit_logs, tb_update = T_audit_logs_update, tb_key = Log_ID,
     tb_clash = (\<lambda>x r. False),
     tb_store = (\<lambda>r. r\<lparr>Log_CreatedAt := env_col3 E (Log_CreatedAt r)\<rparr>)\<rparr>"

definition users_table :: "env \<Rightarrow> User table" where
  "users_table E = \<lparr>tb_rows = T_users, tb_update = T_users_update, tb_key = User_ID,
     tb_clash = (\<lambda>x r. env_coll E (User_Username x) = env_coll E (User_Username r)),
     tb_store = (\<lambda>r. r\<lparr>User_LastLoginAt := col3_opt E (User_LastLoginAt r),
        User_CreatedAt := env_col3 E (User_CreatedAt r),
        User_UpdatedAt := env_col3 E (User_UpdatedAt r)\<rparr>)\<rparr>"

definition hosts_table :: "env \<Rightarrow> Host table" where
  "hosts_table E = \<lparr>tb_rows = T_hosts, tb_update = T_hosts_update, tb_key = Host_ID,
     tb_clash = (\<lambda>x r. env_coll E (Host_Name x) = env_coll E (Host_Name r)),
     tb_store = (\<lambda>r. r\<lparr>Host_CreatedAt := env_col3 E (Host_CreatedAt r),
        Host_UpdatedAt := env_col3 E (Host_UpdatedAt r)\<rparr>)\<rparr>"

definition services_table :: "env \<Rightarrow> MonitoredService table" where
  "services_table E = \<lparr>tb_rows = T_services, tb_update = T_services_update, tb_key = Svc_ID,
     tb_clash = (\<lambda>x r. Svc_HostID x = Svc_HostID r \<and>
        env_coll E (Svc_Name x) = env_coll E (Svc_Name r)),
     tb_store = (\<lambda>r. r\<lparr>Svc_CreatedAt := env_col3 E (Svc_CreatedAt r),
        Svc_UpdatedAt := env_col3 E (Svc_UpdatedAt r)\<rparr>)\<rparr>"

definition tasks_table :: "env \<Rightarrow> Task table" where
  "tasks_table E = \<lparr>tb_rows = T_tasks, tb_update = T_tasks_update, tb_key = Task_ID,
     tb_clash = (\<lambda>x r. Task_ServiceID x = Task_ServiceID r \<and>
        env_coll E (Task_Name x) = env_coll E (Task_Name r)),
     tb_store = (\<lambda>r. r\<lparr>Task_NextRunAt := env_col3 E (Task_NextRunAt r),
        Task_LastScheduledAt := col3_opt E (Task_LastScheduledAt r),
        Task_CreatedAt := env_col3 E (Task_CreatedAt r),
        Task_UpdatedAt := env_col3 E (Task_UpdatedAt r)\<rparr>)\<rparr>"

definition results_table :: "env \<Rightarrow> Execution table" where
  "results_table E = \<lparr>tb_rows = T_results, tb_update = T_results_update, tb_key = Exec_ID,
     tb_clash = (\<lambda>x r. env_coll E (Exec_ExecutionID x) = env_coll E (Exec_ExecutionID r)),
     tb_store = (\<lambda>r. r\<lparr>Exec_ScheduledAt := env_col3 E (Exec_ScheduledAt r),
        Exec_StartedAt := col3_opt E (Exec_StartedAt r),
        Exec_FinishedAt := col3_opt E (Exec_FinishedAt r),
        Exec_CreatedAt := env_col3 E (Exec_CreatedAt r),
        Exec_UpdatedAt := env_col3 E (Exec_UpdatedAt r)\<rparr>)\<rparr>"

definition incidents_table :: "env \<Rightarrow> Incident table" where
  "incidents_table E = \<lparr>tb_rows = T_incidents, tb_update = T_incidents_update, tb_key = Inc_ID,
     tb_clash = (\<lambda>x r. env_coll E (Inc_EventKey x) = env_coll E (Inc_EventKey r)),
     tb_store = (\<lambda>r. r\<lparr>Inc_FiredAt := env_col3 E (Inc_FiredAt r),
        Inc_LastSeenAt := env_col3 E (Inc_LastSeenAt r),
        Inc_ResolvedAt := col3_opt E (Inc_ResolvedAt r),
        Inc_ClosedAt := col3_opt E (Inc_ClosedAt r),
        Inc_AcknowledgedAt := col3_opt E (Inc_AcknowledgedAt r),
        Inc_ProcessingAt := col3_opt E (Inc_ProcessingAt r),
        Inc_CreatedAt := env_col3 E (Inc_CreatedAt r),
        Inc_UpdatedAt := env_col3 E (Inc_UpdatedAt r)\<rparr>)\<rparr>"

lemmas table_defs = logs_table_def users_table_def hosts_table_def services_table_def
  tasks_table_def results_table_def incidents_table_def

text \<open>The unique keys of the tables that have one, under the collation.\<close>

definition host_uk :: "(string \<Rightarrow> string) \<Rightarrow> Host \<Rightarrow> string" where
  "host_uk C h = C (Host_Name h)"

definition service_uk :: "(string \<Rightarrow> string) \<Rightarrow> MonitoredService \<Rightarrow> u64 \<times> string" where
  "service_uk C s = (Svc_HostID s, C (Svc_Name s))"

definition task_uk :: "(string \<Rightarrow> string) \<Rightarrow> Task \<Rightarrow> u64 \<times> string" where
  "task_uk C t = (Task_ServiceID t, C (Task_Name t))"

definition execution_uk :: "(string \<Rightarrow> string) \<Rightarrow> Execution \<Rightarrow> string" where
  "execution_uk C x = C (Exec_ExecutionID x)"

definition incident_uk :: "(string \<Rightarrow> string) \<Rightarrow> Incident \<Rightarrow> string" where
  "incident_uk C x = C (Inc_EventKey x)"

definition user_uk :: "(string \<Rightarrow> string) \<Rightarrow> User \<Rightarrow> string" where
  "user_uk C u = C (User_Username u)"

lemmas uk_defs = host_uk_def service_uk_def task_uk_def execution_uk_def incident_uk_def user_uk_def

interpretation logs: table_laws "logs_table E" for E
  by unfold_locales (simp_all add: logs_table_def)
interpretation users: keyed_table "users_table E" "user_uk (env_coll E)" for E
  by unfold_locales (simp_all add: users_table_def user_uk_def)
interpretation hosts: keyed_table "hosts_table E" "host_uk (env_coll E)" for E
  by unfold_locales (simp_all add: hosts_table_def host_uk_def)
interpretation services: keyed_table "services_table E" "service_uk (env_coll E)" for E
  by unfold_locales (simp_all add: services_table_def service_uk_def)
interpretation tasks: keyed_table "tasks_table E" "task_uk (env_coll E)" for E
  by unfold_locales (simp_all add: tasks_table_def task_uk_def)
interpretation results: keyed_table "results_table E" "execution_uk (env_coll E)" for E
  by unfold_locales (simp_all add: results_table_def execution_uk_def)
interpretation incidents: keyed_table "incidents_table E" "incident_uk (env_coll E)" for E
  by unfold_locales (simp_all add: incidents_table_def incident_uk_def)

lemma table_rows_update [simp]:
  "tb_rows (logs_table E) = T_audit_logs" "\<And>g. tb_update (logs_table E) g d = d\<lparr>T_audit_logs := g (T_audit_logs d)\<rparr>"
  "tb_rows (users_table E) = T_users" "\<And>g. tb_update (users_table E) g d = d\<lparr>T_users := g (T_users d)\<rparr>"
  "tb_rows (hosts_table E) = T_hosts" "\<And>g. tb_update (hosts_table E) g d = d\<lparr>T_hosts := g (T_hosts d)\<rparr>"
  "tb_rows (services_table E) = T_services" "\<And>g. tb_update (services_table E) g d = d\<lparr>T_services := g (T_services d)\<rparr>"
  "tb_rows (tasks_table E) = T_tasks" "\<And>g. tb_update (tasks_table E) g d = d\<lparr>T_tasks := g (T_tasks d)\<rparr>"
  "tb_rows (results_table E) = T_results" "\<And>g. tb_update (results_table E) g d = d\<lparr>T_results := g (T_results d)\<rparr>"
  "tb_rows (incidents_table E) = T_incidents" "\<And>g. tb_update (incidents_table E) g d = d\<lparr>T_incidents := g (T_incidents d)\<rparr>"
  by (simp_all add: table_defs; cases d; simp)+

lemma table_key [simp]:
  "tb_key (logs_table E) = Log_ID" "tb_key (users_table E) = User_ID"
  "tb_key (hosts_table E) = Host_ID" "tb_key (services_table E) = Svc_ID"
  "tb_key (tasks_table E) = Task_ID" "tb_key (results_table E) = Exec_ID"
  "tb_key (incidents_table E) = Inc_ID"
  by (simp_all add: table_defs)

section \<open>Audit rows\<close>

text \<open>\<open>tx.Create(&entry)\<close> for an \<open>audit.Log\<close>.\<close>

definition create_log :: "env \<Rightarrow> Log \<Rightarrow> (world, Log) op" where
  "create_log E entry =
     tb_create E (logs_table E) (\<lambda>i now. entry\<lparr>Log_ID := i, Log_CreatedAt := now\<rparr>)"

text \<open>
  Two audit entries that agree in everything but the columns the database generates.
\<close>

definition same_entry :: "Log \<Rightarrow> Log \<Rightarrow> bool" where
  "same_entry a b \<longleftrightarrow> a\<lparr>Log_ID := 0, Log_CreatedAt := 0\<rparr> = b\<lparr>Log_ID := 0, Log_CreatedAt := 0\<rparr>"

lemma same_entry_refl [simp]: "same_entry a a"
  by (simp add: same_entry_def)

lemma same_entry_generated [simp]:
  "same_entry (a\<lparr>Log_ID := i, Log_CreatedAt := t\<rparr>) b \<longleftrightarrow> same_entry a b"
  by (simp add: same_entry_def)

lemma create_log_Inr:
  assumes "create_log E entry w = (Inr r, w')"
  shows "\<exists>a. same_entry a entry \<and> w_db w' = (w_db w)\<lparr>T_audit_logs := T_audit_logs (w_db w) @ [a]\<rparr>"
proof -
  obtain d where ins: "insert_row E (logs_table E)
      (\<lambda>i now. entry\<lparr>Log_ID := i, Log_CreatedAt := now\<rparr>) (w_tick w) (w_db w) = Inr (r, d)"
    and w': "w' = (tick w)\<lparr>w_db := d\<rparr>"
    using assms by (auto simp: create_log_def tb_Inr)
  have "d = (w_db w)\<lparr>T_audit_logs := T_audit_logs (w_db w) @ [tb_store (logs_table E) r]\<rparr>"
    using logs.insert_row_Inr(2) [OF ins] by simp
  moreover have "same_entry (tb_store (logs_table E) r) entry"
    using logs.insert_row_Inr(4) [OF ins] by (simp add: logs_table_def same_entry_def)
  ultimately show ?thesis using w' by auto
qed

section \<open>The two audited transactions\<close>

text \<open>
  Every repository that changes a resource does so in a transaction of one of two shapes:
  insert a row and its audit entry, or rewrite rows, require that one was affected, and
  insert the audit entry.
\<close>

lemma audited_create:
  assumes "op_bind (tb_create E T mk) (\<lambda>r. op_bind (create_log E (g r)) (\<lambda>_. op_return r)) w
    = (Inr r, w')"
  shows "\<exists>d a. insert_row E T mk (w_tick w) (w_db w) = Inr (r, d) \<and> same_entry a (g r) \<and>
    w_db w' = d\<lparr>T_audit_logs := T_audit_logs d @ [a]\<rparr>"
  using assms by (auto simp: tb_Inr elim!: op_bind_Inr dest!: create_log_Inr) blast

lemma audited_update:
  assumes "op_bind (tb_update_where E T p f) (\<lambda>n.
      op_bind (op_when_fail (n = 0) e) (\<lambda>_.
      op_bind (create_log E entry) (\<lambda>_. op_return ()))) w = (Inr u, w')"
  shows "\<exists>n d a. n \<noteq> 0 \<and> update_rows E T p f (w_tick w) (w_db w) = Inr (n, d) \<and>
    same_entry a entry \<and> w_db w' = d\<lparr>T_audit_logs := T_audit_logs d @ [a]\<rparr>"
  using assms by (auto simp: tb_Inr elim!: op_bind_Inr dest!: create_log_Inr) blast

text \<open>
  The effect of the first shape: the row, with the generated columns written by
  \<open>stamp\<close>, is added under a fresh identifier and a free unique key, together with its
  audit entry, and nothing else changes.
\<close>

definition row_inserted ::
  "'r table \<Rightarrow> ('r \<Rightarrow> 'k) \<Rightarrow> (u64 \<Rightarrow> time \<Rightarrow> 'r \<Rightarrow> 'r) \<Rightarrow> 'r \<Rightarrow> (u64 \<Rightarrow> Log) \<Rightarrow> db \<Rightarrow> 'r \<Rightarrow> db \<Rightarrow> bool" where
  "row_inserted T uk stamp r lg d r' d' \<longleftrightarrow>
     (\<exists>i c a. i \<noteq> 0 \<and> i \<notin> tb_key T ` set (tb_rows T d) \<and> uk r \<notin> uk ` set (tb_rows T d) \<and>
        same_entry a (lg i) \<and> r' = stamp i c r \<and>
        d' = (tb_update T (\<lambda>rs. rs @ [tb_store T r']) d)\<lparr>T_audit_logs := T_audit_logs d @ [a]\<rparr>)"

text \<open>The effect of the second shape: the row with the identifier is rewritten by \<open>f\<close>.\<close>

definition row_written ::
  "'r table \<Rightarrow> ('r \<Rightarrow> 'k) \<Rightarrow> (time \<Rightarrow> 'r \<Rightarrow> 'r) \<Rightarrow> u64 \<Rightarrow> ('r \<Rightarrow> 'r) \<Rightarrow> Log \<Rightarrow> db \<Rightarrow> db \<Rightarrow> bool" where
  "row_written T uk touch i f l d d' \<longleftrightarrow>
     (\<exists>u a. i \<in> tb_key T ` set (tb_rows T d) \<and> same_entry a l \<and>
        d' = (tb_update T (map (\<lambda>r. if tb_key T r = i then touch u (f r) else r)) d)
               \<lparr>T_audit_logs := T_audit_logs d @ [a]\<rparr>) \<and>
     (distinct (map (tb_key T) (tb_rows T d)) \<longrightarrow> unique_by uk (tb_rows T d) \<longrightarrow>
        unique_by uk (tb_rows T d'))"

locale audited_table = keyed_table T uk for T :: "'r table" and uk :: "'r \<Rightarrow> 'k" +
  fixes stamp :: "u64 \<Rightarrow> time \<Rightarrow> 'r \<Rightarrow> 'r" and touch :: "time \<Rightarrow> 'r \<Rightarrow> 'r"
  assumes key_stamp [simp]: "tb_key T (stamp i c r) = i"
    and uk_stamp [simp]: "uk (stamp i c r) = uk r"
    and key_touch [simp]: "tb_key T (touch c r) = tb_key T r"
    and audit_update [simp]: "T_audit_logs (tb_update T g d) = T_audit_logs d"
    and rows_audit [simp]: "tb_rows T (d\<lparr>T_audit_logs := ls\<rparr>) = tb_rows T d"
begin

lemma create_effect:
  assumes "\<And>i c. lg i = g (stamp i c r)"
  shows "all_or_nothing w_db (transaction E (
      op_bind (tb_create E T (\<lambda>i now. stamp i now r)) (\<lambda>r'.
      op_bind (create_log E (g r')) (\<lambda>_. op_return r')))) w (row_inserted T uk stamp r lg (w_db w))"
proof (rule transaction_all_or_nothing)
  fix r' w1
  assume "op_bind (tb_create E T (\<lambda>i now. stamp i now r)) (\<lambda>r'.
      op_bind (create_log E (g r')) (\<lambda>_. op_return r')) (tick w) = (Inr r', w1)"
  from audited_create [OF this] obtain d a where
    ins: "insert_row E T (\<lambda>i now. stamp i now r) (Suc (w_tick w)) (w_db w) = Inr (r', d)"
    and a: "same_entry a (g r')" and w1: "w_db w1 = d\<lparr>T_audit_logs := T_audit_logs d @ [a]\<rparr>" by auto
  define i where "i = env_new_id E (Suc (w_tick w)) (map (tb_key T) (tb_rows T (w_db w)))"
  note row = insert_row_Inr [OF ins, folded i_def]
  have "i \<notin> tb_key T ` set (tb_rows T (w_db w))" and "uk r \<notin> uk ` set (tb_rows T (w_db w))"
    using row(3,4) by (auto simp: clash_uk)
  moreover have "w_db w1 = (tb_update T (\<lambda>rs. rs @ [tb_store T r']) (w_db w))
      \<lparr>T_audit_logs := T_audit_logs (w_db w) @ [a]\<rparr>"
    using w1 row(2) by simp
  moreover have "same_entry a (lg i)" using a row(4) assms by simp
  ultimately show "row_inserted T uk stamp r lg (w_db w) r' (w_db w1)"
    unfolding row_inserted_def using row(4,5) by blast
qed

lemma update_effect:
  assumes "\<And>r. tb_key T (f r) = tb_key T r"
  shows "all_or_nothing w_db (transaction E (
      op_bind (tb_update_where E T (\<lambda>r. tb_key T r = i) (\<lambda>now r. touch now (f r))) (\<lambda>affected.
      op_bind (op_when_fail (affected = 0) e) (\<lambda>_.
      op_bind (create_log E l) (\<lambda>_. op_return ()))))) w (\<lambda>_. row_written T uk touch i f l (w_db w))"
proof (rule transaction_all_or_nothing)
  fix x w1
  assume "op_bind (tb_update_where E T (\<lambda>r. tb_key T r = i) (\<lambda>now r. touch now (f r))) (\<lambda>affected.
      op_bind (op_when_fail (affected = 0) e) (\<lambda>_.
      op_bind (create_log E l) (\<lambda>_. op_return ()))) (tick w) = (Inr x, w1)"
  from audited_update [OF this] obtain n d a where n: "n \<noteq> 0"
    and upd: "update_rows E T (\<lambda>r. tb_key T r = i) (\<lambda>now r. touch now (f r)) (Suc (w_tick w)) (w_db w)
      = Inr (n, d)"
    and a: "same_entry a l" and w1: "w_db w1 = d\<lparr>T_audit_logs := T_audit_logs d @ [a]\<rparr>" by auto
  have "i \<in> tb_key T ` set (tb_rows T (w_db w))"
    using update_rows_some_row [OF upd n] by auto
  moreover have "distinct (map (tb_key T) (tb_rows T (w_db w))) \<longrightarrow>
      unique_by uk (tb_rows T (w_db w)) \<longrightarrow> unique_by uk (tb_rows T (w_db w1))"
    using update_rows_unique [OF upd] assms w1 by simp
  moreover have "w_db w1 = (tb_update T
        (map (\<lambda>r. if tb_key T r = i then touch (env_col3 E (env_clock E (Suc (w_tick w)))) (f r) else r)) (w_db w))
      \<lparr>T_audit_logs := T_audit_logs (w_db w) @ [a]\<rparr>"
    using w1 update_rows_Inr(1) [OF upd] by simp
  ultimately show "row_written T uk touch i f l (w_db w) (w_db w1)"
    unfolding row_written_def using a by blast
qed

end

definition host_stamp :: "u64 \<Rightarrow> time \<Rightarrow> Host \<Rightarrow> Host" where
  "host_stamp i c h = h\<lparr>Host_ID := i, Host_CreatedAt := c, Host_UpdatedAt := c\<rparr>"

definition service_stamp :: "u64 \<Rightarrow> time \<Rightarrow> MonitoredService \<Rightarrow> MonitoredService" where
  "service_stamp i c s = s\<lparr>Svc_ID := i, Svc_CreatedAt := c, Svc_UpdatedAt := c\<rparr>"

definition task_stamp :: "u64 \<Rightarrow> time \<Rightarrow> Task \<Rightarrow> Task" where
  "task_stamp i c t = t\<lparr>Task_ID := i, Task_CreatedAt := c, Task_UpdatedAt := c\<rparr>"

definition host_touch :: "time \<Rightarrow> Host \<Rightarrow> Host" where
  "host_touch u h = h\<lparr>Host_UpdatedAt := u\<rparr>"

definition service_touch :: "time \<Rightarrow> MonitoredService \<Rightarrow> MonitoredService" where
  "service_touch u s = s\<lparr>Svc_UpdatedAt := u\<rparr>"

definition task_touch :: "time \<Rightarrow> Task \<Rightarrow> Task" where
  "task_touch u t = t\<lparr>Task_UpdatedAt := u\<rparr>"

lemmas stamp_defs = host_stamp_def service_stamp_def task_stamp_def
  host_touch_def service_touch_def task_touch_def

interpretation hosts: audited_table "hosts_table E" "host_uk (env_coll E)" host_stamp host_touch for E
  by unfold_locales (simp_all add: stamp_defs uk_defs)
interpretation services: audited_table "services_table E" "service_uk (env_coll E)" service_stamp service_touch for E
  by unfold_locales (simp_all add: stamp_defs uk_defs)
interpretation tasks: audited_table "tasks_table E" "task_uk (env_coll E)" task_stamp task_touch for E
  by unfold_locales (simp_all add: stamp_defs uk_defs)

end
