(* ===== verification/AssetRepository.thy ===== *)
theory AssetRepository
  imports Tables
begin

text \<open>
  \<open>internal/asset/repository.go\<close>: the \<open>Store\<close> interface of the asset service and
  its MySQL implementation. An operation that fills in its argument (\<open>*Host\<close>) returns
  the filled-in value. The effect of each writing operation on the database is stated as a
  relation between the database before and after.
\<close>

section \<open>The Store interface\<close>

record 'w asset_store =
  st_CreateHost :: "Host \<Rightarrow> Log \<Rightarrow> ('w, Host) op"
  st_GetHost :: "u64 \<Rightarrow> ('w, Host) op"
  st_ListHosts :: "int \<Rightarrow> int \<Rightarrow> ('w, Host list \<times> int) op"
  st_UpdateHost :: "Host \<Rightarrow> Log \<Rightarrow> ('w, unit) op"
  st_DisableHost :: "u64 \<Rightarrow> u64 \<Rightarrow> Log \<Rightarrow> ('w, unit) op"
  st_CountActiveServices :: "u64 \<Rightarrow> ('w, int) op"
  st_CreateService :: "MonitoredService \<Rightarrow> Log \<Rightarrow> ('w, MonitoredService) op"
  st_GetService :: "u64 \<Rightarrow> ('w, MonitoredService) op"
  st_ListServices :: "int \<Rightarrow> int \<Rightarrow> ('w, MonitoredService list \<times> int) op"
  st_UpdateService :: "MonitoredService \<Rightarrow> Log \<Rightarrow> ('w, unit) op"
  st_DisableService :: "u64 \<Rightarrow> u64 \<Rightarrow> Log \<Rightarrow> ('w, unit) op"
  st_CountActiveProbeTasks :: "u64 \<Rightarrow> ('w, int) op"

section \<open>The repository\<close>

definition asset_translate :: "go_error \<Rightarrow> go_error" where
  "asset_translate err =
     (if foreign_is fx_record_not_found err then Sentinel AssetErrNotFound
      else if foreign_is (\<lambda>f. fx_mysql f = Some 1062) err then Sentinel AssetErrConflict
      else err)"

definition AssetRepo_CreateHost :: "env \<Rightarrow> Host \<Rightarrow> Log \<Rightarrow> (world, Host) op" where
  "AssetRepo_CreateHost E host entry =
     op_map_error asset_translate (transaction E (
       op_bind (tb_create E (hosts_table E)
         (\<lambda>i now. host\<lparr>Host_ID := i, Host_CreatedAt := now, Host_UpdatedAt := now\<rparr>)) (\<lambda>host.
       op_bind (create_log E (entry\<lparr>Log_ResourceID := Some (FormatUint (Host_ID host))\<rparr>)) (\<lambda>_.
       op_return host))))"

definition AssetRepo_GetHost :: "env \<Rightarrow> u64 \<Rightarrow> (world, Host) op" where
  "AssetRepo_GetHost E i =
     op_map_error asset_translate (tb_first E (hosts_table E) (\<lambda>h. Host_ID h = i))"

definition AssetRepo_ListHosts :: "env \<Rightarrow> int \<Rightarrow> int \<Rightarrow> (world, Host list \<times> int) op" where
  "AssetRepo_ListHosts E page sz = list_page E (hosts_table E) page sz"

definition AssetRepo_UpdateHost :: "env \<Rightarrow> Host \<Rightarrow> Log \<Rightarrow> (world, unit) op" where
  "AssetRepo_UpdateHost E host entry =
     op_map_error asset_translate (transaction E (
       op_bind (tb_update_where E (hosts_table E) (\<lambda>h. Host_ID h = Host_ID host)
         (\<lambda>now h. h\<lparr>Host_Name := Host_Name host, Host_Address := Host_Address host,
            Host_Description := Host_Description host, Host_UpdatedBy := Host_UpdatedBy host,
            Host_UpdatedAt := now\<rparr>)) (\<lambda>affected.
       op_bind (op_when_fail (affected = 0) (Sentinel AssetErrNotFound)) (\<lambda>_.
       op_bind (create_log E entry) (\<lambda>_.
       op_return ())))))"

text \<open>\<open>transition\<close>, for the rows of either model: disables the row of an identifier.\<close>

definition AssetRepo_transition ::
  "env \<Rightarrow> 'r table \<Rightarrow> (time \<Rightarrow> 'r \<Rightarrow> 'r) \<Rightarrow> u64 \<Rightarrow> Log \<Rightarrow> (world, unit) op" where
  "AssetRepo_transition E T disabled i entry =
     op_map_error asset_translate (transaction E (
       op_bind (tb_update_where E T (\<lambda>r. tb_key T r = i) disabled) (\<lambda>affected.
       op_bind (op_when_fail (affected = 0) (Sentinel AssetErrNotFound)) (\<lambda>_.
       op_bind (create_log E entry) (\<lambda>_.
       op_return ())))))"

definition AssetRepo_DisableHost :: "env \<Rightarrow> u64 \<Rightarrow> u64 \<Rightarrow> Log \<Rightarrow> (world, unit) op" where
  "AssetRepo_DisableHost E i actor entry =
     AssetRepo_transition E (hosts_table E) (\<lambda>now h. h\<lparr>Host_Status := StatusDisabled,
       Host_UpdatedBy := actor, Host_UpdatedAt := now\<rparr>) i entry"

definition AssetRepo_CountActiveServices :: "env \<Rightarrow> u64 \<Rightarrow> (world, int) op" where
  "AssetRepo_CountActiveServices E hostID =
     tb_count E (services_table E) (\<lambda>s. Svc_HostID s = hostID \<and> Svc_Status s = StatusActive)"

definition AssetRepo_CreateService ::
  "env \<Rightarrow> MonitoredService \<Rightarrow> Log \<Rightarrow> (world, MonitoredService) op" where
  "AssetRepo_CreateService E service entry =
     op_map_error asset_translate (transaction E (
       op_bind (tb_create E (services_table E)
         (\<lambda>i now. service\<lparr>Svc_ID := i, Svc_CreatedAt := now, Svc_UpdatedAt := now\<rparr>)) (\<lambda>service.
       op_bind (create_log E (entry\<lparr>Log_ResourceID := Some (FormatUint (Svc_ID service))\<rparr>)) (\<lambda>_.
       op_return service))))"

definition AssetRepo_GetService :: "env \<Rightarrow> u64 \<Rightarrow> (world, MonitoredService) op" where
  "AssetRepo_GetService E i =
     op_map_error asset_translate (tb_first E (services_table E) (\<lambda>s. Svc_ID s = i))"

definition AssetRepo_ListServices ::
  "env \<Rightarrow> int \<Rightarrow> int \<Rightarrow> (world, MonitoredService list \<times> int) op" where
  "AssetRepo_ListServices E page sz = list_page E (services_table E) page sz"

definition AssetRepo_UpdateService :: "env \<Rightarrow> MonitoredService \<Rightarrow> Log \<Rightarrow> (world, unit) op" where
  "AssetRepo_UpdateService E service entry =
     op_map_error asset_translate (transaction E (
       op_bind (tb_update_where E (services_table E) (\<lambda>s. Svc_ID s = Svc_ID service)
         (\<lambda>now s. s\<lparr>Svc_HostID := Svc_HostID service, Svc_Name := Svc_Name service,
            Svc_Type := Svc_Type service, Svc_Target := Svc_Target service,
            Svc_Description := Svc_Description service, Svc_UpdatedBy := Svc_UpdatedBy service,
            Svc_UpdatedAt := now\<rparr>)) (\<lambda>affected.
       op_bind (op_when_fail (affected = 0) (Sentinel AssetErrNotFound)) (\<lambda>_.
       op_bind (create_log E entry) (\<lambda>_.
       op_return ())))))"

definition AssetRepo_DisableService :: "env \<Rightarrow> u64 \<Rightarrow> u64 \<Rightarrow> Log \<Rightarrow> (world, unit) op" where
  "AssetRepo_DisableService E i actor entry =
     AssetRepo_transition E (services_table E) (\<lambda>now s. s\<lparr>Svc_Status := StatusDisabled,
       Svc_UpdatedBy := actor, Svc_UpdatedAt := now\<rparr>) i entry"

definition AssetRepo_CountActiveProbeTasks :: "env \<Rightarrow> u64 \<Rightarrow> (world, int) op" where
  "AssetRepo_CountActiveProbeTasks E serviceID =
     tb_count E (tasks_table E) (\<lambda>t. Task_ServiceID t = serviceID \<and> Task_Status t = StatusActive)"

definition asset_repository :: "env \<Rightarrow> world asset_store" where
  "asset_repository E = \<lparr>
     st_CreateHost = AssetRepo_CreateHost E, st_GetHost = AssetRepo_GetHost E,
     st_ListHosts = AssetRepo_ListHosts E, st_UpdateHost = AssetRepo_UpdateHost E,
     st_DisableHost = AssetRepo_DisableHost E,
     st_CountActiveServices = AssetRepo_CountActiveServices E,
     st_CreateService = AssetRepo_CreateService E, st_GetService = AssetRepo_GetService E,
     st_ListServices = AssetRepo_ListServices E, st_UpdateService = AssetRepo_UpdateService E,
     st_DisableService = AssetRepo_DisableService E,
     st_CountActiveProbeTasks = AssetRepo_CountActiveProbeTasks E\<rparr>"

section \<open>What a writing operation does to the database\<close>

text \<open>
  One row is added, with a fresh identifier and a free name, together with its audit entry;
  nothing else changes. The caller's value and the row agree but for the precision of the
  two times.
\<close>

definition host_inserted ::
  "(string \<Rightarrow> string) \<Rightarrow> Host \<Rightarrow> Log \<Rightarrow> db \<Rightarrow> Host \<Rightarrow> db \<Rightarrow> bool" where
  "host_inserted C h l d h' d' \<longleftrightarrow>
     (\<exists>i c c' a. i \<noteq> 0 \<and> i \<notin> Host_ID ` set (T_hosts d) \<and>
        host_uk C h \<notin> host_uk C ` set (T_hosts d) \<and>
        same_entry a (l\<lparr>Log_ResourceID := Some (FormatUint i)\<rparr>) \<and> h' = host_stamp i c h \<and>
        d' = d\<lparr>T_hosts := T_hosts d @ [host_stamp i c' h], T_audit_logs := T_audit_logs d @ [a]\<rparr>)"

definition service_inserted ::
  "(string \<Rightarrow> string) \<Rightarrow> MonitoredService \<Rightarrow> Log \<Rightarrow> db \<Rightarrow> MonitoredService \<Rightarrow> db \<Rightarrow> bool" where
  "service_inserted C s l d s' d' \<longleftrightarrow>
     (\<exists>i c c' a. i \<noteq> 0 \<and> i \<notin> Svc_ID ` set (T_services d) \<and>
        service_uk C s \<notin> service_uk C ` set (T_services d) \<and>
        same_entry a (l\<lparr>Log_ResourceID := Some (FormatUint i)\<rparr>) \<and> s' = service_stamp i c s \<and>
        d' = d\<lparr>T_services := T_services d @ [service_stamp i c' s], T_audit_logs := T_audit_logs d @ [a]\<rparr>)"

text \<open>
  The row with the identifier is rewritten, together with the audit entry; unique names
  stay unique.
\<close>

definition host_written ::
  "(string \<Rightarrow> string) \<Rightarrow> u64 \<Rightarrow> (Host \<Rightarrow> Host) \<Rightarrow> Log \<Rightarrow> db \<Rightarrow> db \<Rightarrow> bool" where
  "host_written C i f l d d' \<longleftrightarrow>
     (\<exists>u a. i \<in> Host_ID ` set (T_hosts d) \<and> same_entry a l \<and>
        d' = d\<lparr>T_hosts := map (\<lambda>h. if Host_ID h = i then host_touch u (f h) else h) (T_hosts d),
               T_audit_logs := T_audit_logs d @ [a]\<rparr>) \<and>
     (distinct (map Host_ID (T_hosts d)) \<longrightarrow> unique_by (host_uk C) (T_hosts d) \<longrightarrow>
        unique_by (host_uk C) (T_hosts d'))"

definition service_written ::
  "(string \<Rightarrow> string) \<Rightarrow> u64 \<Rightarrow> (MonitoredService \<Rightarrow> MonitoredService) \<Rightarrow> Log \<Rightarrow> db \<Rightarrow> db \<Rightarrow> bool" where
  "service_written C i f l d d' \<longleftrightarrow>
     (\<exists>u a. i \<in> Svc_ID ` set (T_services d) \<and> same_entry a l \<and>
        d' = d\<lparr>T_services := map (\<lambda>s. if Svc_ID s = i then service_touch u (f s) else s) (T_services d),
               T_audit_logs := T_audit_logs d @ [a]\<rparr>) \<and>
     (distinct (map Svc_ID (T_services d)) \<longrightarrow> unique_by (service_uk C) (T_services d) \<longrightarrow>
        unique_by (service_uk C) (T_services d'))"

definition host_columns :: "Host \<Rightarrow> Host \<Rightarrow> Host" where
  "host_columns host h = h\<lparr>Host_Name := Host_Name host, Host_Address := Host_Address host,
     Host_Description := Host_Description host, Host_UpdatedBy := Host_UpdatedBy host\<rparr>"

definition host_disabled :: "u64 \<Rightarrow> Host \<Rightarrow> Host" where
  "host_disabled actor h = h\<lparr>Host_Status := StatusDisabled, Host_UpdatedBy := actor\<rparr>"

definition service_columns :: "MonitoredService \<Rightarrow> MonitoredService \<Rightarrow> MonitoredService" where
  "service_columns service s = s\<lparr>Svc_HostID := Svc_HostID service, Svc_Name := Svc_Name service,
     Svc_Type := Svc_Type service, Svc_Target := Svc_Target service,
     Svc_Description := Svc_Description service, Svc_UpdatedBy := Svc_UpdatedBy service\<rparr>"

definition service_disabled :: "u64 \<Rightarrow> MonitoredService \<Rightarrow> MonitoredService" where
  "service_disabled actor s = s\<lparr>Svc_Status := StatusDisabled, Svc_UpdatedBy := actor\<rparr>"

lemmas asset_column_defs = host_columns_def host_disabled_def service_columns_def service_disabled_def

section \<open>Each writing operation has its effect or none\<close>

lemma row_inserted_host:
  assumes "row_inserted (hosts_table E) (host_uk (env_coll E)) host_stamp h
    (\<lambda>i. l\<lparr>Log_ResourceID := Some (FormatUint i)\<rparr>) d r' d'"
  shows "host_inserted (env_coll E) h l d r' d'"
proof -
  obtain i c a where row: "i \<noteq> 0" "i \<notin> tb_key (hosts_table E) ` set (tb_rows (hosts_table E) d)"
    "host_uk (env_coll E) h \<notin> host_uk (env_coll E) ` set (tb_rows (hosts_table E) d)"
    "same_entry a (l\<lparr>Log_ResourceID := Some (FormatUint i)\<rparr>)" "r' = host_stamp i c h"
    "d' = (tb_update (hosts_table E) (\<lambda>rs. rs @ [tb_store (hosts_table E) r']) d)
       \<lparr>T_audit_logs := T_audit_logs d @ [a]\<rparr>"
    using assms unfolding row_inserted_def by blast
  have "tb_store (hosts_table E) (host_stamp i c h) = host_stamp i (env_col3 E c) h"
    by (simp add: hosts_table_def host_stamp_def)
  with row show ?thesis
    unfolding host_inserted_def
    by (intro exI [of _ i] exI [of _ c] exI [of _ "env_col3 E c"] exI [of _ a]) simp
qed

lemma row_inserted_service:
  assumes "row_inserted (services_table E) (service_uk (env_coll E)) service_stamp s
    (\<lambda>i. l\<lparr>Log_ResourceID := Some (FormatUint i)\<rparr>) d r' d'"
  shows "service_inserted (env_coll E) s l d r' d'"
proof -
  obtain i c a where row: "i \<noteq> 0" "i \<notin> tb_key (services_table E) ` set (tb_rows (services_table E) d)"
    "service_uk (env_coll E) s \<notin> service_uk (env_coll E) ` set (tb_rows (services_table E) d)"
    "same_entry a (l\<lparr>Log_ResourceID := Some (FormatUint i)\<rparr>)" "r' = service_stamp i c s"
    "d' = (tb_update (services_table E) (\<lambda>rs. rs @ [tb_store (services_table E) r']) d)
       \<lparr>T_audit_logs := T_audit_logs d @ [a]\<rparr>"
    using assms unfolding row_inserted_def by blast
  have "tb_store (services_table E) (service_stamp i c s) = service_stamp i (env_col3 E c) s"
    by (simp add: services_table_def service_stamp_def)
  with row show ?thesis
    unfolding service_inserted_def
    by (intro exI [of _ i] exI [of _ c] exI [of _ "env_col3 E c"] exI [of _ a]) simp
qed

lemma row_written_host:
  "row_written (hosts_table E) (host_uk (env_coll E)) host_touch i f l d d' \<Longrightarrow>
     host_written (env_coll E) i f l d d'"
  by (simp add: row_written_def host_written_def)

lemma row_written_service:
  "row_written (services_table E) (service_uk (env_coll E)) service_touch i f l d d' \<Longrightarrow>
     service_written (env_coll E) i f l d d'"
  by (simp add: row_written_def service_written_def)

lemma AssetRepo_CreateHost_effect:
  "all_or_nothing w_db (AssetRepo_CreateHost E h l) w (host_inserted (env_coll E) h l (w_db w))"
  by (rule all_or_nothing_mono [OF _ row_inserted_host])
     (use hosts.create_effect [where E = E and r = h and lg = "\<lambda>i. l\<lparr>Log_ResourceID := Some (FormatUint i)\<rparr>" and g = "\<lambda>h. l\<lparr>Log_ResourceID := Some (FormatUint (Host_ID h))\<rparr>"]
      in \<open>simp add: AssetRepo_CreateHost_def host_stamp_def\<close>)

lemma AssetRepo_CreateService_effect:
  "all_or_nothing w_db (AssetRepo_CreateService E s l) w (service_inserted (env_coll E) s l (w_db w))"
  by (rule all_or_nothing_mono [OF _ row_inserted_service])
     (use services.create_effect [where E = E and r = s and lg = "\<lambda>i. l\<lparr>Log_ResourceID := Some (FormatUint i)\<rparr>" and g = "\<lambda>s. l\<lparr>Log_ResourceID := Some (FormatUint (Svc_ID s))\<rparr>"]
      in \<open>simp add: AssetRepo_CreateService_def service_stamp_def\<close>)

lemma AssetRepo_UpdateHost_effect:
  "all_or_nothing w_db (AssetRepo_UpdateHost E h l) w
     (\<lambda>_. host_written (env_coll E) (Host_ID h) (host_columns h) l (w_db w))"
  by (rule all_or_nothing_mono [OF _ row_written_host])
     (use hosts.update_effect [where E = E and f = "host_columns h"]
      in \<open>simp add: AssetRepo_UpdateHost_def host_columns_def host_touch_def\<close>)

lemma AssetRepo_DisableHost_effect:
  "all_or_nothing w_db (AssetRepo_DisableHost E i actor l) w
     (\<lambda>_. host_written (env_coll E) i (host_disabled actor) l (w_db w))"
  by (rule all_or_nothing_mono [OF _ row_written_host])
     (use hosts.update_effect [where E = E and f = "host_disabled actor"]
      in \<open>simp add: AssetRepo_DisableHost_def AssetRepo_transition_def host_disabled_def host_touch_def\<close>)

lemma AssetRepo_UpdateService_effect:
  "all_or_nothing w_db (AssetRepo_UpdateService E s l) w
     (\<lambda>_. service_written (env_coll E) (Svc_ID s) (service_columns s) l (w_db w))"
  by (rule all_or_nothing_mono [OF _ row_written_service])
     (use services.update_effect [where E = E and f = "service_columns s"]
      in \<open>simp add: AssetRepo_UpdateService_def service_columns_def service_touch_def\<close>)

lemma AssetRepo_DisableService_effect:
  "all_or_nothing w_db (AssetRepo_DisableService E i actor l) w
     (\<lambda>_. service_written (env_coll E) i (service_disabled actor) l (w_db w))"
  by (rule all_or_nothing_mono [OF _ row_written_service])
     (use services.update_effect [where E = E and f = "service_disabled actor"]
      in \<open>simp add: AssetRepo_DisableService_def AssetRepo_transition_def service_disabled_def service_touch_def\<close>)

end
