(* ===== verification/ProbeRepository.thy ===== *)
theory ProbeRepository
  imports Tables
begin

text \<open>
  \<open>internal/probe/repository.go\<close>: tasks and executions in MySQL. Scheduling reads the due
  tasks with a locking join and, in the same transaction, inserts one queued execution per
  task and advances the task; acquiring and finishing an execution are conditional updates.
\<close>

section \<open>Messages and work\<close>

record ExecutionMessage =
  Msg_ExecutionID :: string
  Msg_TaskID :: u64
  Msg_ScheduledAt :: time

record ExecutionWork =
  Work_Execution :: Execution
  Work_Task :: Task

record Result =
  Res_Success :: bool
  Res_HTTPStatusCode :: int
  Res_ErrorCode :: string
  Res_ErrorMessage :: string

record dueRow =
  due_Task :: Task
  due_ServiceType :: string
  due_Target :: string

section \<open>Tasks\<close>

definition probe_translate :: "go_error \<Rightarrow> go_error" where
  "probe_translate err =
     (if foreign_is fx_record_not_found err then Sentinel ProbeErrNotFound
      else if foreign_is (\<lambda>f. fx_mysql f = Some 1062) err then Sentinel ProbeErrConflict
      else err)"

definition ProbeRepo_GetService :: "env \<Rightarrow> u64 \<Rightarrow> (world, MonitoredService) op" where
  "ProbeRepo_GetService E i =
     op_map_error probe_translate (tb_first E (services_table E) (\<lambda>s. Svc_ID s = i))"

definition ProbeRepo_CreateTask :: "env \<Rightarrow> Task \<Rightarrow> Log \<Rightarrow> (world, Task) op" where
  "ProbeRepo_CreateTask E task entry =
     op_map_error probe_translate (transaction E (
       op_bind (tb_create E (tasks_table E)
         (\<lambda>i now. task\<lparr>Task_ID := i, Task_CreatedAt := now, Task_UpdatedAt := now\<rparr>)) (\<lambda>task.
       op_bind (create_log E (entry\<lparr>Log_ResourceID := Some (FormatUint (Task_ID task))\<rparr>)) (\<lambda>_.
       op_return task))))"

definition ProbeRepo_GetTask :: "env \<Rightarrow> u64 \<Rightarrow> (world, Task) op" where
  "ProbeRepo_GetTask E i =
     op_map_error probe_translate (tb_first E (tasks_table E) (\<lambda>t. Task_ID t = i))"

definition ProbeRepo_ListTasks :: "env \<Rightarrow> int \<Rightarrow> int \<Rightarrow> (world, Task list \<times> int) op" where
  "ProbeRepo_ListTasks E page sz = list_page E (tasks_table E) page sz"

definition ProbeRepo_UpdateTask :: "env \<Rightarrow> Task \<Rightarrow> Log \<Rightarrow> (world, unit) op" where
  "ProbeRepo_UpdateTask E task entry =
     op_map_error probe_translate (transaction E (
       op_bind (tb_update_where E (tasks_table E) (\<lambda>t. Task_ID t = Task_ID task)
         (\<lambda>now t. t\<lparr>Task_ServiceID := Task_ServiceID task, Task_Name := Task_Name task,
            Task_IntervalSeconds := Task_IntervalSeconds task,
            Task_TimeoutMilliseconds := Task_TimeoutMilliseconds task,
            Task_MaxRetries := Task_MaxRetries task,
            Task_RetryBaseDelayMilliseconds := Task_RetryBaseDelayMilliseconds task,
            Task_UpdatedBy := Task_UpdatedBy task, Task_UpdatedAt := now\<rparr>)) (\<lambda>affected.
       op_bind (op_when_fail (affected = 0) (Sentinel ProbeErrNotFound)) (\<lambda>_.
       op_bind (create_log E entry) (\<lambda>_.
       op_return ())))))"

definition ProbeRepo_DisableTask :: "env \<Rightarrow> u64 \<Rightarrow> u64 \<Rightarrow> Log \<Rightarrow> (world, unit) op" where
  "ProbeRepo_DisableTask E i actor entry =
     op_map_error probe_translate (transaction E (
       op_bind (tb_update_where E (tasks_table E) (\<lambda>t. Task_ID t = i)
         (\<lambda>now t. t\<lparr>Task_Status := TaskDisabled, Task_UpdatedBy := actor,
            Task_UpdatedAt := now\<rparr>)) (\<lambda>affected.
       op_bind (op_when_fail (affected = 0) (Sentinel ProbeErrNotFound)) (\<lambda>_.
       op_bind (create_log E entry) (\<lambda>_.
       op_return ())))))"

text \<open>The effect of the writing operations on tasks, as for hosts and services.\<close>

definition task_inserted ::
  "(string \<Rightarrow> string) \<Rightarrow> Task \<Rightarrow> Log \<Rightarrow> db \<Rightarrow> Task \<Rightarrow> db \<Rightarrow> bool" where
  "task_inserted C t l d t' d' \<longleftrightarrow>
     (\<exists>i c c' nx la a. i \<noteq> 0 \<and> i \<notin> Task_ID ` set (T_tasks d) \<and>
        task_uk C t \<notin> task_uk C ` set (T_tasks d) \<and>
        same_entry a (l\<lparr>Log_ResourceID := Some (FormatUint i)\<rparr>) \<and> t' = task_stamp i c t \<and>
        d' = d\<lparr>T_tasks := T_tasks d @
                 [(task_stamp i c' t)\<lparr>Task_NextRunAt := nx, Task_LastScheduledAt := la\<rparr>],
               T_audit_logs := T_audit_logs d @ [a]\<rparr>)"

definition task_written ::
  "(string \<Rightarrow> string) \<Rightarrow> u64 \<Rightarrow> (Task \<Rightarrow> Task) \<Rightarrow> Log \<Rightarrow> db \<Rightarrow> db \<Rightarrow> bool" where
  "task_written C i f l d d' \<longleftrightarrow>
     (\<exists>u a. i \<in> Task_ID ` set (T_tasks d) \<and> same_entry a l \<and>
        d' = d\<lparr>T_tasks := map (\<lambda>t. if Task_ID t = i then task_touch u (f t) else t) (T_tasks d),
               T_audit_logs := T_audit_logs d @ [a]\<rparr>) \<and>
     (distinct (map Task_ID (T_tasks d)) \<longrightarrow> unique_by (task_uk C) (T_tasks d) \<longrightarrow>
        unique_by (task_uk C) (T_tasks d'))"

definition task_columns :: "Task \<Rightarrow> Task \<Rightarrow> Task" where
  "task_columns task t = t\<lparr>Task_ServiceID := Task_ServiceID task, Task_Name := Task_Name task,
     Task_IntervalSeconds := Task_IntervalSeconds task,
     Task_TimeoutMilliseconds := Task_TimeoutMilliseconds task,
     Task_MaxRetries := Task_MaxRetries task,
     Task_RetryBaseDelayMilliseconds := Task_RetryBaseDelayMilliseconds task,
     Task_UpdatedBy := Task_UpdatedBy task\<rparr>"

definition task_disabled :: "u64 \<Rightarrow> Task \<Rightarrow> Task" where
  "task_disabled actor t = t\<lparr>Task_Status := TaskDisabled, Task_UpdatedBy := actor\<rparr>"

lemma row_inserted_task:
  assumes "row_inserted (tasks_table E) (task_uk (env_coll E)) task_stamp t
    (\<lambda>i. l\<lparr>Log_ResourceID := Some (FormatUint i)\<rparr>) d r' d'"
  shows "task_inserted (env_coll E) t l d r' d'"
proof -
  obtain i c a where row: "i \<noteq> 0" "i \<notin> tb_key (tasks_table E) ` set (tb_rows (tasks_table E) d)"
    "task_uk (env_coll E) t \<notin> task_uk (env_coll E) ` set (tb_rows (tasks_table E) d)"
    "same_entry a (l\<lparr>Log_ResourceID := Some (FormatUint i)\<rparr>)" "r' = task_stamp i c t"
    "d' = (tb_update (tasks_table E) (\<lambda>rs. rs @ [tb_store (tasks_table E) r']) d)
       \<lparr>T_audit_logs := T_audit_logs d @ [a]\<rparr>"
    using assms unfolding row_inserted_def by blast
  have "tb_store (tasks_table E) (task_stamp i c t) = (task_stamp i (env_col3 E c) t)
      \<lparr>Task_NextRunAt := env_col3 E (Task_NextRunAt t),
        Task_LastScheduledAt := col3_opt E (Task_LastScheduledAt t)\<rparr>"
    by (simp add: tasks_table_def task_stamp_def)
  with row show ?thesis
    unfolding task_inserted_def
    by (intro exI [of _ i] exI [of _ c] exI [of _ "env_col3 E c"]
          exI [of _ "env_col3 E (Task_NextRunAt t)"]
          exI [of _ "col3_opt E (Task_LastScheduledAt t)"] exI [of _ a]) simp
qed

lemma row_written_task:
  "row_written (tasks_table E) (task_uk (env_coll E)) task_touch i f l d d' \<Longrightarrow>
     task_written (env_coll E) i f l d d'"
  by (simp add: row_written_def task_written_def)

lemma ProbeRepo_CreateTask_effect:
  "all_or_nothing w_db (ProbeRepo_CreateTask E t l) w (task_inserted (env_coll E) t l (w_db w))"
  by (rule all_or_nothing_mono [OF _ row_inserted_task])
     (use tasks.create_effect [where E = E and r = t and
        lg = "\<lambda>i. l\<lparr>Log_ResourceID := Some (FormatUint i)\<rparr>" and
        g = "\<lambda>t. l\<lparr>Log_ResourceID := Some (FormatUint (Task_ID t))\<rparr>"]
      in \<open>simp add: ProbeRepo_CreateTask_def task_stamp_def\<close>)

lemma ProbeRepo_UpdateTask_effect:
  "all_or_nothing w_db (ProbeRepo_UpdateTask E t l) w
     (\<lambda>_. task_written (env_coll E) (Task_ID t) (task_columns t) l (w_db w))"
  by (rule all_or_nothing_mono [OF _ row_written_task])
     (use tasks.update_effect [where E = E and f = "task_columns t"]
      in \<open>simp add: ProbeRepo_UpdateTask_def task_columns_def task_touch_def\<close>)

lemma ProbeRepo_DisableTask_effect:
  "all_or_nothing w_db (ProbeRepo_DisableTask E i actor l) w
     (\<lambda>_. task_written (env_coll E) i (task_disabled actor) l (w_db w))"
  by (rule all_or_nothing_mono [OF _ row_written_task])
     (use tasks.update_effect [where E = E and f = "task_disabled actor"]
      in \<open>simp add: ProbeRepo_DisableTask_def task_disabled_def task_touch_def\<close>)

section \<open>Executions\<close>

definition ProbeRepo_ListExecutions :: "env \<Rightarrow> int \<Rightarrow> int \<Rightarrow> (world, Execution list \<times> int) op" where
  "ProbeRepo_ListExecutions E page sz = list_page E (results_table E) page sz"

definition ProbeRepo_GetExecutionByID :: "env \<Rightarrow> u64 \<Rightarrow> (world, Execution) op" where
  "ProbeRepo_GetExecutionByID E i =
     op_map_error probe_translate (tb_first E (results_table E) (\<lambda>x. Exec_ID x = i))"

text \<open>Text columns are compared under their collation.\<close>

definition has_execution_id :: "env \<Rightarrow> string \<Rightarrow> Execution \<Rightarrow> bool" where
  "has_execution_id E i x \<longleftrightarrow> env_coll E (Exec_ExecutionID x) = env_coll E i"

definition held_by :: "env \<Rightarrow> string \<Rightarrow> Execution \<Rightarrow> bool" where
  "held_by E consumer x \<longleftrightarrow>
     (case Exec_WorkerConsumer x of None \<Rightarrow> False | Some c \<Rightarrow> env_coll E c = env_coll E consumer)"

definition ProbeRepo_GetWork :: "env \<Rightarrow> string \<Rightarrow> (world, ExecutionWork) op" where
  "ProbeRepo_GetWork E executionID =
     op_bind (op_map_error probe_translate
       (tb_first E (results_table E) (has_execution_id E executionID))) (\<lambda>execution.
     op_bind (op_map_error probe_translate
       (tb_first E (tasks_table E) (\<lambda>t. Task_ID t = Exec_TaskID execution))) (\<lambda>task.
     op_return \<lparr>Work_Execution = execution, Work_Task = task\<rparr>))"

definition executionID :: "env \<Rightarrow> (world, string) op" where
  "executionID E = op_bind (rand_read E 16) (\<lambda>buffer. op_return (hex_encode buffer))"

definition limit_rows :: "int \<Rightarrow> 'r list \<Rightarrow> 'r list" where
  "limit_rows n rs = (if 0 \<le> n then take (nat n) rs else rs)"

text \<open>
  The locking query of \<open>ScheduleDue\<close>: the active, due tasks joined with their active
  service, in the order of the source, without the rows locked by others.
\<close>

definition due_rows :: "env \<Rightarrow> int \<Rightarrow> time \<Rightarrow> nat \<Rightarrow> db \<Rightarrow> dueRow list" where
  "due_rows E batch now t d =
     (let joined = concat (map (\<lambda>pt. map (\<lambda>s.
              \<lparr>due_Task = pt, due_ServiceType = Svc_Type s, due_Target = Svc_Target s\<rparr>)
            (filter (\<lambda>s. Svc_ID s = Task_ServiceID pt \<and> Svc_Status s = StatusActive) (T_services d)))
          (filter (\<lambda>pt. Task_Status pt = TaskActive \<and> Task_NextRunAt pt \<le> now) (T_tasks d)));
          ordered = sort_key (\<lambda>r. Task_NextRunAt (due_Task r))
                      (sort_key (\<lambda>r. Task_ID (due_Task r)) joined)
      in limit_rows batch (filter (\<lambda>r. \<not> env_locked E t (Task_ID (due_Task r))) ordered))"

definition new_execution :: "string \<Rightarrow> dueRow \<Rightarrow> Execution" where
  "new_execution i row = \<lparr>Exec_ID = 0, Exec_ExecutionID = i, Exec_TaskID = Task_ID (due_Task row),
     Exec_ServiceID = Task_ServiceID (due_Task row), Exec_ProbeType = due_ServiceType row,
     Exec_TargetSnapshot = due_Target row, Exec_ScheduledAt = Task_NextRunAt (due_Task row),
     Exec_StartedAt = None, Exec_FinishedAt = None, Exec_DurationMilliseconds = None,
     Exec_Status = ExecutionQueued, Exec_Success = None, Exec_AttemptCount = 0,
     Exec_HTTPStatusCode = None, Exec_ErrorCode = None, Exec_ErrorMessage = None,
     Exec_WorkerConsumer = None, Exec_CreatedAt = 0, Exec_UpdatedAt = 0\<rparr>"

definition next_run :: "time \<Rightarrow> Task \<Rightarrow> time" where
  "next_run now t = now + wrap64 (Task_IntervalSeconds t * second)"

text \<open>One round of the loop over the due rows.\<close>

definition schedule_row :: "env \<Rightarrow> time \<Rightarrow> dueRow \<Rightarrow> (world, ExecutionMessage) op" where
  "schedule_row E now row =
     op_bind (executionID E) (\<lambda>i.
     op_bind (tb_create E (results_table E)
       (\<lambda>k c. (new_execution i row)\<lparr>Exec_ID := k, Exec_CreatedAt := c, Exec_UpdatedAt := c\<rparr>)) (\<lambda>_.
     op_bind (tb_update_where E (tasks_table E) (\<lambda>t. Task_ID t = Task_ID (due_Task row))
       (\<lambda>u t. t\<lparr>Task_LastScheduledAt := Some (env_col3 E (Task_NextRunAt (due_Task row))),
          Task_NextRunAt := env_col3 E (next_run now (due_Task row)), Task_UpdatedAt := u\<rparr>)) (\<lambda>_.
     op_return \<lparr>Msg_ExecutionID = i, Msg_TaskID = Task_ID (due_Task row),
        Msg_ScheduledAt = Task_NextRunAt (due_Task row)\<rparr>)))"

fun schedule_rows :: "env \<Rightarrow> time \<Rightarrow> dueRow list \<Rightarrow> (world, ExecutionMessage list) op" where
  "schedule_rows E now [] = op_return []"
| "schedule_rows E now (row # rows) =
     op_bind (schedule_row E now row) (\<lambda>m.
     op_bind (schedule_rows E now rows) (\<lambda>ms.
     op_return (m # ms)))"

definition ProbeRepo_ScheduleDue :: "env \<Rightarrow> int \<Rightarrow> time \<Rightarrow> (world, ExecutionMessage list) op" where
  "ProbeRepo_ScheduleDue E batch now =
     transaction E (
       op_bind (db_stmt E (\<lambda>t d. Inr (due_rows E batch now t d, d))) (\<lambda>rows.
       schedule_rows E now rows))"

definition message_of :: "Execution \<Rightarrow> ExecutionMessage" where
  "message_of row = \<lparr>Msg_ExecutionID = Exec_ExecutionID row, Msg_TaskID = Exec_TaskID row,
     Msg_ScheduledAt = Exec_ScheduledAt row\<rparr>"

definition ProbeRepo_QueuedBefore :: "env \<Rightarrow> time \<Rightarrow> int \<Rightarrow> (world, ExecutionMessage list) op" where
  "ProbeRepo_QueuedBefore E before n =
     op_bind (db_query E (\<lambda>d. Inr (limit_rows n (sort_key Exec_ScheduledAt
       (filter (\<lambda>x. Exec_Status x = ExecutionQueued \<and> Exec_ScheduledAt x < before) (T_results d))))))
     (\<lambda>rows. op_return (map message_of rows))"

definition acquirable :: "env \<Rightarrow> string \<Rightarrow> time \<Rightarrow> Execution \<Rightarrow> bool" where
  "acquirable E i staleBefore x \<longleftrightarrow>
     has_execution_id E i x \<and>
     (Exec_Status x = ExecutionQueued \<or>
      (Exec_Status x = ExecutionRunning \<and> Exec_UpdatedAt x < staleBefore))"

definition ProbeRepo_Acquire :: "env \<Rightarrow> string \<Rightarrow> string \<Rightarrow> time \<Rightarrow> time \<Rightarrow> (world, bool) op" where
  "ProbeRepo_Acquire E i consumer started staleBefore =
     op_bind (transaction E (tb_update_where E (results_table E) (acquirable E i staleBefore)
       (\<lambda>now x. x\<lparr>Exec_Status := ExecutionRunning, Exec_StartedAt := Some (env_col3 E started),
          Exec_WorkerConsumer := Some consumer, Exec_UpdatedAt := now\<rparr>))) (\<lambda>affected.
     op_return (affected = 1))"

definition nullableString :: "string \<Rightarrow> string option" where
  "nullableString v = (if v = [] then None else Some v)"

definition nullableInt :: "int \<Rightarrow> int option" where
  "nullableInt v = (if v = 0 then None else Some v)"

definition truncate_bytes :: "string \<Rightarrow> nat \<Rightarrow> string" where
  "truncate_bytes v n = (if length v > n then take n v else v)"

definition finished_row :: "env \<Rightarrow> time \<Rightarrow> int \<Rightarrow> Result \<Rightarrow> int \<Rightarrow> time \<Rightarrow> Execution \<Rightarrow> Execution" where
  "finished_row E finished duration result attempts now x = x\<lparr>
     Exec_Status := (if Res_Success result then ExecutionSuccess else ExecutionFailed),
     Exec_Success := Some (Res_Success result),
     Exec_FinishedAt := Some (env_col3 E finished),
     Exec_DurationMilliseconds := Some duration,
     Exec_AttemptCount := attempts,
     Exec_HTTPStatusCode := nullableInt (Res_HTTPStatusCode result),
     Exec_ErrorCode := nullableString (Res_ErrorCode result),
     Exec_ErrorMessage := nullableString (truncate_bytes (Res_ErrorMessage result) 1024),
     Exec_UpdatedAt := now\<rparr>"

definition finishable :: "env \<Rightarrow> string \<Rightarrow> string \<Rightarrow> Execution \<Rightarrow> bool" where
  "finishable E i consumer x \<longleftrightarrow>
     has_execution_id E i x \<and> Exec_Status x = ExecutionRunning \<and> held_by E consumer x"

definition ProbeRepo_MarkFinal ::
  "env \<Rightarrow> string \<Rightarrow> string \<Rightarrow> time \<Rightarrow> int \<Rightarrow> Result \<Rightarrow> int \<Rightarrow> (world, unit) op" where
  "ProbeRepo_MarkFinal E i consumer finished duration result attempts =
     op_bind (transaction E (tb_update_where E (results_table E) (finishable E i consumer)
       (finished_row E finished duration result attempts))) (\<lambda>affected.
     op_when_fail (affected \<noteq> 1) (Sentinel ProbeErrConflict))"

end
