(* ===== verification/FleetInvariant.thy ===== *)
theory FleetInvariant
  imports AssetValidation AssetRepository ProbeRepository
begin

text \<open>
  The well-formedness of the monitored fleet: hosts, services and probe tasks. Identifiers
  and names are unique, every row passed validation, and the three levels support each
  other: an active task runs on an active service of an active host. Here are the invariant
  and its preservation by each effect of the repositories; the services of the program
  establish the side conditions.
\<close>

definition name_ok :: "string \<Rightarrow> bool" where
  "name_ok n \<longleftrightarrow> trimmed n \<and> n \<noteq> [] \<and> length n \<le> 100"

definition host_ok :: "Host \<Rightarrow> bool" where
  "host_ok h \<longleftrightarrow> name_ok (Host_Name h) \<and> validateHostAddress (Host_Address h) = None \<and>
     Host_Status h \<in> set [StatusActive, StatusDisabled]"

definition service_ok :: "golib \<Rightarrow> MonitoredService \<Rightarrow> bool" where
  "service_ok L s \<longleftrightarrow> name_ok (Svc_Name s) \<and> validateTarget L (Svc_Type s) (Svc_Target s) = None \<and>
     Svc_Status s \<in> set [StatusActive, StatusDisabled]"

definition task_limits :: "Task \<Rightarrow> bool" where
  "task_limits t \<longleftrightarrow>
     10 \<le> Task_IntervalSeconds t \<and> Task_IntervalSeconds t \<le> 86400 \<and>
     100 \<le> Task_TimeoutMilliseconds t \<and> Task_TimeoutMilliseconds t \<le> 60000 \<and>
     0 \<le> Task_MaxRetries t \<and> Task_MaxRetries t \<le> 5 \<and>
     100 \<le> Task_RetryBaseDelayMilliseconds t \<and> Task_RetryBaseDelayMilliseconds t \<le> 30000"

definition task_ok :: "Task \<Rightarrow> bool" where
  "task_ok t \<longleftrightarrow> name_ok (Task_Name t) \<and> task_limits t \<and>
     Task_Status t \<in> set [TaskActive, TaskDisabled]"

definition services_supported :: "db \<Rightarrow> bool" where
  "services_supported d \<longleftrightarrow>
     (\<forall>s\<in>set (T_services d). \<exists>h\<in>set (T_hosts d). Host_ID h = Svc_HostID s \<and>
        (Svc_Status s = StatusActive \<longrightarrow> Host_Status h = StatusActive))"

definition tasks_supported :: "db \<Rightarrow> bool" where
  "tasks_supported d \<longleftrightarrow>
     (\<forall>t\<in>set (T_tasks d). \<exists>s\<in>set (T_services d). Svc_ID s = Task_ServiceID t \<and>
        (Task_Status t = TaskActive \<longrightarrow> Svc_Status s = StatusActive))"

definition keys_unique :: "(string \<Rightarrow> string) \<Rightarrow> db \<Rightarrow> bool" where
  "keys_unique C d \<longleftrightarrow>
     distinct (map Host_ID (T_hosts d)) \<and> unique_by (host_uk C) (T_hosts d) \<and>
     distinct (map Svc_ID (T_services d)) \<and> unique_by (service_uk C) (T_services d) \<and>
     distinct (map Task_ID (T_tasks d)) \<and> unique_by (task_uk C) (T_tasks d)"

definition rows_ok :: "golib \<Rightarrow> db \<Rightarrow> bool" where
  "rows_ok L d \<longleftrightarrow> (\<forall>h\<in>set (T_hosts d). host_ok h) \<and> (\<forall>s\<in>set (T_services d). service_ok L s) \<and>
     (\<forall>t\<in>set (T_tasks d). task_ok t)"

definition fleet_inv :: "(string \<Rightarrow> string) \<Rightarrow> golib \<Rightarrow> db \<Rightarrow> bool" where
  "fleet_inv C L d \<longleftrightarrow>
     keys_unique C d \<and> rows_ok L d \<and> services_supported d \<and> tasks_supported d"

lemma fleet_inv_empty: "fleet_inv C L empty_db"
  by (simp add: fleet_inv_def keys_unique_def rows_ok_def services_supported_def
      tasks_supported_def empty_db_def unique_by_def)

lemma fleet_invI:
  "keys_unique C d \<Longrightarrow> rows_ok L d \<Longrightarrow> services_supported d \<Longrightarrow> tasks_supported d \<Longrightarrow> fleet_inv C L d"
  by (simp add: fleet_inv_def)

text \<open>The chain of support, from a task down to its host.\<close>

lemma fleet_inv_chain:
  assumes "fleet_inv C L d" and "t \<in> set (T_tasks d)" and "Task_Status t = TaskActive"
  shows "\<exists>s\<in>set (T_services d). Svc_ID s = Task_ServiceID t \<and> Svc_Status s = StatusActive \<and>
    (\<exists>h\<in>set (T_hosts d). Host_ID h = Svc_HostID s \<and> Host_Status h = StatusActive)"
  using assms by (fastforce simp: fleet_inv_def services_supported_def tasks_supported_def)

section \<open>Rewriting rows\<close>

text \<open>Facts about a table in which the row with one identifier is rewritten.\<close>

lemma map_at_key_keys:
  "(\<And>r. k (g r) = k r) \<Longrightarrow> map k (map (\<lambda>r. if k r = i then g r else r) rs) = map k rs"
  by simp

lemma map_at_key_all:
  "(\<And>r. r \<in> set rs \<Longrightarrow> k r = i \<Longrightarrow> P r \<Longrightarrow> P (g r)) \<Longrightarrow> \<forall>r\<in>set rs. P r \<Longrightarrow>
   \<forall>r\<in>set (map (\<lambda>r. if k r = i then g r else r) rs). P r"
  by auto

section \<open>Preservation by the effects on hosts\<close>

lemma fleet_host_inserted:
  assumes inv: "fleet_inv C L d" and ok: "host_ok h" and eff: "host_inserted C h l d h' d'"
  shows "fleet_inv C L d'"
proof -
  obtain i c where fresh: "i \<notin> Host_ID ` set (T_hosts d)"
    and free: "host_uk C h \<notin> host_uk C ` set (T_hosts d)"
    and hosts: "T_hosts d' = T_hosts d @ [host_stamp i c h]"
    and rest: "T_services d' = T_services d" "T_tasks d' = T_tasks d"
    using eff unfolding host_inserted_def by auto
  have "host_ok (host_stamp i c h)" using ok by (simp add: host_ok_def host_stamp_def)
  moreover have "\<forall>x\<in>set (T_hosts d). host_uk C x \<noteq> host_uk C (host_stamp i c h)"
    using free by (auto simp: host_uk_def host_stamp_def image_iff)
  moreover have "Host_ID (host_stamp i c h) \<notin> Host_ID ` set (T_hosts d)"
    using fresh by (simp add: host_stamp_def)
  ultimately show ?thesis
    using inv unfolding fleet_inv_def keys_unique_def rows_ok_def services_supported_def tasks_supported_def
    by (auto simp: hosts rest unique_by_append)
qed

lemma fleet_host_written:
  assumes inv: "fleet_inv C L d" and eff: "host_written C i f l d d'"
    and key: "\<And>h. Host_ID (f h) = Host_ID h"
    and ok: "\<And>h. h \<in> set (T_hosts d) \<Longrightarrow> Host_ID h = i \<Longrightarrow> host_ok h \<Longrightarrow> host_ok (f h)"
    and status: "(\<forall>h. Host_Status (f h) = Host_Status h) \<or>
      (\<forall>s\<in>set (T_services d). Svc_HostID s = i \<longrightarrow> Svc_Status s \<noteq> StatusActive)"
  shows "fleet_inv C L d'"
proof -
  obtain u a where d': "d' = d\<lparr>T_hosts :=
        map (\<lambda>h. if Host_ID h = i then host_touch u (f h) else h) (T_hosts d),
        T_audit_logs := T_audit_logs d @ [a]\<rparr>"
    using eff unfolding host_written_def by blast
  have hosts: "T_hosts d' =
        map (\<lambda>h. if Host_ID h = i then host_touch u (f h) else h) (T_hosts d)"
    and rest: "T_services d' = T_services d" "T_tasks d' = T_tasks d"
    by (simp_all add: d')
  have uniq: "unique_by (host_uk C) (T_hosts d')" if "keys_unique C d"
    using eff that by (simp add: host_written_def keys_unique_def)
  let ?g = "\<lambda>h. if Host_ID h = i then host_touch u (f h) else h"
  have "map Host_ID (T_hosts d') = map Host_ID (T_hosts d)"
    unfolding hosts by (rule map_at_key_keys) (simp add: key host_touch_def)
  then have keys: "keys_unique C d'"
    using inv uniq unfolding fleet_inv_def keys_unique_def rest by auto
  have "host_ok (host_touch u h)" if "host_ok h" for h
    using that by (simp add: host_ok_def host_touch_def)
  then have "\<forall>h\<in>set (T_hosts d'). host_ok h"
    unfolding hosts using inv ok by (auto simp: fleet_inv_def rows_ok_def)
  moreover have "services_supported d'"
    unfolding services_supported_def rest
  proof
    fix s assume s: "s \<in> set (T_services d)"
    then obtain h where h: "h \<in> set (T_hosts d)" "Host_ID h = Svc_HostID s"
      "Svc_Status s = StatusActive \<longrightarrow> Host_Status h = StatusActive"
      using inv by (auto simp: fleet_inv_def services_supported_def)
    have "?g h \<in> set (T_hosts d')" using h(1) by (auto simp: hosts)
    moreover have "Host_ID (?g h) = Svc_HostID s" using h(2) by (simp add: key host_touch_def)
    moreover have "Svc_Status s = StatusActive \<longrightarrow> Host_Status (?g h) = StatusActive"
      using h status s by (auto simp: host_touch_def)
    ultimately show "\<exists>h\<in>set (T_hosts d'). Host_ID h = Svc_HostID s \<and>
        (Svc_Status s = StatusActive \<longrightarrow> Host_Status h = StatusActive)" by blast
  qed
  ultimately show ?thesis
    using inv keys by (auto simp: fleet_inv_def rows_ok_def tasks_supported_def rest)
qed

section \<open>Preservation by the effects on services\<close>

lemma fleet_service_inserted:
  assumes inv: "fleet_inv C L d" and ok: "service_ok L s" and eff: "service_inserted C s l d s' d'"
    and host: "\<exists>h\<in>set (T_hosts d). Host_ID h = Svc_HostID s \<and> Host_Status h = StatusActive"
  shows "fleet_inv C L d'"
proof -
  obtain i c where fresh: "i \<notin> Svc_ID ` set (T_services d)"
    and free: "service_uk C s \<notin> service_uk C ` set (T_services d)"
    and services: "T_services d' = T_services d @ [service_stamp i c s]"
    and rest: "T_hosts d' = T_hosts d" "T_tasks d' = T_tasks d"
    using eff unfolding service_inserted_def by auto
  have "service_ok L (service_stamp i c s)" using ok by (simp add: service_ok_def service_stamp_def)
  moreover have "\<forall>x\<in>set (T_services d). service_uk C x \<noteq> service_uk C (service_stamp i c s)"
    using free by (auto simp: service_uk_def service_stamp_def image_iff)
  moreover have "Svc_ID (service_stamp i c s) \<notin> Svc_ID ` set (T_services d)"
    using fresh by (simp add: service_stamp_def)
  moreover have "\<exists>h\<in>set (T_hosts d). Host_ID h = Svc_HostID (service_stamp i c s) \<and> Host_Status h = StatusActive"
    using host by (simp add: service_stamp_def)
  ultimately show ?thesis
    using inv unfolding fleet_inv_def keys_unique_def rows_ok_def services_supported_def tasks_supported_def
    by (auto simp: services rest unique_by_append)
qed

lemma fleet_service_written:
  assumes inv: "fleet_inv C L d" and eff: "service_written C i f l d d'"
    and key: "\<And>s. Svc_ID (f s) = Svc_ID s"
    and ok: "\<And>s. s \<in> set (T_services d) \<Longrightarrow> Svc_ID s = i \<Longrightarrow> service_ok L s \<Longrightarrow> service_ok L (f s)"
    and status: "(\<forall>s. Svc_Status (f s) = Svc_Status s) \<or>
      (\<forall>t\<in>set (T_tasks d). Task_ServiceID t = i \<longrightarrow> Task_Status t \<noteq> TaskActive)"
    and host: "\<And>s. s \<in> set (T_services d) \<Longrightarrow> Svc_ID s = i \<Longrightarrow>
      \<exists>h\<in>set (T_hosts d). Host_ID h = Svc_HostID (f s) \<and>
        (Svc_Status (f s) = StatusActive \<longrightarrow> Host_Status h = StatusActive)"
  shows "fleet_inv C L d'"
proof -
  obtain u a where d': "d' = d\<lparr>T_services :=
        map (\<lambda>s. if Svc_ID s = i then service_touch u (f s) else s) (T_services d),
        T_audit_logs := T_audit_logs d @ [a]\<rparr>"
    using eff unfolding service_written_def by blast
  have services: "T_services d' =
        map (\<lambda>s. if Svc_ID s = i then service_touch u (f s) else s) (T_services d)"
    and rest: "T_hosts d' = T_hosts d" "T_tasks d' = T_tasks d"
    by (simp_all add: d')
  have uniq: "unique_by (service_uk C) (T_services d')" if "keys_unique C d"
    using eff that by (simp add: service_written_def keys_unique_def)
  let ?g = "\<lambda>s. if Svc_ID s = i then service_touch u (f s) else s"
  have "map Svc_ID (T_services d') = map Svc_ID (T_services d)"
    unfolding services by (rule map_at_key_keys) (simp add: key service_touch_def)
  then have keys: "keys_unique C d'"
    using inv uniq unfolding fleet_inv_def keys_unique_def rest by auto
  have "service_ok L (service_touch u s)" if "service_ok L s" for s
    using that by (simp add: service_ok_def service_touch_def)
  then have "\<forall>s\<in>set (T_services d'). service_ok L s"
    unfolding services using inv ok by (auto simp: fleet_inv_def rows_ok_def)
  moreover have "services_supported d'"
    unfolding services_supported_def rest services
    using inv host by (fastforce simp: fleet_inv_def services_supported_def service_touch_def)
  moreover have "tasks_supported d'"
    unfolding tasks_supported_def rest
  proof
    fix t assume t: "t \<in> set (T_tasks d)"
    then obtain s where s: "s \<in> set (T_services d)" "Svc_ID s = Task_ServiceID t"
      "Task_Status t = TaskActive \<longrightarrow> Svc_Status s = StatusActive"
      using inv by (auto simp: fleet_inv_def tasks_supported_def)
    have "?g s \<in> set (T_services d')" using s(1) by (auto simp: services)
    moreover have "Svc_ID (?g s) = Task_ServiceID t" using s(2) by (simp add: key service_touch_def)
    moreover have "Task_Status t = TaskActive \<longrightarrow> Svc_Status (?g s) = StatusActive"
      using s status t by (auto simp: service_touch_def)
    ultimately show "\<exists>s\<in>set (T_services d'). Svc_ID s = Task_ServiceID t \<and>
        (Task_Status t = TaskActive \<longrightarrow> Svc_Status s = StatusActive)" by blast
  qed
  ultimately show ?thesis
    using inv keys by (auto simp: fleet_inv_def rows_ok_def rest)
qed

section \<open>Preservation by the effects on tasks\<close>

lemma fleet_task_inserted:
  assumes inv: "fleet_inv C L d" and ok: "task_ok t" and eff: "task_inserted C t l d t' d'"
    and service: "\<exists>s\<in>set (T_services d). Svc_ID s = Task_ServiceID t \<and> Svc_Status s = StatusActive"
  shows "fleet_inv C L d'"
proof -
  obtain i c nx la where fresh: "i \<notin> Task_ID ` set (T_tasks d)"
    and free: "task_uk C t \<notin> task_uk C ` set (T_tasks d)"
    and tasks: "T_tasks d' = T_tasks d @
      [(task_stamp i c t)\<lparr>Task_NextRunAt := nx, Task_LastScheduledAt := la\<rparr>]"
    and rest: "T_hosts d' = T_hosts d" "T_services d' = T_services d"
    using eff unfolding task_inserted_def by auto
  let ?r = "(task_stamp i c t)\<lparr>Task_NextRunAt := nx, Task_LastScheduledAt := la\<rparr>"
  have "task_ok ?r" using ok by (simp add: task_ok_def task_stamp_def task_limits_def)
  moreover have "\<forall>x\<in>set (T_tasks d). task_uk C x \<noteq> task_uk C ?r"
    using free by (auto simp: task_uk_def task_stamp_def image_iff)
  moreover have "Task_ID ?r \<notin> Task_ID ` set (T_tasks d)"
    using fresh by (simp add: task_stamp_def)
  moreover have "\<exists>s\<in>set (T_services d). Svc_ID s = Task_ServiceID ?r \<and> Svc_Status s = StatusActive"
    using service by (simp add: task_stamp_def)
  ultimately show ?thesis
    using inv unfolding fleet_inv_def keys_unique_def rows_ok_def services_supported_def tasks_supported_def
    by (auto simp: tasks rest unique_by_append)
qed

lemma fleet_task_written:
  assumes inv: "fleet_inv C L d" and eff: "task_written C i f l d d'"
    and key: "\<And>t. Task_ID (f t) = Task_ID t"
    and ok: "\<And>t. t \<in> set (T_tasks d) \<Longrightarrow> Task_ID t = i \<Longrightarrow> task_ok t \<Longrightarrow> task_ok (f t)"
    and service: "\<And>t. t \<in> set (T_tasks d) \<Longrightarrow> Task_ID t = i \<Longrightarrow>
      \<exists>s\<in>set (T_services d). Svc_ID s = Task_ServiceID (f t) \<and>
        (Task_Status (f t) = TaskActive \<longrightarrow> Svc_Status s = StatusActive)"
  shows "fleet_inv C L d'"
proof -
  obtain u a where d': "d' = d\<lparr>T_tasks :=
        map (\<lambda>t. if Task_ID t = i then task_touch u (f t) else t) (T_tasks d),
        T_audit_logs := T_audit_logs d @ [a]\<rparr>"
    using eff unfolding task_written_def by blast
  have tasks: "T_tasks d' =
        map (\<lambda>t. if Task_ID t = i then task_touch u (f t) else t) (T_tasks d)"
    and rest: "T_hosts d' = T_hosts d" "T_services d' = T_services d"
    by (simp_all add: d')
  have uniq: "unique_by (task_uk C) (T_tasks d')" if "keys_unique C d"
    using eff that by (simp add: task_written_def keys_unique_def)
  have "map Task_ID (T_tasks d') = map Task_ID (T_tasks d)"
    unfolding tasks by (rule map_at_key_keys) (simp add: key task_touch_def)
  then have keys: "keys_unique C d'"
    using inv uniq unfolding fleet_inv_def keys_unique_def rest by auto
  have "task_ok (task_touch u t)" if "task_ok t" for t
    using that by (simp add: task_ok_def task_touch_def task_limits_def)
  then have "\<forall>t\<in>set (T_tasks d'). task_ok t"
    unfolding tasks using inv ok by (auto simp: fleet_inv_def rows_ok_def)
  moreover have "tasks_supported d'"
    unfolding tasks_supported_def rest tasks
    using inv service by (fastforce simp: fleet_inv_def tasks_supported_def task_touch_def)
  ultimately show ?thesis
    using inv keys by (auto simp: fleet_inv_def rows_ok_def services_supported_def rest)
qed

end
