(* ===== verification/AssetService.thy ===== *)
theory AssetService
  imports FleetInvariant
begin

text \<open>
  \<open>internal/asset/service.go\<close>: the asset service over any implementation of its
  \<open>Store\<close> interface; the laws of that interface as a locale, in which the effect of
  every operation and the preservation of the fleet invariant are proved; and the MySQL
  repository as an instance of it.
\<close>

section \<open>Data\<close>

record Metadata =
  Meta_RequestID :: string
  Meta_ClientIP :: string
  Meta_UserAgent :: string

record HostInput =
  HostIn_Name :: string
  HostIn_Address :: string
  HostIn_Description :: string

record ServiceInput =
  SvcIn_HostID :: u64
  SvcIn_Name :: string
  SvcIn_Type :: string
  SvcIn_Target :: string
  SvcIn_Description :: string

record Pagination =
  Pg_Page :: int
  Pg_PageSize :: int
  Pg_Total :: int
  Pg_TotalPages :: int

record 'a Page =
  Page_Items :: "'a list"
  Page_Pagination :: Pagination

definition nullable :: "string \<Rightarrow> string option" where
  "nullable v = (if v = [] then None else Some v)"

definition auditEntry :: "u64 \<Rightarrow> string \<Rightarrow> string \<Rightarrow> u64 \<Rightarrow> Metadata \<Rightarrow> Log" where
  "auditEntry actor action resource i md = Log_zero\<lparr>
     Log_ActorUserID := Some actor, Log_Username := nullable [], Log_Action := action,
     Log_Outcome := ''success'', Log_ResourceType := nullable resource,
     Log_ResourceID := nullable (if i > 0 then FormatUint i else []),
     Log_RequestID := nullable (Meta_RequestID md), Log_ClientIP := nullable (Meta_ClientIP md),
     Log_UserAgent := nullable (Meta_UserAgent md)\<rparr>"

text \<open>The division panics in Go when \<open>sz\<close> is zero; the callers pass 1 to 100.\<close>

definition pagination :: "int \<Rightarrow> int \<Rightarrow> int \<Rightarrow> Pagination" where
  "pagination page sz n = \<lparr>Pg_Page = page, Pg_PageSize = sz, Pg_Total = n,
     Pg_TotalPages = (if n > 0 then go_quot (wrap64 (wrap64 (n + sz) - 1)) sz else 0)\<rparr>"

section \<open>Operations\<close>

definition host_rejected :: "HostInput \<Rightarrow> bool" where
  "host_rejected input \<longleftrightarrow>
     HostIn_Name input = [] \<or> length (HostIn_Name input) > 100 \<or>
     validateHostAddress (HostIn_Address input) \<noteq> None"

definition host_trim :: "HostInput \<Rightarrow> HostInput" where
  "host_trim input = input\<lparr>HostIn_Name := TrimSpace (HostIn_Name input),
     HostIn_Address := TrimSpace (HostIn_Address input)\<rparr>"

definition new_host :: "u64 \<Rightarrow> HostInput \<Rightarrow> string \<Rightarrow> u64 \<Rightarrow> u64 \<Rightarrow> Host" where
  "new_host i input status creator actor = \<lparr>Host_ID = i, Host_Name = HostIn_Name input,
     Host_Address = HostIn_Address input, Host_Description = HostIn_Description input,
     Host_Status = status, Host_CreatedBy = creator, Host_UpdatedBy = actor,
     Host_CreatedAt = 0, Host_UpdatedAt = 0\<rparr>"

definition AssetService_CreateHost ::
  "'w asset_store \<Rightarrow> HostInput \<Rightarrow> u64 \<Rightarrow> Metadata \<Rightarrow> ('w, Host) op" where
  "AssetService_CreateHost S input0 actor md =
     (let input = host_trim input0
      in if host_rejected input then op_fail (Sentinel AssetErrInvalidInput)
         else st_CreateHost S (new_host 0 input StatusActive actor actor)
                (auditEntry actor ''host.create'' ''host'' 0 md))"

definition AssetService_GetHost :: "'w asset_store \<Rightarrow> u64 \<Rightarrow> ('w, Host) op" where
  "AssetService_GetHost S i = st_GetHost S i"

definition AssetService_ListHosts :: "'w asset_store \<Rightarrow> int \<Rightarrow> int \<Rightarrow> ('w, Host Page) op" where
  "AssetService_ListHosts S page sz =
     op_bind (st_ListHosts S page sz) (\<lambda>(items, n).
     op_return \<lparr>Page_Items = items, Page_Pagination = pagination page sz n\<rparr>)"

definition AssetService_UpdateHost ::
  "'w asset_store \<Rightarrow> u64 \<Rightarrow> HostInput \<Rightarrow> u64 \<Rightarrow> Metadata \<Rightarrow> ('w, Host) op" where
  "AssetService_UpdateHost S i input0 actor md =
     op_bind (st_GetHost S i) (\<lambda>_.
     let input = host_trim input0
     in if host_rejected input then op_fail (Sentinel AssetErrInvalidInput)
        else op_bind (st_UpdateHost S (new_host i input [] 0 actor)
                        (auditEntry actor ''host.update'' ''host'' i md)) (\<lambda>_.
             st_GetHost S i))"

text \<open>The checks of \<open>DisableHost\<close> are statements of their own, before the update.\<close>

definition AssetService_DisableHost_check :: "'w asset_store \<Rightarrow> u64 \<Rightarrow> ('w, unit) op" where
  "AssetService_DisableHost_check S i =
     op_bind (st_GetHost S i) (\<lambda>_.
     op_bind (st_CountActiveServices S i) (\<lambda>count.
     op_when_fail (count > 0) (Sentinel AssetErrConflict)))"

definition AssetService_DisableHost_commit ::
  "'w asset_store \<Rightarrow> u64 \<Rightarrow> u64 \<Rightarrow> Metadata \<Rightarrow> ('w, unit) op" where
  "AssetService_DisableHost_commit S i actor md =
     st_DisableHost S i actor (auditEntry actor ''host.disable'' ''host'' i md)"

definition AssetService_DisableHost ::
  "'w asset_store \<Rightarrow> u64 \<Rightarrow> u64 \<Rightarrow> Metadata \<Rightarrow> ('w, unit) op" where
  "AssetService_DisableHost S i actor md =
     op_bind (AssetService_DisableHost_check S i) (\<lambda>_. AssetService_DisableHost_commit S i actor md)"

definition service_rejected :: "golib \<Rightarrow> ServiceInput \<Rightarrow> bool" where
  "service_rejected L input \<longleftrightarrow>
     SvcIn_Name input = [] \<or> length (SvcIn_Name input) > 100 \<or>
     validateTarget L (SvcIn_Type input) (SvcIn_Target input) \<noteq> None"

definition service_trim :: "ServiceInput \<Rightarrow> ServiceInput" where
  "service_trim input = input\<lparr>SvcIn_Name := TrimSpace (SvcIn_Name input),
     SvcIn_Target := TrimSpace (SvcIn_Target input)\<rparr>"

definition new_service :: "u64 \<Rightarrow> ServiceInput \<Rightarrow> string \<Rightarrow> u64 \<Rightarrow> u64 \<Rightarrow> MonitoredService" where
  "new_service i input status creator actor = \<lparr>Svc_ID = i, Svc_HostID = SvcIn_HostID input,
     Svc_Name = SvcIn_Name input, Svc_Type = SvcIn_Type input, Svc_Target = SvcIn_Target input,
     Svc_Description = SvcIn_Description input, Svc_Status = status, Svc_CreatedBy = creator,
     Svc_UpdatedBy = actor, Svc_CreatedAt = 0, Svc_UpdatedAt = 0\<rparr>"

text \<open>The host must exist and be active, then the input is trimmed and validated.\<close>

definition AssetService_CreateMonitoredService ::
  "golib \<Rightarrow> 'w asset_store \<Rightarrow> ServiceInput \<Rightarrow> u64 \<Rightarrow> Metadata \<Rightarrow> ('w, MonitoredService) op" where
  "AssetService_CreateMonitoredService L S input0 actor md =
     op_bind (st_GetHost S (SvcIn_HostID input0)) (\<lambda>host.
     if Host_Status host \<noteq> StatusActive then op_fail (Sentinel AssetErrHostDisabled)
     else let input = service_trim input0
          in if service_rejected L input then op_fail (Sentinel AssetErrInvalidInput)
             else st_CreateService S (new_service 0 input StatusActive actor actor)
                    (auditEntry actor ''service.create'' ''service'' 0 md))"

definition AssetService_GetMonitoredService ::
  "'w asset_store \<Rightarrow> u64 \<Rightarrow> ('w, MonitoredService) op" where
  "AssetService_GetMonitoredService S i = st_GetService S i"

definition AssetService_ListMonitoredServices ::
  "'w asset_store \<Rightarrow> int \<Rightarrow> int \<Rightarrow> ('w, MonitoredService Page) op" where
  "AssetService_ListMonitoredServices S page sz =
     op_bind (st_ListServices S page sz) (\<lambda>(items, n).
     op_return \<lparr>Page_Items = items, Page_Pagination = pagination page sz n\<rparr>)"

definition AssetService_UpdateMonitoredService ::
  "golib \<Rightarrow> 'w asset_store \<Rightarrow> u64 \<Rightarrow> ServiceInput \<Rightarrow> u64 \<Rightarrow> Metadata \<Rightarrow> ('w, MonitoredService) op" where
  "AssetService_UpdateMonitoredService L S i input0 actor md =
     op_bind (st_GetService S i) (\<lambda>_.
     op_bind (st_GetHost S (SvcIn_HostID input0)) (\<lambda>host.
     if Host_Status host \<noteq> StatusActive then op_fail (Sentinel AssetErrHostDisabled)
     else let input = service_trim input0
          in if service_rejected L input then op_fail (Sentinel AssetErrInvalidInput)
             else op_bind (st_UpdateService S (new_service i input [] 0 actor)
                             (auditEntry actor ''service.update'' ''service'' i md)) (\<lambda>_.
                  st_GetService S i)))"

definition AssetService_DisableMonitoredService_check ::
  "'w asset_store \<Rightarrow> u64 \<Rightarrow> ('w, unit) op" where
  "AssetService_DisableMonitoredService_check S i =
     op_bind (st_GetService S i) (\<lambda>_.
     op_bind (st_CountActiveProbeTasks S i) (\<lambda>count.
     op_when_fail (count > 0) (Sentinel AssetErrConflict)))"

definition AssetService_DisableMonitoredService ::
  "'w asset_store \<Rightarrow> u64 \<Rightarrow> u64 \<Rightarrow> Metadata \<Rightarrow> ('w, unit) op" where
  "AssetService_DisableMonitoredService S i actor md =
     op_bind (AssetService_DisableMonitoredService_check S i) (\<lambda>_.
     st_DisableService S i actor (auditEntry actor ''service.disable'' ''service'' i md))"

lemma new_row_ids [simp]:
  "Host_ID (new_host i hin st cr ac) = i" "Svc_ID (new_service i sin st cr ac) = i"
  by (simp_all add: new_host_def new_service_def)

definition host_active :: "u64 \<Rightarrow> db \<Rightarrow> bool" where
  "host_active i d \<longleftrightarrow> (\<exists>h\<in>set (T_hosts d). Host_ID h = i \<and> Host_Status h = StatusActive)"

lemma updated_columns [simp]:
  "Host_ID (host_columns h r) = Host_ID r" "Host_Status (host_columns h r) = Host_Status r"
  "Svc_ID (service_columns x s) = Svc_ID s" "Svc_Status (service_columns x s) = Svc_Status s"
  "Svc_HostID (service_columns x s) = Svc_HostID x"
  "Svc_HostID (new_service i (service_trim input) st cr ac) = SvcIn_HostID input"
  by (simp_all add: host_columns_def service_columns_def new_service_def service_trim_def)

text \<open>Accepted input makes a well-formed row.\<close>

lemma accepted_name_ok:
  "TrimSpace n \<noteq> [] \<Longrightarrow> length (TrimSpace n) \<le> 100 \<Longrightarrow> name_ok (TrimSpace n)"
  by (simp add: name_ok_def TrimSpace_trimmed)

lemma accepted_host_ok:
  "\<not> host_rejected (host_trim input) \<Longrightarrow> host_ok (new_host i (host_trim input) StatusActive cr ac)"
  by (auto simp: host_rejected_def host_trim_def host_ok_def new_host_def accepted_name_ok)

lemma accepted_host_update_ok:
  "\<not> host_rejected (host_trim input) \<Longrightarrow> host_ok h \<Longrightarrow>
     host_ok (host_columns (new_host i (host_trim input) st cr ac) h)"
  by (auto simp: host_rejected_def host_trim_def host_ok_def new_host_def host_columns_def accepted_name_ok)

lemma accepted_service_ok:
  "\<not> service_rejected L (service_trim input) \<Longrightarrow>
     service_ok L (new_service i (service_trim input) StatusActive cr ac)"
  by (auto simp: service_rejected_def service_trim_def service_ok_def new_service_def accepted_name_ok)

lemma accepted_service_update_ok:
  "\<not> service_rejected L (service_trim input) \<Longrightarrow> service_ok L s \<Longrightarrow>
     service_ok L (service_columns (new_service i (service_trim input) st cr ac) s)"
  by (auto simp: service_rejected_def service_trim_def service_ok_def new_service_def
      service_columns_def accepted_name_ok)

section \<open>The laws of the Store interface\<close>

text \<open>
  What the service relies on: reads change nothing and report what is there, and each write
  has its effect on the database or none.
\<close>

locale asset_store_laws =
  fixes S :: "'w asset_store" and view :: "'w \<Rightarrow> db" and C :: "string \<Rightarrow> string"
  assumes GetHost_reads: "view (snd (st_GetHost S i w)) = view w"
    and GetHost_row: "st_GetHost S i w = (Inr h, w') \<Longrightarrow> h \<in> set (T_hosts (view w)) \<and> Host_ID h = i"
    and ListHosts_reads: "view (snd (st_ListHosts S page sz w)) = view w"
    and CountActiveServices_reads: "view (snd (st_CountActiveServices S i w)) = view w"
    and CountActiveServices_count: "st_CountActiveServices S i w = (Inr n, w') \<Longrightarrow>
      n = int (length (filter (\<lambda>s. Svc_HostID s = i \<and> Svc_Status s = StatusActive) (T_services (view w))))"
    and GetService_reads: "view (snd (st_GetService S i w)) = view w"
    and GetService_row: "st_GetService S i w = (Inr s, w') \<Longrightarrow>
      s \<in> set (T_services (view w)) \<and> Svc_ID s = i"
    and ListServices_reads: "view (snd (st_ListServices S page sz w)) = view w"
    and CountActiveProbeTasks_reads: "view (snd (st_CountActiveProbeTasks S i w)) = view w"
    and CountActiveProbeTasks_count: "st_CountActiveProbeTasks S i w = (Inr n, w') \<Longrightarrow>
      n = int (length (filter (\<lambda>t. Task_ServiceID t = i \<and> Task_Status t = StatusActive) (T_tasks (view w))))"
    and CreateHost_effect: "all_or_nothing view (st_CreateHost S h l) w (host_inserted C h l (view w))"
    and UpdateHost_effect: "all_or_nothing view (st_UpdateHost S h l) w
      (\<lambda>_. host_written C (Host_ID h) (host_columns h) l (view w))"
    and DisableHost_effect: "all_or_nothing view (st_DisableHost S i actor l) w
      (\<lambda>_. host_written C i (host_disabled actor) l (view w))"
    and CreateService_effect: "all_or_nothing view (st_CreateService S s l) w
      (service_inserted C s l (view w))"
    and UpdateService_effect: "all_or_nothing view (st_UpdateService S s l) w
      (\<lambda>_. service_written C (Svc_ID s) (service_columns s) l (view w))"
    and DisableService_effect: "all_or_nothing view (st_DisableService S i actor l) w
      (\<lambda>_. service_written C i (service_disabled actor) l (view w))"
begin

lemmas reads = GetHost_reads ListHosts_reads CountActiveServices_reads GetService_reads
  ListServices_reads CountActiveProbeTasks_reads

text \<open>The effect of each operation, with what its checks established.\<close>

lemma service_CreateHost:
  "all_or_nothing view (AssetService_CreateHost S input actor md) w
     (\<lambda>h d. \<not> host_rejected (host_trim input) \<and>
        host_inserted C (new_host 0 (host_trim input) StatusActive actor actor)
          (auditEntry actor ''host.create'' ''host'' 0 md) (view w) h d)"
  using all_or_nothing_mono [OF CreateHost_effect] by (simp add: AssetService_CreateHost_def Let_def)

lemma service_UpdateHost:
  "all_or_nothing view (AssetService_UpdateHost S i input actor md) w
     (\<lambda>_ d. \<not> host_rejected (host_trim input) \<and>
        host_written C i (host_columns (new_host i (host_trim input) [] 0 actor))
          (auditEntry actor ''host.update'' ''host'' i md) (view w) d)"
  unfolding AssetService_UpdateHost_def Let_def
proof (rule all_or_nothing_after_read, rule GetHost_reads)
  fix x w' assume "view w' = view w"
  then show "all_or_nothing view (if host_rejected (host_trim input) then op_fail (Sentinel AssetErrInvalidInput)
      else op_bind (st_UpdateHost S (new_host i (host_trim input) [] 0 actor)
        (auditEntry actor ''host.update'' ''host'' i md)) (\<lambda>_. st_GetHost S i)) w'
     (\<lambda>_ d. \<not> host_rejected (host_trim input) \<and>
        host_written C i (host_columns (new_host i (host_trim input) [] 0 actor))
          (auditEntry actor ''host.update'' ''host'' i md) (view w) d)"
    using all_or_nothing_before_read [OF UpdateHost_effect [of "new_host i (host_trim input) [] 0 actor" _ w'],
        where r = "st_GetHost S i", OF GetHost_reads]
    by simp
qed

lemma service_DisableHost:
  "all_or_nothing view (AssetService_DisableHost S i actor md) w
     (\<lambda>_ d. (\<forall>s\<in>set (T_services (view w)). Svc_HostID s = i \<longrightarrow> Svc_Status s \<noteq> StatusActive) \<and>
        host_written C i (host_disabled actor) (auditEntry actor ''host.disable'' ''host'' i md) (view w) d)"
  unfolding AssetService_DisableHost_def AssetService_DisableHost_commit_def
proof (rule all_or_nothing_after_read)
  show "view (snd (AssetService_DisableHost_check S i w)) = view w"
    unfolding AssetService_DisableHost_check_def
    by (intro op_bind_reads reads) (simp add: op_when_fail_def)
  fix u w' assume ok: "AssetService_DisableHost_check S i w = (Inr u, w')" and v: "view w' = view w"
  obtain h w1 n w2 where g: "st_GetHost S i w = (Inr h, w1)"
    and c: "st_CountActiveServices S i w1 = (Inr n, w2)" and n: "\<not> n > 0"
    using ok unfolding AssetService_DisableHost_check_def by (auto elim!: op_bind_Inr)
  have "view w1 = view w" using GetHost_reads [of i w] g by simp
  then have "\<forall>s\<in>set (T_services (view w)). Svc_HostID s = i \<longrightarrow> Svc_Status s \<noteq> StatusActive"
    using CountActiveServices_count [OF c] n by (auto simp: filter_empty_conv)
  with v
  show "all_or_nothing view (st_DisableHost S i actor (auditEntry actor ''host.disable'' ''host'' i md)) w'
     (\<lambda>_ d. (\<forall>s\<in>set (T_services (view w)). Svc_HostID s = i \<longrightarrow> Svc_Status s \<noteq> StatusActive) \<and>
        host_written C i (host_disabled actor) (auditEntry actor ''host.disable'' ''host'' i md) (view w) d)"
    using DisableHost_effect [of i actor _ w'] by (simp add: all_or_nothing_mono)
qed

lemma service_CreateMonitoredService:
  "all_or_nothing view (AssetService_CreateMonitoredService L S input actor md) w
     (\<lambda>s d. host_active (SvcIn_HostID input) (view w) \<and> \<not> service_rejected L (service_trim input) \<and>
        service_inserted C (new_service 0 (service_trim input) StatusActive actor actor)
          (auditEntry actor ''service.create'' ''service'' 0 md) (view w) s d)"
  unfolding AssetService_CreateMonitoredService_def Let_def
proof (rule all_or_nothing_after_read, rule GetHost_reads)
  fix h w' assume g: "st_GetHost S (SvcIn_HostID input) w = (Inr h, w')" and v: "view w' = view w"
  have "host_active (SvcIn_HostID input) (view w)" if "Host_Status h = StatusActive"
    using GetHost_row [OF g] that by (auto simp: host_active_def)
  then show "all_or_nothing view
     (if Host_Status h \<noteq> StatusActive then op_fail (Sentinel AssetErrHostDisabled)
      else if service_rejected L (service_trim input) then op_fail (Sentinel AssetErrInvalidInput)
      else st_CreateService S (new_service 0 (service_trim input) StatusActive actor actor)
             (auditEntry actor ''service.create'' ''service'' 0 md)) w'
     (\<lambda>s d. host_active (SvcIn_HostID input) (view w) \<and> \<not> service_rejected L (service_trim input) \<and>
        service_inserted C (new_service 0 (service_trim input) StatusActive actor actor)
          (auditEntry actor ''service.create'' ''service'' 0 md) (view w) s d)"
    using CreateService_effect [of _ _ w', unfolded v] by (auto elim: all_or_nothing_mono)
qed

lemma service_UpdateMonitoredService:
  "all_or_nothing view (AssetService_UpdateMonitoredService L S i input actor md) w
     (\<lambda>_ d. host_active (SvcIn_HostID input) (view w) \<and> \<not> service_rejected L (service_trim input) \<and>
        service_written C i (service_columns (new_service i (service_trim input) [] 0 actor))
          (auditEntry actor ''service.update'' ''service'' i md) (view w) d)"
  (is "all_or_nothing view _ w (\<lambda>_. ?P)")
  unfolding AssetService_UpdateMonitoredService_def Let_def
proof (rule all_or_nothing_after_read, rule GetService_reads,
       rule all_or_nothing_after_read, rule GetHost_reads)
  fix x w1 h w' assume v1: "view w1 = view w"
    and g: "st_GetHost S (SvcIn_HostID input) w1 = (Inr h, w')" and v: "view w' = view w1"
  have "host_active (SvcIn_HostID input) (view w)" if "Host_Status h = StatusActive"
    using GetHost_row [OF g] that v1 by (auto simp: host_active_def)
  then show "all_or_nothing view
     (if Host_Status h \<noteq> StatusActive then op_fail (Sentinel AssetErrHostDisabled)
      else if service_rejected L (service_trim input) then op_fail (Sentinel AssetErrInvalidInput)
      else op_bind (st_UpdateService S (new_service i (service_trim input) [] 0 actor)
             (auditEntry actor ''service.update'' ''service'' i md)) (\<lambda>_. st_GetService S i)) w' (\<lambda>_. ?P)"
    using all_or_nothing_before_read [OF UpdateService_effect [of "new_service i (service_trim input) [] 0 actor" _ w'],
        where r = "st_GetService S i", OF GetService_reads] v v1
    by auto
qed

lemma service_DisableMonitoredService:
  "all_or_nothing view (AssetService_DisableMonitoredService S i actor md) w
     (\<lambda>_ d. (\<forall>t\<in>set (T_tasks (view w)). Task_ServiceID t = i \<longrightarrow> Task_Status t \<noteq> TaskActive) \<and>
        service_written C i (service_disabled actor)
          (auditEntry actor ''service.disable'' ''service'' i md) (view w) d)"
  (is "all_or_nothing view _ w (\<lambda>_. ?P)")
  unfolding AssetService_DisableMonitoredService_def
proof (rule all_or_nothing_after_read)
  show "view (snd (AssetService_DisableMonitoredService_check S i w)) = view w"
    unfolding AssetService_DisableMonitoredService_check_def
    by (intro op_bind_reads reads) (simp add: op_when_fail_def)
  fix u w' assume ok: "AssetService_DisableMonitoredService_check S i w = (Inr u, w')"
    and v: "view w' = view w"
  obtain h w1 n w2 where g: "st_GetService S i w = (Inr h, w1)"
    and c: "st_CountActiveProbeTasks S i w1 = (Inr n, w2)" and n: "\<not> n > 0"
    using ok unfolding AssetService_DisableMonitoredService_check_def by (auto elim!: op_bind_Inr)
  have "view w1 = view w" using GetService_reads [of i w] g by simp
  then have "\<forall>t\<in>set (T_tasks (view w)). Task_ServiceID t = i \<longrightarrow> Task_Status t \<noteq> TaskActive"
    using CountActiveProbeTasks_count [OF c] n by (auto simp: filter_empty_conv)
  with v
  show "all_or_nothing view
     (st_DisableService S i actor (auditEntry actor ''service.disable'' ''service'' i md)) w' (\<lambda>_. ?P)"
    using DisableService_effect [of i actor _ w'] by (simp add: all_or_nothing_mono)
qed

text \<open>Every operation keeps the fleet well formed, whether it succeeds or fails.\<close>

lemma fleet_CreateHost:
  "fleet_inv C L (view w) \<Longrightarrow> fleet_inv C L (view (snd (AssetService_CreateHost S input actor md w)))"
  by (rule all_or_nothing_invariant [where I = "fleet_inv C L", OF service_CreateHost])
     (auto intro: fleet_host_inserted accepted_host_ok)

lemma fleet_UpdateHost:
  assumes "fleet_inv C L (view w)"
  shows "fleet_inv C L (view (snd (AssetService_UpdateHost S i input actor md w)))"
  by (rule all_or_nothing_invariant [where I = "fleet_inv C L", OF service_UpdateHost assms], elim conjE,
      rule fleet_host_written [OF assms], assumption)
     (auto intro: accepted_host_update_ok)

lemma fleet_DisableHost:
  assumes "fleet_inv C L (view w)"
  shows "fleet_inv C L (view (snd (AssetService_DisableHost S i actor md w)))"
  by (rule all_or_nothing_invariant [where I = "fleet_inv C L", OF service_DisableHost assms], elim conjE,
      rule fleet_host_written [OF assms], assumption)
     (auto simp: host_disabled_def host_ok_def)

lemma fleet_CreateMonitoredService:
  assumes "fleet_inv C L (view w)"
  shows "fleet_inv C L (view (snd (AssetService_CreateMonitoredService L S input actor md w)))"
  by (rule all_or_nothing_invariant [where I = "fleet_inv C L", OF service_CreateMonitoredService assms], elim conjE,
      rule fleet_service_inserted [OF assms accepted_service_ok], assumption, assumption)
     (simp add: host_active_def new_service_def service_trim_def)

lemma fleet_UpdateMonitoredService:
  assumes "fleet_inv C L (view w)"
  shows "fleet_inv C L (view (snd (AssetService_UpdateMonitoredService L S i input actor md w)))"
  by (rule all_or_nothing_invariant [where I = "fleet_inv C L", OF service_UpdateMonitoredService assms], elim conjE,
      rule fleet_service_written [OF assms], assumption)
     (auto simp: host_active_def intro: accepted_service_update_ok)

lemma fleet_DisableMonitoredService:
  assumes "fleet_inv C L (view w)"
  shows "fleet_inv C L (view (snd (AssetService_DisableMonitoredService S i actor md w)))"
proof (rule all_or_nothing_invariant [where I = "fleet_inv C L", OF service_DisableMonitoredService assms], elim conjE,
    rule fleet_service_written [OF assms], assumption)
  fix s assume "s \<in> set (T_services (view w))"
  then show "\<exists>h\<in>set (T_hosts (view w)). Host_ID h = Svc_HostID (service_disabled actor s) \<and>
      (Svc_Status (service_disabled actor s) = StatusActive \<longrightarrow> Host_Status h = StatusActive)"
    using assms by (fastforce simp: fleet_inv_def services_supported_def service_disabled_def)
qed (auto simp: service_disabled_def service_ok_def)

end

section \<open>The MySQL repository satisfies the laws\<close>

interpretation asset_repo: asset_store_laws "asset_repository E" w_db "env_coll E" for E
proof unfold_locales
  fix i w h w' assume "st_GetHost (asset_repository E) i w = (Inr h, w')"
  then show "h \<in> set (T_hosts (w_db w)) \<and> Host_ID h = i"
    using hosts.first_row_Inr by (fastforce simp: asset_repository_def AssetRepo_GetHost_def tb_Inr)
next
  fix i w s w' assume "st_GetService (asset_repository E) i w = (Inr s, w')"
  then show "s \<in> set (T_services (w_db w)) \<and> Svc_ID s = i"
    using services.first_row_Inr by (fastforce simp: asset_repository_def AssetRepo_GetService_def tb_Inr)
qed (auto simp: asset_repository_def AssetRepo_GetHost_def AssetRepo_ListHosts_def
    AssetRepo_CountActiveServices_def AssetRepo_GetService_def AssetRepo_ListServices_def
    AssetRepo_CountActiveProbeTasks_def tb_Inr count_rows_def
    AssetRepo_CreateHost_effect AssetRepo_UpdateHost_effect AssetRepo_DisableHost_effect
    AssetRepo_CreateService_effect AssetRepo_UpdateService_effect AssetRepo_DisableService_effect)

end
