(* ===== verification/ProbeTaskService.thy ===== *)
theory ProbeTaskService
  imports AssetService
begin

text \<open>
  \<open>internal/probe/task_service.go\<close>: validation and the operations on probe tasks, over
  the MySQL repository. Each operation's effect, and the preservation of the fleet invariant.
\<close>

record TaskInput =
  TaskIn_ServiceID :: u64
  TaskIn_Name :: string
  TaskIn_IntervalSeconds :: int
  TaskIn_TimeoutMilliseconds :: int
  TaskIn_MaxRetries :: int
  TaskIn_RetryBaseDelayMilliseconds :: int

definition validateTask :: "TaskInput \<Rightarrow> go_error option" where
  "validateTask input =
     (if TrimSpace (TaskIn_Name input) = [] \<or> length (TrimSpace (TaskIn_Name input)) > 100 \<or>
         TaskIn_ServiceID input = 0 \<or>
         TaskIn_IntervalSeconds input < 10 \<or> TaskIn_IntervalSeconds input > 86400 \<or>
         TaskIn_TimeoutMilliseconds input < 100 \<or> TaskIn_TimeoutMilliseconds input > 60000 \<or>
         TaskIn_MaxRetries input < 0 \<or> TaskIn_MaxRetries input > 5 \<or>
         TaskIn_RetryBaseDelayMilliseconds input < 100 \<or>
         TaskIn_RetryBaseDelayMilliseconds input > 30000
      then Some (Sentinel ProbeErrInvalidInput) else None)"

definition pageInfo :: "int \<Rightarrow> int \<Rightarrow> int \<Rightarrow> Pagination" where
  "pageInfo page sz n = \<lparr>Pg_Page = page, Pg_PageSize = sz, Pg_Total = n,
     Pg_TotalPages = (if n > 0 then go_quot (wrap64 (wrap64 (n + sz) - 1)) sz else 0)\<rparr>"

definition taskAudit :: "u64 \<Rightarrow> string \<Rightarrow> u64 \<Rightarrow> Metadata \<Rightarrow> Log" where
  "taskAudit actor action i md = Log_zero\<lparr>
     Log_ActorUserID := Some actor, Log_Action := action, Log_Outcome := ''success'',
     Log_ResourceType := Some ''probe_task'', Log_RequestID := Some (Meta_RequestID md),
     Log_ClientIP := Some (Meta_ClientIP md), Log_UserAgent := Some (Meta_UserAgent md),
     Log_ResourceID := (if i > 0 then Some (FormatUint i) else None)\<rparr>"

definition new_task :: "u64 \<Rightarrow> TaskInput \<Rightarrow> string \<Rightarrow> time \<Rightarrow> u64 \<Rightarrow> u64 \<Rightarrow> Task" where
  "new_task i input status nextRun creator actor = \<lparr>Task_ID = i,
     Task_ServiceID = TaskIn_ServiceID input, Task_Name = TrimSpace (TaskIn_Name input),
     Task_IntervalSeconds = TaskIn_IntervalSeconds input,
     Task_TimeoutMilliseconds = TaskIn_TimeoutMilliseconds input,
     Task_MaxRetries = TaskIn_MaxRetries input,
     Task_RetryBaseDelayMilliseconds = TaskIn_RetryBaseDelayMilliseconds input,
     Task_Status = status, Task_NextRunAt = nextRun, Task_LastScheduledAt = None,
     Task_CreatedBy = creator, Task_UpdatedBy = actor, Task_CreatedAt = 0, Task_UpdatedAt = 0\<rparr>"

section \<open>Operations\<close>

definition TaskService_Create :: "env \<Rightarrow> TaskInput \<Rightarrow> u64 \<Rightarrow> Metadata \<Rightarrow> (world, Task) op" where
  "TaskService_Create E input actor md =
     op_bind (ProbeRepo_GetService E (TaskIn_ServiceID input)) (\<lambda>service.
     if Svc_Status service \<noteq> StatusActive then op_fail (Sentinel ProbeErrConflict)
     else case validateTask input of
            Some err \<Rightarrow> op_fail err
          | None \<Rightarrow>
              op_bind (time_now E) (\<lambda>now.
              ProbeRepo_CreateTask E (new_task 0 input TaskActive now actor actor)
                (taskAudit actor ''probe_task.create'' 0 md)))"

definition TaskService_Get :: "env \<Rightarrow> u64 \<Rightarrow> (world, Task) op" where
  "TaskService_Get E i = ProbeRepo_GetTask E i"

definition TaskService_List :: "env \<Rightarrow> int \<Rightarrow> int \<Rightarrow> (world, Task Page) op" where
  "TaskService_List E page sz =
     op_bind (ProbeRepo_ListTasks E page sz) (\<lambda>(items, n).
     op_return \<lparr>Page_Items = items, Page_Pagination = pageInfo page sz n\<rparr>)"

definition TaskService_Update ::
  "env \<Rightarrow> u64 \<Rightarrow> TaskInput \<Rightarrow> u64 \<Rightarrow> Metadata \<Rightarrow> (world, Task) op" where
  "TaskService_Update E i input actor md =
     op_bind (ProbeRepo_GetTask E i) (\<lambda>current.
     op_bind (ProbeRepo_GetService E (TaskIn_ServiceID input)) (\<lambda>service.
     if Svc_Status service \<noteq> StatusActive \<or> Task_Status current \<noteq> TaskActive
     then op_fail (Sentinel ProbeErrConflict)
     else case validateTask input of
            Some err \<Rightarrow> op_fail err
          | None \<Rightarrow>
              op_bind (ProbeRepo_UpdateTask E (new_task i input [] 0 0 actor)
                (taskAudit actor ''probe_task.update'' i md)) (\<lambda>_.
              ProbeRepo_GetTask E i)))"

definition TaskService_Disable :: "env \<Rightarrow> u64 \<Rightarrow> u64 \<Rightarrow> Metadata \<Rightarrow> (world, unit) op" where
  "TaskService_Disable E i actor md =
     op_bind (ProbeRepo_GetTask E i) (\<lambda>_.
     ProbeRepo_DisableTask E i actor (taskAudit actor ''probe_task.disable'' i md))"

definition TaskService_ListResults :: "env \<Rightarrow> int \<Rightarrow> int \<Rightarrow> (world, Execution Page) op" where
  "TaskService_ListResults E page sz =
     op_bind (ProbeRepo_ListExecutions E page sz) (\<lambda>(items, n).
     op_return \<lparr>Page_Items = items, Page_Pagination = pageInfo page sz n\<rparr>)"

definition TaskService_GetResult :: "env \<Rightarrow> u64 \<Rightarrow> (world, Execution) op" where
  "TaskService_GetResult E i = ProbeRepo_GetExecutionByID E i"

section \<open>Facts\<close>

lemma probe_reads:
  "w_db (snd (ProbeRepo_GetService E i w)) = w_db w"
  "w_db (snd (ProbeRepo_GetTask E i w)) = w_db w"
  by (simp_all add: ProbeRepo_GetService_def ProbeRepo_GetTask_def)

lemma probe_GetService_row:
  "ProbeRepo_GetService E i w = (Inr s, w') \<Longrightarrow> s \<in> set (T_services (w_db w)) \<and> Svc_ID s = i"
  using services.first_row_Inr by (fastforce simp: ProbeRepo_GetService_def tb_Inr)

lemma probe_GetTask_row:
  "ProbeRepo_GetTask E i w = (Inr t, w') \<Longrightarrow> t \<in> set (T_tasks (w_db w)) \<and> Task_ID t = i"
  using tasks.first_row_Inr by (fastforce simp: ProbeRepo_GetTask_def tb_Inr)

definition service_active :: "u64 \<Rightarrow> db \<Rightarrow> bool" where
  "service_active i d \<longleftrightarrow> (\<exists>s\<in>set (T_services d). Svc_ID s = i \<and> Svc_Status s = StatusActive)"

lemma new_task_simps [simp]:
  "Task_ID (new_task i input st nx cr ac) = i"
  "Task_ServiceID (new_task i input st nx cr ac) = TaskIn_ServiceID input"
  "Task_ID (task_columns x t) = Task_ID t" "Task_Status (task_columns x t) = Task_Status t"
  "Task_ServiceID (task_columns x t) = Task_ServiceID x"
  by (simp_all add: new_task_def task_columns_def)

lemma validateTask_ok:
  "validateTask input = None \<Longrightarrow> task_ok (new_task i input TaskActive nx cr ac)"
  by (auto simp: validateTask_def task_ok_def task_limits_def new_task_def name_ok_def
      TrimSpace_trimmed split: if_splits)

lemma validateTask_update_ok:
  "validateTask input = None \<Longrightarrow> task_ok t \<Longrightarrow> task_ok (task_columns (new_task i input st nx cr ac) t)"
  by (auto simp: validateTask_def task_ok_def task_limits_def new_task_def task_columns_def name_ok_def
      TrimSpace_trimmed split: if_splits)

lemma service_Create:
  "all_or_nothing w_db (TaskService_Create E input actor md) w
     (\<lambda>t d. service_active (TaskIn_ServiceID input) (w_db w) \<and> validateTask input = None \<and>
        (\<exists>now. task_inserted (env_coll E) (new_task 0 input TaskActive now actor actor)
          (taskAudit actor ''probe_task.create'' 0 md) (w_db w) t d))"
  (is "all_or_nothing _ _ _ ?P")
  unfolding TaskService_Create_def
proof (rule all_or_nothing_after_read, rule probe_reads)
  fix s w' assume g: "ProbeRepo_GetService E (TaskIn_ServiceID input) w = (Inr s, w')"
    and v: "w_db w' = w_db w"
  let ?create = "op_bind (time_now E) (\<lambda>now. ProbeRepo_CreateTask E
      (new_task 0 input TaskActive now actor actor) (taskAudit actor ''probe_task.create'' 0 md))"
  have "service_active (TaskIn_ServiceID input) (w_db w)" if "Svc_Status s = StatusActive"
    using probe_GetService_row [OF g] that by (auto simp: service_active_def)
  moreover have "all_or_nothing w_db ?create w' (\<lambda>t d. \<exists>now. task_inserted (env_coll E)
      (new_task 0 input TaskActive now actor actor) (taskAudit actor ''probe_task.create'' 0 md) (w_db w) t d)"
    by (rule all_or_nothing_after_read)
       (simp, rule all_or_nothing_mono [OF ProbeRepo_CreateTask_effect], auto simp: v)
  ultimately show "all_or_nothing w_db
     (if Svc_Status s \<noteq> StatusActive then op_fail (Sentinel ProbeErrConflict)
      else case validateTask input of None \<Rightarrow> ?create | Some err \<Rightarrow> op_fail err) w' ?P"
    by (auto split: option.split elim: all_or_nothing_mono)
qed

lemma service_Update:
  "all_or_nothing w_db (TaskService_Update E i input actor md) w
     (\<lambda>_ d. service_active (TaskIn_ServiceID input) (w_db w) \<and> validateTask input = None \<and>
        task_written (env_coll E) i (task_columns (new_task i input [] 0 0 actor))
          (taskAudit actor ''probe_task.update'' i md) (w_db w) d)"
  (is "all_or_nothing _ _ _ (\<lambda>_. ?P)")
  unfolding TaskService_Update_def
proof (rule all_or_nothing_after_read, rule probe_reads, rule all_or_nothing_after_read, rule probe_reads)
  fix t w1 s w' assume v1: "w_db w1 = w_db w"
    and g: "ProbeRepo_GetService E (TaskIn_ServiceID input) w1 = (Inr s, w')"
    and v: "w_db w' = w_db w1"
  have "service_active (TaskIn_ServiceID input) (w_db w)" if "Svc_Status s = StatusActive"
    using probe_GetService_row [OF g] that v1 by (auto simp: service_active_def)
  then show "all_or_nothing w_db
     (if Svc_Status s \<noteq> StatusActive \<or> Task_Status t \<noteq> TaskActive then op_fail (Sentinel ProbeErrConflict)
      else case validateTask input of None \<Rightarrow>
          op_bind (ProbeRepo_UpdateTask E (new_task i input [] 0 0 actor)
            (taskAudit actor ''probe_task.update'' i md)) (\<lambda>_. ProbeRepo_GetTask E i)
        | Some err \<Rightarrow> op_fail err) w' (\<lambda>_. ?P)"
    using all_or_nothing_before_read
      [OF ProbeRepo_UpdateTask_effect [of E "new_task i input [] 0 0 actor" _ w'],
        where r = "ProbeRepo_GetTask E i", OF probe_reads(2)] v v1
    by (auto split: option.split)
qed

lemma service_Disable:
  "all_or_nothing w_db (TaskService_Disable E i actor md) w
     (\<lambda>_ d. task_written (env_coll E) i (task_disabled actor)
        (taskAudit actor ''probe_task.disable'' i md) (w_db w) d)"
  unfolding TaskService_Disable_def
proof (rule all_or_nothing_after_read, rule probe_reads)
  fix t and w' :: world assume v: "w_db w' = w_db w"
  show "all_or_nothing w_db
      (ProbeRepo_DisableTask E i actor (taskAudit actor ''probe_task.disable'' i md)) w'
      (\<lambda>_ d. task_written (env_coll E) i (task_disabled actor)
        (taskAudit actor ''probe_task.disable'' i md) (w_db w) d)"
    using ProbeRepo_DisableTask_effect [of E i actor _ w'] v by simp
qed

text \<open>The operations keep the fleet well formed.\<close>

lemma fleet_task_Create:
  assumes "fleet_inv (env_coll E) L (w_db w)"
  shows "fleet_inv (env_coll E) L (w_db (snd (TaskService_Create E input actor md w)))"
  by (rule all_or_nothing_invariant [where I = "fleet_inv (env_coll E) L", OF service_Create assms],
      elim conjE exE, rule fleet_task_inserted [OF assms validateTask_ok], assumption, assumption)
     (simp add: service_active_def)

lemma fleet_task_Update:
  assumes "fleet_inv (env_coll E) L (w_db w)"
  shows "fleet_inv (env_coll E) L (w_db (snd (TaskService_Update E i input actor md w)))"
  by (rule all_or_nothing_invariant [where I = "fleet_inv (env_coll E) L", OF service_Update assms],
      elim conjE, rule fleet_task_written [OF assms], assumption)
     (auto simp: service_active_def intro: validateTask_update_ok)

lemma fleet_task_Disable:
  assumes "fleet_inv (env_coll E) L (w_db w)"
  shows "fleet_inv (env_coll E) L (w_db (snd (TaskService_Disable E i actor md w)))"
proof (rule all_or_nothing_invariant [where I = "fleet_inv (env_coll E) L", OF service_Disable assms],
    rule fleet_task_written [OF assms], assumption)
  fix t assume "t \<in> set (T_tasks (w_db w))"
  then show "\<exists>s\<in>set (T_services (w_db w)). Svc_ID s = Task_ServiceID (task_disabled actor t) \<and>
      (Task_Status (task_disabled actor t) = TaskActive \<longrightarrow> Svc_Status s = StatusActive)"
    using assms by (fastforce simp: fleet_inv_def tasks_supported_def task_disabled_def)
qed (auto simp: task_disabled_def task_ok_def task_limits_def)

end
