(* ===== verification/ProbeScheduling.thy ===== *)
theory ProbeScheduling
  imports ProbeTaskService
begin

text \<open>
  What \<open>ScheduleDue\<close>, \<open>QueuedBefore\<close>, \<open>Acquire\<close> and \<open>MarkFinal\<close> of
  \<open>internal/probe/repository.go\<close> do to the tables of tasks and executions.
\<close>

section \<open>One scheduled task\<close>

text \<open>The stored execution and the message of a due row.\<close>

definition queued_for :: "env \<Rightarrow> dueRow \<Rightarrow> ExecutionMessage \<Rightarrow> Execution \<Rightarrow> bool" where
  "queued_for E row m x \<longleftrightarrow>
     (\<exists>k c. x = tb_store (results_table E) ((new_execution (Msg_ExecutionID m) row)
        \<lparr>Exec_ID := k, Exec_CreatedAt := c, Exec_UpdatedAt := c\<rparr>)) \<and>
     Msg_TaskID m = Task_ID (due_Task row) \<and> Msg_ScheduledAt m = Task_NextRunAt (due_Task row)"

definition task_advanced :: "env \<Rightarrow> time \<Rightarrow> u64 set \<Rightarrow> Task \<Rightarrow> Task \<Rightarrow> bool" where
  "task_advanced E now ids t t' \<longleftrightarrow>
     (if Task_ID t \<in> ids
      then \<exists>u. t' = t\<lparr>Task_LastScheduledAt := Some (env_col3 E (Task_NextRunAt t)),
             Task_NextRunAt := env_col3 E (next_run now t), Task_UpdatedAt := u\<rparr>
      else t' = t)"

definition due_ids :: "dueRow list \<Rightarrow> u64 set" where
  "due_ids rows = (\<lambda>r. Task_ID (due_Task r)) ` set rows"

text \<open>
  The effect of a round on the database: the executions are appended, the tasks advance,
  and nothing else changes.
\<close>

definition scheduled :: "env \<Rightarrow> time \<Rightarrow> dueRow list \<Rightarrow> db \<Rightarrow> ExecutionMessage list \<Rightarrow> db \<Rightarrow> bool" where
  "scheduled E now rows d msgs d' \<longleftrightarrow>
     (\<exists>news ts. d' = d\<lparr>T_tasks := ts, T_results := T_results d @ news\<rparr> \<and>
        list_all2 (\<lambda>(row, m) x. queued_for E row m x) (zip rows msgs) news \<and>
        length msgs = length rows \<and>
        list_all2 (task_advanced E now (due_ids rows)) (T_tasks d) ts) \<and>
     (unique_by (execution_uk (env_coll E)) (T_results d) \<longrightarrow>
        unique_by (execution_uk (env_coll E)) (T_results d')) \<and>
     (distinct (map Exec_ID (T_results d)) \<longrightarrow> distinct (map Exec_ID (T_results d')))"

lemma task_advanced_id: "task_advanced E now ids t t' \<Longrightarrow> Task_ID t' = Task_ID t"
  by (auto simp: task_advanced_def split: if_splits)

lemma task_advanced_ids:
  "list_all2 (task_advanced E now ids) ts ts' \<Longrightarrow> map Task_ID ts' = map Task_ID ts"
  by (induction rule: list_all2_induct) (simp_all add: task_advanced_id)

lemma schedule_row_effect:
  assumes run: "schedule_row E now row w = (Inr m, w')"
    and mem: "due_Task row \<in> set (T_tasks (w_db w))"
    and dist: "distinct (map Task_ID (T_tasks (w_db w)))"
  shows "scheduled E now [row] (w_db w) [m] (w_db w')"
proof -
  let ?f = "\<lambda>u t. t\<lparr>Task_LastScheduledAt := Some (env_col3 E (Task_NextRunAt (due_Task row))),
          Task_NextRunAt := env_col3 E (next_run now (due_Task row)), Task_UpdatedAt := u\<rparr>"
  obtain i w1 x w2 n where
    ins: "tb_create E (results_table E)
       (\<lambda>k c. (new_execution i row)\<lparr>Exec_ID := k, Exec_CreatedAt := c, Exec_UpdatedAt := c\<rparr>) w1 = (Inr x, w2)"
    and w1: "w_db w1 = w_db w"
    and upd: "tb_update_where E (tasks_table E) (\<lambda>t. Task_ID t = Task_ID (due_Task row)) ?f w2 = (Inr n, w')"
    and m: "m = \<lparr>Msg_ExecutionID = i, Msg_TaskID = Task_ID (due_Task row),
        Msg_ScheduledAt = Task_NextRunAt (due_Task row)\<rparr>"
    using run unfolding schedule_row_def
    by (auto simp: executionID_def rand_read_def elim!: op_bind_Inr)
  obtain d1 where row: "insert_row E (results_table E)
       (\<lambda>k c. (new_execution i row)\<lparr>Exec_ID := k, Exec_CreatedAt := c, Exec_UpdatedAt := c\<rparr>)
       (w_tick w1) (w_db w1) = Inr (x, d1)" and w2: "w_db w2 = d1"
    using ins by (auto simp: tb_Inr)
  obtain d2 where up: "update_rows E (tasks_table E) (\<lambda>t. Task_ID t = Task_ID (due_Task row)) ?f
       (w_tick w2) d1 = Inr (n, d2)" and w': "w_db w' = d2"
    using upd w2 by (auto simp: tb_Inr)
  define u where "u = env_col3 E (env_clock E (w_tick w2))"
  define ts where "ts = map (\<lambda>t. if Task_ID t = Task_ID (due_Task row) then ?f u t else t) (T_tasks (w_db w))"
  have d1: "d1 = (w_db w)\<lparr>T_results := T_results (w_db w) @ [tb_store (results_table E) x]\<rparr>"
    using results.insert_row_Inr(2) [OF row] w1 by simp
  have d2: "d2 = (w_db w)\<lparr>T_tasks := ts, T_results := T_results (w_db w) @ [tb_store (results_table E) x]\<rparr>"
    using tasks.update_rows_Inr(1) [OF up] by (simp add: d1 ts_def u_def)
  have q: "queued_for E row m (tb_store (results_table E) x)"
    using results.insert_row_Inr(4) [OF row] m unfolding queued_for_def by auto
  have same: "t = due_Task row" if "t \<in> set (T_tasks (w_db w))" "Task_ID t = Task_ID (due_Task row)" for t
    using distinct_map_unique [OF dist that(1) mem that(2)] .
  have "list_all2 (task_advanced E now (due_ids [row])) (T_tasks (w_db w)) ts"
    unfolding ts_def list_all2_map2
    by (rule list_all2_same [THEN iffD2, rule_format]) (use same in \<open>auto simp: task_advanced_def due_ids_def next_run_def\<close>)
  moreover have "unique_by (execution_uk (env_coll E)) (T_results d2)"
    if "unique_by (execution_uk (env_coll E)) (T_results (w_db w))"
    using results.insert_row_unique [OF row] that w1 d1 d2 by simp
  moreover have "distinct (map Exec_ID (T_results d2))" if "distinct (map Exec_ID (T_results (w_db w)))"
    using results.insert_row_distinct [OF row] results.insert_row_Inr(4) [OF row] that w1 d1 d2 by simp
  ultimately show ?thesis
    unfolding scheduled_def w' using d2 q by force
qed

section \<open>A whole round\<close>

lemma task_advanced_trans:
  assumes "task_advanced E now A t t1" and "task_advanced E now B t1 t2" and "Task_ID t \<notin> A \<or> Task_ID t \<notin> B"
  shows "task_advanced E now (A \<union> B) t t2"
  using assms task_advanced_id [OF assms(1)] by (auto simp: task_advanced_def split: if_splits)

lemma task_advanced_lists:
  assumes "list_all2 (task_advanced E now A) ts ts1" and "list_all2 (task_advanced E now B) ts1 ts2"
    and "A \<inter> B = {}"
  shows "list_all2 (task_advanced E now (A \<union> B)) ts ts2"
  by (rule list_all2_trans [OF _ assms(1,2)]) (use assms(3) in \<open>auto intro: task_advanced_trans\<close>)

lemma scheduled_Nil: "scheduled E now [] d [] d"
proof -
  have "list_all2 (task_advanced E now (due_ids [])) (T_tasks d) (T_tasks d)"
    by (rule list_all2_same [THEN iffD2, rule_format]) (simp add: task_advanced_def due_ids_def)
  then show ?thesis unfolding scheduled_def
    by (auto intro!: exI [of _ "[]"] exI [of _ "T_tasks d"])
qed

lemma scheduled_Cons:
  assumes one: "scheduled E now [row] d [m] d1" and rest: "scheduled E now rows d1 ms d'"
    and new: "Task_ID (due_Task row) \<notin> due_ids rows"
  shows "scheduled E now (row # rows) d (m # ms) d'"
proof -
  obtain x ts1 where d1: "d1 = d\<lparr>T_tasks := ts1, T_results := T_results d @ [x]\<rparr>"
    and q: "queued_for E row m x" and t1: "list_all2 (task_advanced E now (due_ids [row])) (T_tasks d) ts1"
    using one unfolding scheduled_def by (auto simp: list_all2_Cons1)
  obtain news ts where d': "d' = d1\<lparr>T_tasks := ts, T_results := T_results d1 @ news\<rparr>"
    and qs: "list_all2 (\<lambda>(row, m) x. queued_for E row m x) (zip rows ms) news"
    and len: "length ms = length rows"
    and t2: "list_all2 (task_advanced E now (due_ids rows)) (T_tasks d1) ts"
    using rest unfolding scheduled_def by blast
  have "list_all2 (task_advanced E now (due_ids (row # rows))) (T_tasks d) ts"
    using task_advanced_lists [OF t1 t2 [unfolded d1, simplified]] new by (simp add: due_ids_def)
  moreover have "d' = d\<lparr>T_tasks := ts, T_results := T_results d @ (x # news)\<rparr>"
    by (simp add: d' d1)
  moreover have "unique_by (execution_uk (env_coll E)) (T_results d) \<longrightarrow>
      unique_by (execution_uk (env_coll E)) (T_results d')"
    using one rest unfolding scheduled_def by blast
  moreover have "distinct (map Exec_ID (T_results d)) \<longrightarrow> distinct (map Exec_ID (T_results d'))"
    using one rest unfolding scheduled_def by blast
  ultimately show ?thesis
    unfolding scheduled_def using q qs len by (intro conjI exI [of _ "x # news"] exI [of _ ts]) auto
qed

lemma schedule_rows_effect:
  "schedule_rows E now rows w = (Inr ms, w') \<Longrightarrow> \<forall>row\<in>set rows. due_Task row \<in> set (T_tasks (w_db w)) \<Longrightarrow>
   distinct (map (\<lambda>r. Task_ID (due_Task r)) rows) \<Longrightarrow> distinct (map Task_ID (T_tasks (w_db w))) \<Longrightarrow>
   scheduled E now rows (w_db w) ms (w_db w')"
proof (induction rows arbitrary: w ms)
  case Nil
  then show ?case by (simp add: scheduled_Nil)
next
  case (Cons row rows)
  obtain m w1 ms' where one: "schedule_row E now row w = (Inr m, w1)"
    and rest: "schedule_rows E now rows w1 = (Inr ms', w')" and ms: "ms = m # ms'"
    using Cons.prems(1) by (auto elim!: op_bind_Inr)
  have eff: "scheduled E now [row] (w_db w) [m] (w_db w1)"
    using schedule_row_effect [OF one] Cons.prems by simp
  then obtain ts where ts: "T_tasks (w_db w1) = ts"
    and adv: "list_all2 (task_advanced E now (due_ids [row])) (T_tasks (w_db w)) ts"
    unfolding scheduled_def by auto
  have keep: "due_Task r \<in> set (T_tasks (w_db w1))" if r: "r \<in> set rows" for r
  proof -
    have "due_Task r \<in> set (T_tasks (w_db w))" using Cons.prems(2) r by simp
    then obtain i where i: "i < length (T_tasks (w_db w))" "T_tasks (w_db w) ! i = due_Task r"
      unfolding in_set_conv_nth by blast
    have "task_advanced E now (due_ids [row]) (due_Task r) (ts ! i)"
      using list_all2_nthD [OF adv i(1)] i(2) by simp
    then have "ts ! i = due_Task r"
      using Cons.prems(3) r by (auto simp: task_advanced_def due_ids_def image_iff)
    then show ?thesis using ts i(1) list_all2_lengthD [OF adv] nth_mem by metis
  qed
  have "distinct (map Task_ID (T_tasks (w_db w1)))"
    using task_advanced_ids [OF adv] ts Cons.prems(4) by simp
  then have "scheduled E now rows (w_db w1) ms' (w_db w')"
    using Cons.IH [OF rest] keep Cons.prems(3) by simp
  then show ?case
    unfolding ms by (rule scheduled_Cons [OF eff]) (use Cons.prems(3) in \<open>auto simp: due_ids_def\<close>)
qed

section \<open>The due rows\<close>

text \<open>A due row joins an active, due, unlocked task with its active service.\<close>

definition due_row_ok :: "env \<Rightarrow> time \<Rightarrow> nat \<Rightarrow> db \<Rightarrow> dueRow \<Rightarrow> bool" where
  "due_row_ok E now t d row \<longleftrightarrow>
     due_Task row \<in> set (T_tasks d) \<and> Task_Status (due_Task row) = TaskActive \<and>
     Task_NextRunAt (due_Task row) \<le> now \<and> \<not> env_locked E t (Task_ID (due_Task row)) \<and>
     (\<exists>s\<in>set (T_services d). Svc_ID s = Task_ServiceID (due_Task row) \<and> Svc_Status s = StatusActive \<and>
        due_ServiceType row = Svc_Type s \<and> due_Target row = Svc_Target s)"

lemma set_limit_rows: "set (limit_rows n rs) \<subseteq> set rs"
  by (auto simp: limit_rows_def dest: in_set_takeD)

lemma distinct_limit_rows: "distinct (map f rs) \<Longrightarrow> distinct (map f (limit_rows n rs))"
  by (simp add: limit_rows_def take_map [symmetric])

lemma due_rows_ok: "row \<in> set (due_rows E batch now t d) \<Longrightarrow> due_row_ok E now t d row"
  using set_limit_rows by (fastforce simp: due_rows_def Let_def due_row_ok_def)

lemma distinct_map_filter': "distinct (map f xs) \<Longrightarrow> distinct (map f (filter p xs))"
  by (induction xs) auto

lemma distinct_concat_keys:
  assumes "distinct (map k ts)"
    and "\<And>t. t \<in> set ts \<Longrightarrow> length (f t) \<le> 1" and "\<And>t r. t \<in> set ts \<Longrightarrow> r \<in> set (f t) \<Longrightarrow> g r = k t"
  shows "distinct (map g (concat (map f ts)))"
  using assms
proof (induction ts)
  case Nil
  then show ?case by simp
next
  case (Cons t ts)
  have "distinct (map g (f t))"
    using Cons.prems(2) [of t] by (cases "f t") auto
  moreover have "g ` set (f t) \<inter> g ` set (concat (map f ts)) = {}"
    using Cons.prems(1,3) by (fastforce simp: image_iff)
  ultimately show ?case using Cons by auto
qed

lemma due_rows_distinct:
  assumes "distinct (map Task_ID (T_tasks d))" and "distinct (map Svc_ID (T_services d))"
  shows "distinct (map (\<lambda>r. Task_ID (due_Task r)) (due_rows E batch now t d))"
proof -
  let ?k = "\<lambda>r. Task_ID (due_Task r)"
  let ?ss = "\<lambda>pt. filter (\<lambda>s. Svc_ID s = Task_ServiceID pt \<and> Svc_Status s = StatusActive) (T_services d)"
  let ?f = "\<lambda>pt. map (\<lambda>s. \<lparr>due_Task = pt, due_ServiceType = Svc_Type s, due_Target = Svc_Target s\<rparr>) (?ss pt)"
  let ?ts = "filter (\<lambda>pt. Task_Status pt = TaskActive \<and> Task_NextRunAt pt \<le> now) (T_tasks d)"
  have one: "length (?ss pt) \<le> 1" for pt
  proof -
    have "distinct (map Svc_ID (?ss pt))" using assms(2) by (rule distinct_map_filter')
    moreover have "set (map Svc_ID (?ss pt)) \<subseteq> {Task_ServiceID pt}" by auto
    ultimately have "card (set (map Svc_ID (?ss pt))) \<le> 1 \<and>
        length (map Svc_ID (?ss pt)) = card (set (map Svc_ID (?ss pt)))"
      using card_mono [of "{Task_ServiceID pt}"] distinct_card by fastforce
    then show ?thesis by simp
  qed
  have "distinct (map ?k (concat (map ?f ?ts)))"
    by (rule distinct_concat_keys [where k = Task_ID]) (use assms(1) one in \<open>auto simp: distinct_map_filter'\<close>)
  then show ?thesis
    by (auto simp: due_rows_def Let_def distinct_map intro!: distinct_limit_rows [unfolded distinct_map]
        intro: inj_on_subset)
qed

lemma due_rows_length: "0 \<le> batch \<Longrightarrow> length (due_rows E batch now t d) \<le> nat batch"
  by (simp add: due_rows_def Let_def limit_rows_def)

text \<open>A round of the scheduler as a whole.\<close>

lemma ScheduleDue_effect:
  assumes "distinct (map Task_ID (T_tasks (w_db w)))" and "distinct (map Svc_ID (T_services (w_db w)))"
  shows "all_or_nothing w_db (ProbeRepo_ScheduleDue E batch now) w
     (\<lambda>msgs d. \<exists>rows t. rows = due_rows E batch now t (w_db w) \<and> scheduled E now rows (w_db w) msgs d)"
  unfolding ProbeRepo_ScheduleDue_def
proof (rule transaction_all_or_nothing)
  fix msgs w1
  assume "op_bind (db_stmt E (\<lambda>t d. Inr (due_rows E batch now t d, d))) (schedule_rows E now) (tick w) = (Inr msgs, w1)"
  then obtain w2 where run: "schedule_rows E now (due_rows E batch now (Suc (w_tick w)) (w_db w)) w2 = (Inr msgs, w1)"
    and w2: "w_db w2 = w_db w"
    by (auto simp: db_stmt_Inr elim!: op_bind_Inr)
  let ?rows = "due_rows E batch now (Suc (w_tick w)) (w_db w)"
  have "scheduled E now ?rows (w_db w2) msgs (w_db w1)"
    using schedule_rows_effect [OF run] due_rows_ok due_rows_distinct [OF assms] assms(1)
    unfolding w2 due_row_ok_def by blast
  then show "\<exists>rows t. rows = due_rows E batch now t (w_db w) \<and> scheduled E now rows (w_db w) msgs (w_db w1)"
    by (auto simp: w2)
qed

end
