(* ===== verification/ExecutionLedger.thy ===== *)
theory ExecutionLedger
  imports ProbeScheduling
begin

text \<open>
  The life of an execution row: queued, running, then succeeded or failed. The legal steps
  of a row as an inductive relation, the well-formedness of rows, and the proof that the
  operations of the probe repository move rows only along these steps.
\<close>

section \<open>Steps of a row\<close>

definition terminal :: "Execution \<Rightarrow> bool" where
  "terminal x \<longleftrightarrow> Exec_Status x = ExecutionSuccess \<or> Exec_Status x = ExecutionFailed"

definition acquired_row :: "env \<Rightarrow> string \<Rightarrow> time \<Rightarrow> time \<Rightarrow> Execution \<Rightarrow> Execution" where
  "acquired_row E consumer started now x = x\<lparr>Exec_Status := ExecutionRunning,
     Exec_StartedAt := Some (env_col3 E started), Exec_WorkerConsumer := Some consumer,
     Exec_UpdatedAt := now\<rparr>"

inductive exec_step :: "env \<Rightarrow> Execution \<Rightarrow> Execution \<Rightarrow> bool" for E where
  acquire: "Exec_Status x = ExecutionQueued \<or> Exec_Status x = ExecutionRunning \<Longrightarrow>
     exec_step E x (acquired_row E consumer started now x)"
| finish: "Exec_Status x = ExecutionRunning \<Longrightarrow> 1 \<le> attempts \<Longrightarrow>
     exec_step E x (finished_row E finished duration result attempts now x)"

inductive_cases exec_stepE: "exec_step E x y"

lemma exec_step_from_terminal: "exec_step E x y \<Longrightarrow> \<not> terminal x"
  by (auto simp: terminal_def elim!: exec_stepE)

lemma exec_step_snapshot:
  "exec_step E x y \<Longrightarrow> Exec_ID y = Exec_ID x \<and> Exec_ExecutionID y = Exec_ExecutionID x \<and>
     Exec_TaskID y = Exec_TaskID x \<and> Exec_ServiceID y = Exec_ServiceID x \<and>
     Exec_ProbeType y = Exec_ProbeType x \<and> Exec_TargetSnapshot y = Exec_TargetSnapshot x \<and>
     Exec_ScheduledAt y = Exec_ScheduledAt x"
  by (auto simp: acquired_row_def finished_row_def elim!: exec_stepE)

text \<open>What a row says of its state.\<close>

definition exec_ok :: "Execution \<Rightarrow> bool" where
  "exec_ok x \<longleftrightarrow>
     (Exec_Status x = ExecutionQueued \<and> Exec_StartedAt x = None \<and> Exec_WorkerConsumer x = None \<and>
        Exec_FinishedAt x = None \<and> Exec_Success x = None \<and> Exec_AttemptCount x = 0) \<or>
     (Exec_Status x = ExecutionRunning \<and> Exec_StartedAt x \<noteq> None \<and> Exec_WorkerConsumer x \<noteq> None \<and>
        Exec_FinishedAt x = None \<and> Exec_Success x = None \<and> Exec_AttemptCount x = 0) \<or>
     (terminal x \<and> Exec_StartedAt x \<noteq> None \<and> Exec_WorkerConsumer x \<noteq> None \<and>
        Exec_FinishedAt x \<noteq> None \<and> Exec_Success x = Some (Exec_Status x = ExecutionSuccess) \<and>
        1 \<le> Exec_AttemptCount x \<and> Exec_HTTPStatusCode x \<noteq> Some 0 \<and> Exec_ErrorCode x \<noteq> Some [] \<and>
        (\<forall>m. Exec_ErrorMessage x = Some m \<longrightarrow> m \<noteq> [] \<and> length m \<le> 1024))"

lemma acquired_ok:
  "exec_ok x \<Longrightarrow> Exec_Status x = ExecutionQueued \<or> Exec_Status x = ExecutionRunning \<Longrightarrow>
     exec_ok (acquired_row E consumer started now x)"
  by (auto simp: exec_ok_def acquired_row_def terminal_def)

lemma finished_ok:
  "exec_ok x \<Longrightarrow> Exec_Status x = ExecutionRunning \<Longrightarrow> 1 \<le> attempts \<Longrightarrow>
     exec_ok (finished_row E finished duration result attempts now x)"
  unfolding exec_ok_def terminal_def finished_row_def
  by (simp add: nullableInt_def nullableString_def truncate_bytes_def)

lemma exec_step_ok: "exec_step E x y \<Longrightarrow> exec_ok x \<Longrightarrow> exec_ok y"
  by (induction rule: exec_step.induct) (auto intro: acquired_ok finished_ok)

lemma queued_for_ok: "queued_for E row m x \<Longrightarrow> exec_ok x \<and> Exec_Status x = ExecutionQueued"
  by (auto simp: queued_for_def results_table_def new_execution_def exec_ok_def col3_opt_def)

section \<open>The ledger of executions\<close>

text \<open>
  How the table of executions may evolve in one statement or transaction: rows take at most
  one step each, and new queued rows are added.
\<close>

definition ledger_step :: "env \<Rightarrow> db \<Rightarrow> db \<Rightarrow> bool" where
  "ledger_step E d d' \<longleftrightarrow>
     (\<exists>rs news. T_results d' = rs @ news \<and>
        list_all2 (\<lambda>x y. y = x \<or> exec_step E x y) (T_results d) rs \<and>
        (\<forall>x\<in>set news. exec_ok x \<and> Exec_Status x = ExecutionQueued)) \<and>
     (unique_by (execution_uk (env_coll E)) (T_results d) \<longrightarrow>
        unique_by (execution_uk (env_coll E)) (T_results d'))"

lemma ledger_step_same: "T_results d' = T_results d \<Longrightarrow> ledger_step E d d'"
  unfolding ledger_step_def
  by (intro conjI exI [of _ "T_results d"] exI [of _ "[]"]) (auto simp: list_all2_same)

lemma ledger_scheduled: "scheduled E now rows d msgs d' \<Longrightarrow> ledger_step E d d'"
proof -
  assume eff: "scheduled E now rows d msgs d'"
  then obtain news where rs: "T_results d' = T_results d @ news"
    and q: "list_all2 (\<lambda>(row, m) x. queued_for E row m x) (zip rows msgs) news"
    unfolding scheduled_def by auto
  have "\<forall>x\<in>set news. exec_ok x \<and> Exec_Status x = ExecutionQueued"
    using list_all2_mem2 [OF q] queued_for_ok by fastforce
  then show ?thesis
    using eff rs unfolding ledger_step_def scheduled_def
    by (intro conjI exI [of _ "T_results d"] exI [of _ news]) (auto simp: list_all2_same)
qed

lemma ledger_map:
  assumes "T_results d' = map (\<lambda>x. if p x then f x else x) (T_results d)"
    and "\<And>x. x \<in> set (T_results d) \<Longrightarrow> p x \<Longrightarrow> exec_step E x (f x)"
  shows "ledger_step E d d'"
proof -
  let ?g = "\<lambda>x. if p x then f x else x"
  have key: "Exec_ExecutionID (?g x) = Exec_ExecutionID x" if "x \<in> set (T_results d)" for x
    using exec_step_snapshot [OF assms(2) [OF that]] by auto
  have st: "list_all2 (\<lambda>x y. y = x \<or> exec_step E x y) (T_results d) (map ?g (T_results d))"
    unfolding list_all2_map2 by (rule list_all2_same [THEN iffD2, rule_format]) (use assms(2) in auto)
  have "map (execution_uk (env_coll E)) (map ?g (T_results d)) = map (execution_uk (env_coll E)) (T_results d)"
    using key by (simp add: execution_uk_def)
  then have uk: "unique_by (execution_uk (env_coll E)) (map ?g (T_results d)) =
      unique_by (execution_uk (env_coll E)) (T_results d)"
    by (simp only: unique_by_def)
  show ?thesis
    unfolding ledger_step_def assms(1) uk
    using st by (intro conjI exI [of _ "map ?g (T_results d)"] exI [of _ "[]"]) simp_all
qed

text \<open>\<open>Acquire\<close> and \<open>MarkFinal\<close> rewrite the rows that their conditions select.\<close>

lemma Acquire_effect:
  "all_or_nothing w_db (ProbeRepo_Acquire E i consumer started staleBefore) w
     (\<lambda>b d. \<exists>u. d = (w_db w)\<lparr>T_results := map (\<lambda>x. if acquirable E i staleBefore x
          then acquired_row E consumer started u x else x) (T_results (w_db w))\<rparr> \<and>
        (b \<longrightarrow> (\<exists>x\<in>set (T_results (w_db w)). acquirable E i staleBefore x)))"
  (is "all_or_nothing _ _ _ ?P")
proof -
  let ?T = "transaction E (tb_update_where E (results_table E) (acquirable E i staleBefore)
       (\<lambda>now x. x\<lparr>Exec_Status := ExecutionRunning, Exec_StartedAt := Some (env_col3 E started),
          Exec_WorkerConsumer := Some consumer, Exec_UpdatedAt := now\<rparr>))"
  have "all_or_nothing w_db ?T w (\<lambda>n. ?P (n = 1))"
  proof (rule transaction_all_or_nothing)
    fix n w1
    assume "tb_update_where E (results_table E) (acquirable E i staleBefore)
       (\<lambda>now x. x\<lparr>Exec_Status := ExecutionRunning, Exec_StartedAt := Some (env_col3 E started),
          Exec_WorkerConsumer := Some consumer, Exec_UpdatedAt := now\<rparr>) (tick w) = (Inr n, w1)"
    then obtain d where up: "update_rows E (results_table E) (acquirable E i staleBefore)
       (\<lambda>now x. acquired_row E consumer started now x) (Suc (w_tick w)) (w_db w) = Inr (n, d)"
      and d: "w_db w1 = d"
      by (auto simp: tb_Inr acquired_row_def)
    show "?P (n = 1) (w_db w1)"
      using results.update_rows_Inr(1) [OF up] results.update_rows_some_row [OF up]
      unfolding d by auto
  qed
  then show ?thesis
    unfolding ProbeRepo_Acquire_def
    by (auto simp: all_or_nothing_def op_bind_def split: prod.splits sum.splits)
qed

lemma MarkFinal_effect:
  "all_or_nothing w_db (ProbeRepo_MarkFinal E i consumer finished duration result attempts) w
     (\<lambda>_ d. \<exists>u. d = (w_db w)\<lparr>T_results := map (\<lambda>x. if finishable E i consumer x
          then finished_row E finished duration result attempts u x else x) (T_results (w_db w))\<rparr>)"
  (is "all_or_nothing _ _ _ (\<lambda>_. ?P)")
proof -
  let ?T = "transaction E (tb_update_where E (results_table E) (finishable E i consumer)
       (finished_row E finished duration result attempts))"
  have "all_or_nothing w_db ?T w (\<lambda>_. ?P)"
  proof (rule transaction_all_or_nothing)
    fix n w1
    assume "tb_update_where E (results_table E) (finishable E i consumer)
       (finished_row E finished duration result attempts) (tick w) = (Inr n, w1)"
    then obtain d where up: "update_rows E (results_table E) (finishable E i consumer)
       (finished_row E finished duration result attempts) (Suc (w_tick w)) (w_db w) = Inr (n, d)"
      and d: "w_db w1 = d"
      by (auto simp: tb_Inr)
    show "?P (w_db w1)" using results.update_rows_Inr(1) [OF up] unfolding d by auto
  qed
  then show ?thesis
    unfolding ProbeRepo_MarkFinal_def
    by (auto simp: all_or_nothing_def op_bind_def op_when_fail_def split: prod.splits sum.splits)
qed

lemma ledger_all_or_nothing:
  assumes "all_or_nothing w_db m w P" and "\<And>x d. P x d \<Longrightarrow> ledger_step E (w_db w) d"
  shows "ledger_step E (w_db w) (w_db (snd (m w)))"
  by (rule all_or_nothing_invariant [where I = "ledger_step E (w_db w)", OF assms(1) _ assms(2)])
     (simp add: ledger_step_same)

lemma ledger_ScheduleDue:
  assumes "distinct (map Task_ID (T_tasks (w_db w)))" and "distinct (map Svc_ID (T_services (w_db w)))"
  shows "ledger_step E (w_db w) (w_db (snd (ProbeRepo_ScheduleDue E batch now w)))"
  by (rule ledger_all_or_nothing [OF ScheduleDue_effect [OF assms]]) (auto intro: ledger_scheduled)

lemma ledger_Acquire:
  "ledger_step E (w_db w) (w_db (snd (ProbeRepo_Acquire E i consumer started staleBefore w)))"
  by (rule ledger_all_or_nothing [OF Acquire_effect])
     (auto simp: acquirable_def intro!: ledger_map [where p = "acquirable E i staleBefore"] exec_step.acquire)

lemma ledger_MarkFinal:
  "1 \<le> attempts \<Longrightarrow>
   ledger_step E (w_db w) (w_db (snd (ProbeRepo_MarkFinal E i consumer finished duration result attempts w)))"
  by (rule ledger_all_or_nothing [OF MarkFinal_effect])
     (auto simp: finishable_def intro!: ledger_map [where p = "finishable E i consumer"] exec_step.finish)

section \<open>Consequences\<close>

lemma ledger_terminal_kept:
  assumes "ledger_step E d d'" and "x \<in> set (T_results d)" and "terminal x"
  shows "x \<in> set (T_results d')"
proof -
  obtain rs news where rs: "T_results d' = rs @ news"
    and st: "list_all2 (\<lambda>x y. y = x \<or> exec_step E x y) (T_results d) rs"
    using assms(1) unfolding ledger_step_def by blast
  obtain i where i: "i < length (T_results d)" "T_results d ! i = x"
    using assms(2) by (auto simp: in_set_conv_nth)
  then have "rs ! i = x"
    using list_all2_nthD [OF st i(1)] exec_step_from_terminal assms(3) by auto
  then have "x \<in> set rs"
    using i(1) list_all2_lengthD [OF st] nth_mem by metis
  then show ?thesis by (simp add: rs)
qed

lemma ledger_ok_kept:
  assumes "ledger_step E d d'" and "\<forall>x\<in>set (T_results d). exec_ok x"
  shows "\<forall>x\<in>set (T_results d'). exec_ok x"
proof -
  obtain rs news where rs: "T_results d' = rs @ news"
    and st: "list_all2 (\<lambda>x y. y = x \<or> exec_step E x y) (T_results d) rs"
    and new: "\<forall>x\<in>set news. exec_ok x" using assms(1) unfolding ledger_step_def by blast
  have "exec_ok y" if "y \<in> set rs" for y
    using list_all2_mem2 [OF st that] assms(2) exec_step_ok by blast
  then show ?thesis using new rs by auto
qed

end
