(* ===== verification/ProbeExecution.thy ===== *)
theory ProbeExecution
  imports GoNet ProbeRepository
begin

text \<open>
  The execution of one probe: the retry loop (\<open>internal/probe/execution.go\<close>), the
  network policy (\<open>network_policy.go\<close>), the TCP probe (\<open>tcp_probe.go\<close>) and the
  HTTP probe (\<open>http_probe.go\<close>). The network itself is a parameter: a record of
  functions on a state \<open>'w\<close>. The run of the HTTP client of the standard library is an
  interaction tree whose nodes are its calls of the callbacks that the program installs.
\<close>

section \<open>The retry loop\<close>

record Target =
  Target_Type :: string
  Target_Address :: string

type_synonym 'w probe = "duration \<Rightarrow> Target \<Rightarrow> 'w \<Rightarrow> (Result \<times> go_error option) \<times> 'w"

text \<open>Waiting for a timer: \<open>None\<close> when it fired, the error of the context when that ended first.\<close>

type_synonym 'w waiting = "duration \<Rightarrow> 'w \<Rightarrow> go_error option \<times> 'w"

definition zero_result :: Result where
  "zero_result = \<lparr>Res_Success = False, Res_HTTPStatusCode = 0, Res_ErrorCode = [], Res_ErrorMessage = []\<rparr>"

definition retryable :: "Result \<Rightarrow> go_error option \<Rightarrow> bool" where
  "retryable result err =
     (if (case err of None \<Rightarrow> False | Some e \<Rightarrow> foreign_is fx_canceled e) then False
      else if Res_HTTPStatusCode result \<ge> 400 \<and> Res_HTTPStatusCode result < 500 then False
      else if Res_HTTPStatusCode result \<ge> 500 then True
      else if Res_ErrorCode result \<in> set [''dns_error'', ''connection_refused'', ''timeout'',
                ''tls_error'', ''network_error''] then True
      else err \<noteq> None)"

definition with_message :: "Result \<Rightarrow> go_error option \<Rightarrow> Result" where
  "with_message current err =
     (case err of
        None \<Rightarrow> current
      | Some e \<Rightarrow> if Res_ErrorMessage current = [] then current\<lparr>Res_ErrorMessage := err_text e\<rparr>
                  else current)"

definition retry_delay :: "duration \<Rightarrow> int \<Rightarrow> duration" where
  "retry_delay baseDelay attempt = wrap64 (baseDelay * wrap64 (2 ^ nat attempt))"

definition stop_retrying :: "int \<Rightarrow> int \<Rightarrow> Result \<Rightarrow> go_error option \<Rightarrow> bool" where
  "stop_retrying maxRetries attempt result err \<longleftrightarrow>
     Res_Success result \<or> \<not> retryable result err \<or> attempt = maxRetries"

function retry_loop ::
  "'w probe \<Rightarrow> 'w waiting \<Rightarrow> Target \<Rightarrow> duration \<Rightarrow> int \<Rightarrow> duration \<Rightarrow> int \<Rightarrow> Result \<Rightarrow> 'w \<Rightarrow>
     (Result \<times> int) \<times> 'w" where
  "retry_loop implementation waitFor target timeout maxRetries baseDelay attempt result w =
     (if attempt \<le> maxRetries then
        (case implementation timeout target w of
           ((current, err), w1) \<Rightarrow>
             let result = with_message current err
             in if stop_retrying maxRetries attempt result err then ((result, attempt + 1), w1)
                else (case waitFor (retry_delay baseDelay attempt) w1 of
                        (Some e, w2) \<Rightarrow>
                          ((zero_result\<lparr>Res_ErrorCode := ''network_error'', Res_ErrorMessage := err_text e\<rparr>,
                            attempt + 1), w2)
                      | (None, w2) \<Rightarrow>
                          retry_loop implementation waitFor target timeout maxRetries baseDelay
                            (attempt + 1) result w2))
      else ((result, maxRetries + 1), w))"
  by pat_completeness auto
termination
  by (relation "measure (\<lambda>(p, d, t, tm, m, b, a, r, w). nat (m + 1 - a))") auto

declare retry_loop.simps [simp del]

definition ExecuteWithRetry ::
  "'w probe \<Rightarrow> 'w waiting \<Rightarrow> Target \<Rightarrow> duration \<Rightarrow> int \<Rightarrow> duration \<Rightarrow> 'w \<Rightarrow> (Result \<times> int) \<times> 'w" where
  "ExecuteWithRetry implementation waitFor target timeout maxRetries baseDelay w =
     retry_loop implementation waitFor target timeout maxRetries baseDelay 0 zero_result w"

section \<open>The network policy\<close>

record NetworkPolicy =
  AllowPrivate :: bool
  AllowLoopback :: bool

text \<open>The network: name lookup, textual addresses, dialling, closing, building a request.\<close>

record 'w net =
  net_LookupIP :: "string \<Rightarrow> 'w \<Rightarrow> (go_error + ip list) \<times> 'w"
  net_ip_String :: "ip \<Rightarrow> string"
  net_DialContext :: "string \<Rightarrow> string \<Rightarrow> 'w \<Rightarrow> (go_error + unit) \<times> 'w"
  net_Close :: "'w \<Rightarrow> go_error option \<times> 'w"
  net_NewRequest :: "string \<Rightarrow> go_error option"

definition dns_no_addresses :: "string \<Rightarrow> go_error" where
  "dns_no_addresses host =
     Foreign ((plain_foreign (''lookup '' @ host @ '': no addresses''))
       \<lparr>fx_dns := True, fx_net_timeout := Some False\<rparr>)"

definition metadata_ip :: ip where
  "metadata_ip = v4_prefix @ [169, 254, 169, 254]"

definition policy_validate :: "NetworkPolicy \<Rightarrow> ip \<Rightarrow> go_error option" where
  "policy_validate p address =
     (if IsUnspecified address \<or> IsMulticast address \<or> IsLinkLocalUnicast address \<or>
         IsLinkLocalMulticast address \<or> ip_equal address metadata_ip
      then Some (Sentinel ProbeErrNetworkDenied)
      else if IsLoopback address \<and> \<not> AllowLoopback p then Some (Sentinel ProbeErrNetworkDenied)
      else if IsPrivate address \<and> \<not> AllowPrivate p then Some (Sentinel ProbeErrNetworkDenied)
      else None)"

fun validate_all :: "NetworkPolicy \<Rightarrow> ip list \<Rightarrow> go_error option" where
  "validate_all p [] = None"
| "validate_all p (a # as) =
     (case policy_validate p a of Some e \<Rightarrow> Some e | None \<Rightarrow> validate_all p as)"

definition Resolve :: "NetworkPolicy \<Rightarrow> 'w net \<Rightarrow> string \<Rightarrow> ('w, ip list) op" where
  "Resolve p N host =
     (case ParseIP host of
        Some literal \<Rightarrow>
          (case policy_validate p literal of Some e \<Rightarrow> op_fail e | None \<Rightarrow> op_return [literal])
      | None \<Rightarrow>
          op_bind (net_LookupIP N host) (\<lambda>addresses.
          if addresses = [] then op_fail (dns_no_addresses host)
          else case validate_all p addresses of
                 Some e \<Rightarrow> op_fail e
               | None \<Rightarrow> op_return addresses))"

section \<open>Classification of errors\<close>

definition err_mentions :: "golib \<Rightarrow> string \<Rightarrow> go_error \<Rightarrow> bool" where
  "err_mentions L part err \<longleftrightarrow> contains part (lib_ToLower L (err_text err))"

definition error_code :: "golib \<Rightarrow> go_error \<Rightarrow> string" where
  "error_code L err =
     (if errors_Is err ProbeErrNetworkDenied then ''network_denied''
      else if foreign_is fx_dns err then ''dns_error''
      else if foreign_is fx_deadline err then ''timeout''
      else if foreign_is (\<lambda>f. fx_net_timeout f = Some True) err then ''timeout''
      else if foreign_is fx_tls err \<or> err_mentions L ''tls'' err \<or> err_mentions L ''certificate'' err
      then ''tls_error''
      else if foreign_is fx_refused err \<or> err_mentions L ''connection refused'' err \<or>
        err_mentions L ''actively refused'' err
      then ''connection_refused''
      else ''network_error'')"

definition classified :: "golib \<Rightarrow> go_error \<Rightarrow> Result \<times> go_error option" where
  "classified L err =
     (\<lparr>Res_Success = False, Res_HTTPStatusCode = 0, Res_ErrorCode = error_code L err,
       Res_ErrorMessage = err_text err\<rparr>, Some err)"

section \<open>The TCP probe\<close>

text \<open>
  The loop over the resolved addresses: the first that accepts the connection, or the error
  of the last. The list is not empty when \<open>Resolve\<close> succeeded; \<open>last\<close> is \<open>nil\<close> before.
\<close>

fun dial_each ::
  "'w net \<Rightarrow> string \<Rightarrow> string \<Rightarrow> ip list \<Rightarrow> go_error option \<Rightarrow> 'w \<Rightarrow> (go_error option + unit) \<times> 'w" where
  "dial_each N network port [] lastErr w = (Inl lastErr, w)"
| "dial_each N network port (a # as) lastErr w =
     (case net_DialContext N network (JoinHostPort (net_ip_String N a) port) w of
        (Inr _, w') \<Rightarrow> (Inr (), w')
      | (Inl e, w') \<Rightarrow> dial_each N network port as (Some e) w')"

definition invalid_tcp :: "Result \<times> go_error option" where
  "invalid_tcp = (zero_result\<lparr>Res_ErrorCode := ''network_error'', Res_ErrorMessage := ''invalid TCP target''\<rparr>,
     Some (New ''invalid TCP target''))"

text \<open>The panic of \<open>classified(nil)\<close>, which dereferences the error; it is never reached.\<close>

definition nil_panic :: "Result \<times> go_error option" where
  "nil_panic = (zero_result\<lparr>Res_ErrorCode := ''panic''\<rparr>, Some (New ''nil pointer dereference''))"

definition TCPProbe_Execute :: "golib \<Rightarrow> NetworkPolicy \<Rightarrow> 'w net \<Rightarrow> 'w probe" where
  "TCPProbe_Execute L p N timeout target w =
     (case SplitHostPort (Target_Address target) of
        None \<Rightarrow> (invalid_tcp, w)
      | Some (host, port) \<Rightarrow>
          if host = [] \<or> port = [] then (invalid_tcp, w)
          else
            (case Resolve p N host w of
               (Inl err, w1) \<Rightarrow> (classified L err, w1)
             | (Inr addresses, w1) \<Rightarrow>
                 (case dial_each N ''tcp'' port addresses None w1 of
                    (Inr _, w2) \<Rightarrow>
                      (case net_Close N w2 of
                         (Some closeErr, w3) \<Rightarrow> (classified L closeErr, w3)
                       | (None, w3) \<Rightarrow> ((zero_result\<lparr>Res_Success := True\<rparr>, None), w3))
                  | (Inl None, w2) \<Rightarrow> (nil_panic, w2)
                  | (Inl (Some lastErr), w2) \<Rightarrow> (classified L lastErr, w2))))"

section \<open>The HTTP probe\<close>

text \<open>
  What \<open>client.Do\<close> does: it calls the dialler of the transport with a network and an
  address, or the redirect policy with the number of requests made and the host name of the
  next, any number of times, and ends with a response or an error.
\<close>

datatype http_run =
    HttpResponse int
  | HttpError go_error
  | HttpDial string string "go_error + unit \<Rightarrow> http_run"
  | HttpRedirect nat string "go_error option \<Rightarrow> http_run"

definition address_error :: "string \<Rightarrow> go_error" where
  "address_error address =
     Foreign ((plain_foreign (''address '' @ address @ '': cannot be split''))\<lparr>fx_net_timeout := Some False\<rparr>)"

definition http_DialContext ::
  "NetworkPolicy \<Rightarrow> 'w net \<Rightarrow> string \<Rightarrow> string \<Rightarrow> 'w \<Rightarrow> (go_error + unit) \<times> 'w" where
  "http_DialContext p N network address w =
     (case SplitHostPort address of
        None \<Rightarrow> (Inl (address_error address), w)
      | Some (host, port) \<Rightarrow>
          (case Resolve p N host w of
             (Inl err, w1) \<Rightarrow> (Inl err, w1)
           | (Inr addresses, w1) \<Rightarrow>
               (case dial_each N network port addresses None w1 of
                  (Inr _, w2) \<Rightarrow> (Inr (), w2)
                | (Inl None, w2) \<Rightarrow> (Inr (), w2)
                | (Inl (Some lastErr), w2) \<Rightarrow> (Inl lastErr, w2))))"

definition CheckRedirect ::
  "NetworkPolicy \<Rightarrow> 'w net \<Rightarrow> nat \<Rightarrow> string \<Rightarrow> 'w \<Rightarrow> go_error option \<times> 'w" where
  "CheckRedirect p N via host w =
     (if via \<ge> 5 then (Some (New ''redirect limit exceeded''), w)
      else case Resolve p N host w of
             (Inl err, w1) \<Rightarrow> (Some err, w1)
           | (Inr _, w1) \<Rightarrow> (None, w1))"

primrec run_http :: "NetworkPolicy \<Rightarrow> 'w net \<Rightarrow> http_run \<Rightarrow> 'w \<Rightarrow> (go_error + int) \<times> 'w" where
  "run_http p N (HttpResponse status) w = (Inr status, w)"
| "run_http p N (HttpError e) w = (Inl e, w)"
| "run_http p N (HttpDial network address k) w =
     (case http_DialContext p N network address w of (r, w1) \<Rightarrow> run_http p N (k r) w1)"
| "run_http p N (HttpRedirect via host k) w =
     (case CheckRedirect p N via host w of (r, w1) \<Rightarrow> run_http p N (k r) w1)"

definition http_failure :: "string \<Rightarrow> go_error \<Rightarrow> Result \<times> go_error option" where
  "http_failure msg err =
     (zero_result\<lparr>Res_ErrorCode := ''network_error'', Res_ErrorMessage := msg\<rparr>, Some err)"

definition http_outcome :: "int \<Rightarrow> Result \<times> go_error option" where
  "http_outcome status =
     (if status < 200 \<or> status > 399
      then (\<lparr>Res_Success = False, Res_HTTPStatusCode = status, Res_ErrorCode = ''http_status_error'',
              Res_ErrorMessage = ''HTTP status '' @ Itoa status\<rparr>, None)
      else (zero_result\<lparr>Res_Success := True, Res_HTTPStatusCode := status\<rparr>, None))"

definition HTTPProbe_Execute ::
  "golib \<Rightarrow> NetworkPolicy \<Rightarrow> 'w net \<Rightarrow> (duration \<Rightarrow> string \<Rightarrow> http_run) \<Rightarrow> 'w probe" where
  "HTTPProbe_Execute L p N client_Do timeout target w =
     (let invalid = http_failure ''invalid HTTP target'' (New ''invalid HTTP target'')
      in case lib_url_Parse L (Target_Address target) of
           None \<Rightarrow> (invalid, w)
         | Some parsed \<Rightarrow>
             if (url_Scheme parsed \<noteq> ''http'' \<and> url_Scheme parsed \<noteq> ''https'') \<or>
                url_Hostname parsed = [] \<or> url_has_User parsed
             then (invalid, w)
             else
               (case Resolve p N (url_Hostname parsed) w of
                  (Inl err, w1) \<Rightarrow> (classified L err, w1)
                | (Inr _, w1) \<Rightarrow>
                    (case net_NewRequest N (url_String parsed) of
                       Some err \<Rightarrow> (http_failure ''create request'' err, w1)
                     | None \<Rightarrow>
                         (case run_http p N (client_Do timeout (url_String parsed)) w1 of
                            (Inl err, w2) \<Rightarrow> (classified L err, w2)
                          | (Inr status, w2) \<Rightarrow> (http_outcome status, w2)))))"

section \<open>Properties of the retry loop\<close>

text \<open>
  One induction for all of them: \<open>I\<close> holds before each attempt, \<open>Q\<close> of the outcome.
\<close>

lemma retry_loop_rule:
  assumes "I attempt w" and "attempt \<le> maxRetries"
    and step: "\<And>a w current err w1. I a w \<Longrightarrow> a \<le> maxRetries \<Longrightarrow>
      implementation timeout target w = ((current, err), w1) \<Longrightarrow>
      (stop_retrying maxRetries a (with_message current err) err \<longrightarrow>
         Q (with_message current err, a + 1) w1) \<and>
      (\<not> stop_retrying maxRetries a (with_message current err) err \<longrightarrow>
         (case waitFor (retry_delay baseDelay a) w1 of
            (Some e, w2) \<Rightarrow> Q (zero_result\<lparr>Res_ErrorCode := ''network_error'', Res_ErrorMessage := err_text e\<rparr>, a + 1) w2
          | (None, w2) \<Rightarrow> I (a + 1) w2))"
  shows "case retry_loop implementation waitFor target timeout maxRetries baseDelay attempt result w of
    (x, w') \<Rightarrow> Q x w'"
  using assms(1,2)
proof (induction "nat (maxRetries - attempt)" arbitrary: attempt result w)
  case 0
  obtain current err w1 where run: "implementation timeout target w = ((current, err), w1)"
    by (metis surj_pair)
  have "attempt = maxRetries" using 0 by simp
  then have "stop_retrying maxRetries attempt (with_message current err) err"
    by (simp add: stop_retrying_def)
  then show ?case
    using step [OF 0(2,3) run] 0(3) run by (simp add: retry_loop.simps [of _ _ _ _ _ _ attempt] Let_def)
next
  case (Suc n)
  obtain current err w1 where run: "implementation timeout target w = ((current, err), w1)"
    by (metis surj_pair)
  obtain o' w2 where wt: "waitFor (retry_delay baseDelay attempt) w1 = (o', w2)"
    by (metis surj_pair)
  note st = step [OF Suc(3,4) run]
  show ?case
  proof (cases "stop_retrying maxRetries attempt (with_message current err) err \<or> o' \<noteq> None")
    case True
    then show ?thesis
      using st Suc(4) run wt
      by (auto simp: retry_loop.simps [of _ _ _ _ _ _ attempt] Let_def)
  next
    case False
    then have "I (attempt + 1) w2" using st wt by simp
    moreover have "n = nat (maxRetries - (attempt + 1))" and "attempt + 1 \<le> maxRetries"
      using Suc(2) by auto
    ultimately show ?thesis
      using Suc(1) [of "attempt + 1" w2 "with_message current err"] False Suc(4) run wt
      by (simp add: retry_loop.simps [of _ _ _ _ _ _ attempt] Let_def)
  qed
qed

text \<open>Attempts are counted from one and bounded by the configured retries.\<close>

lemma attempts_bounds:
  fixes w :: 'w
  assumes "0 \<le> maxRetries"
  shows "case ExecuteWithRetry implementation waitFor target timeout maxRetries baseDelay w of
    ((result, n), w') \<Rightarrow> 1 \<le> n \<and> n \<le> maxRetries + 1"
proof -
  let ?Q = "\<lambda>x (_::'w). 1 \<le> snd x \<and> snd x \<le> maxRetries + 1"
  have "case retry_loop implementation waitFor target timeout maxRetries baseDelay 0 zero_result w of
    (x, w') \<Rightarrow> ?Q x w'"
    by (rule retry_loop_rule [where I = "\<lambda>a _. 0 \<le> a" and Q = ?Q, OF _ assms])
       (auto split: prod.splits option.splits)
  then show ?thesis by (auto simp: ExecuteWithRetry_def split: prod.splits)
qed

text \<open>A probe that also counts how often it was called.\<close>

definition counted :: "'w probe \<Rightarrow> (int \<times> 'w) probe" where
  "counted implementation timeout target cw =
     (case implementation timeout target (snd cw) of (r, w') \<Rightarrow> (r, (fst cw + 1, w')))"

definition uncounted :: "'w waiting \<Rightarrow> (int \<times> 'w) waiting" where
  "uncounted waitFor d cw = (case waitFor d (snd cw) of (r, w') \<Rightarrow> (r, (fst cw, w')))"

lemma attempts_counted:
  fixes w :: 'w
  assumes "0 \<le> maxRetries"
  shows "case ExecuteWithRetry (counted implementation) (uncounted waitFor) target timeout maxRetries baseDelay (0, w) of
    ((result, n), cw) \<Rightarrow> fst cw = n"
proof -
  let ?Q = "\<lambda>x (cw :: int \<times> 'w). fst cw = snd x"
  have "case retry_loop (counted implementation) (uncounted waitFor) target timeout maxRetries baseDelay
      0 zero_result (0, w) of (x, w') \<Rightarrow> ?Q x w'"
    by (rule retry_loop_rule [where I = "\<lambda>a cw. fst cw = a" and Q = ?Q, OF _ assms])
       (auto simp: counted_def uncounted_def split: prod.splits option.splits)
  then show ?thesis by (auto simp: ExecuteWithRetry_def split: prod.splits)
qed

text \<open>
  The outcome when no context ends early: the attempts follow a script, and the result is that
  of the first attempt that must not be retried, or of the last.
\<close>

definition scripted :: "(nat \<Rightarrow> Result \<times> go_error option) \<Rightarrow> nat probe" where
  "scripted r timeout target k = (r k, Suc k)"

definition timer_fires :: "'w waiting" where
  "timer_fires d w = (None, w)"

definition final_attempt :: "int \<Rightarrow> (nat \<Rightarrow> Result \<times> go_error option) \<Rightarrow> nat \<Rightarrow> bool" where
  "final_attempt maxRetries r k \<longleftrightarrow>
     stop_retrying maxRetries (int k) (with_message (fst (r k)) (snd (r k))) (snd (r k))"

lemma retry_script:
  assumes "0 \<le> maxRetries"
  shows "\<exists>k. final_attempt maxRetries r k \<and> (\<forall>j<k. \<not> final_attempt maxRetries r j) \<and> int k \<le> maxRetries \<and>
    ExecuteWithRetry (scripted r) timer_fires target timeout maxRetries baseDelay 0 =
      ((with_message (fst (r k)) (snd (r k)), int k + 1), Suc k)"
proof -
  let ?I = "\<lambda>a k. a = int k \<and> (\<forall>j<k. \<not> final_attempt maxRetries r j)"
  let ?Q = "\<lambda>x w. \<exists>k. final_attempt maxRetries r k \<and> (\<forall>j<k. \<not> final_attempt maxRetries r j) \<and>
    int k \<le> maxRetries \<and> x = (with_message (fst (r k)) (snd (r k)), int k + 1) \<and> w = Suc k"
  have "case retry_loop (scripted r) timer_fires target timeout maxRetries baseDelay 0 zero_result 0 of
    (x, w') \<Rightarrow> ?Q x w'"
    by (rule retry_loop_rule [where I = ?I and Q = ?Q, OF _ assms])
       (auto simp: scripted_def timer_fires_def final_attempt_def less_Suc_eq)
  then show ?thesis unfolding ExecuteWithRetry_def by (auto split: prod.splits)
qed

text \<open>Within the limits of a task no delay overflows, and the delays double.\<close>

lemma retry_delay_exact:
  assumes "0 \<le> a" and "a \<le> 5" and "0 \<le> base" and "base \<le> 30 * second"
  shows "retry_delay base a = base * 2 ^ nat a"
proof -
  have "(2::int) ^ nat a \<le> 2 ^ 5" using assms(2) by (intro power_increasing) auto
  moreover have "(0::int) < 2 ^ nat a" by simp
  moreover have "base * 2 ^ nat a \<le> (30 * second) * 2 ^ 5"
    using assms calculation by (intro mult_mono) (auto simp: duration_defs)
  moreover have "0 \<le> base * 2 ^ nat a" using assms(3) by simp
  moreover have "wrap64 (2 ^ nat a) = 2 ^ nat a"
    by (rule wrap64_in_range, rule order_trans [of _ 0]) (use calculation(1) in auto)
  ultimately show ?thesis
    by (simp add: retry_delay_def wrap64_in_range duration_defs)
qed

text \<open>
  The time the loop takes, when an attempt ends by its deadline and a timer fires when it is due.
\<close>

lemma retry_elapsed:
  assumes run: "\<And>w. clk (snd (implementation timeout target w)) \<le> clk w + timeout"
    and wait: "\<And>d w. 0 \<le> d \<Longrightarrow> clk (snd (waitFor d w)) \<le> clk w + d"
    and m: "0 \<le> m" "m \<le> 5" and b: "0 \<le> base" "base \<le> 30 * second" and t: "0 \<le> timeout"
  shows "case ExecuteWithRetry implementation waitFor target timeout m base w of
    (x, w') \<Rightarrow> clk w' \<le> clk w + (m + 1) * timeout + base * (2 ^ nat m - 1)"
proof -
  let ?I = "\<lambda>a v. 0 \<le> a \<and> clk v \<le> clk w + a * timeout + base * (2 ^ nat a - 1)"
  let ?Q = "\<lambda>_ v. clk v \<le> clk w + (m + 1) * timeout + base * (2 ^ nat m - 1)"
  have mono: "a * timeout \<le> m * timeout" "base * 2 ^ nat a \<le> base * 2 ^ nat m" if "a \<le> m" for a
    using that t b by (simp_all add: mult_right_mono mult_left_mono nat_mono power_increasing)
  have "case retry_loop implementation waitFor target timeout m base 0 zero_result w of (x, w') \<Rightarrow> ?Q x w'"
  proof (rule retry_loop_rule [where I = ?I and Q = ?Q])
    fix a v current err w1
    assume I: "0 \<le> a \<and> clk v \<le> clk w + a * timeout + base * (2 ^ nat a - 1)" and a: "a \<le> m"
      and r: "implementation timeout target v = ((current, err), w1)"
    have w1: "clk w1 \<le> clk w + (a + 1) * timeout + base * (2 ^ nat a - 1)"
      using run [of v] r I by (simp add: algebra_simps)
    have "clk w1 \<le> clk w + (m + 1) * timeout + base * (2 ^ nat m - 1)"
      using w1 mono [OF a] by (simp add: algebra_simps)
    moreover have "?I (a + 1) w2 \<and> (a < m \<longrightarrow> ?Q x w2)"
      if "waitFor (retry_delay base a) w1 = (o', w2)" for o' w2 x
    proof -
      have d: "retry_delay base a = base * 2 ^ nat a"
        using retry_delay_exact [of a base] I a m b by simp
      have I2: "clk w2 \<le> clk w + (a + 1) * timeout + base * (2 ^ nat (a + 1) - 1)"
        using wait [of "retry_delay base a" w1] that d b w1 I
        by (simp add: algebra_simps nat_add_distrib)
      moreover have "?Q x w2" if "a < m"
        using I2 mono [of "a + 1"] that t by (simp add: algebra_simps)
      ultimately show ?thesis using I by simp
    qed
    moreover have "\<not> stop_retrying m a (with_message current err) err \<Longrightarrow> a < m"
      using a by (auto simp: stop_retrying_def)
    ultimately show "(stop_retrying m a (with_message current err) err \<longrightarrow> ?Q (with_message current err, a + 1) w1) \<and>
      (\<not> stop_retrying m a (with_message current err) err \<longrightarrow>
         (case waitFor (retry_delay base a) w1 of
            (Some e, w2) \<Rightarrow> ?Q (zero_result\<lparr>Res_ErrorCode := ''network_error'', Res_ErrorMessage := err_text e\<rparr>, a + 1) w2
          | (None, w2) \<Rightarrow> ?I (a + 1) w2))"
      by (auto split: prod.splits option.splits)
  qed (use m in auto)
  then show ?thesis by (simp add: ExecuteWithRetry_def)
qed

end
