(* ===== verification/ProbeProcessor.thy ===== *)
theory ProbeProcessor
  imports ExecutionLedger ProbeExecution
begin

text \<open>
  The stream messages (\<open>internal/probe/stream.go\<close>, \<open>decode\<close> of \<open>consumer.go\<close>) and the
  processing of one message (\<open>processor.go\<close>), as the sequence of its database calls.
  \<open>Process\<close> is split where other workers may interleave; with its metrics observer it is
  in the theory \<open>Metrics\<close>.
\<close>

section \<open>Messages of the stream\<close>

type_synonym fields = "(string \<times> string) list"

definition publish_fields :: "golib \<Rightarrow> ExecutionMessage \<Rightarrow> fields" where
  "publish_fields L message =
     [(''execution_id'', Msg_ExecutionID message),
      (''task_id'', FormatUint (Msg_TaskID message)),
      (''scheduled_at'', lib_format_time L (Msg_ScheduledAt message))]"

text \<open>\<open>fmt.Sprint\<close> of a map entry; a missing one is \<open>nil\<close>.\<close>

definition sprint_field :: "fields \<Rightarrow> string \<Rightarrow> string" where
  "sprint_field values k = (case map_of values k of None \<Rightarrow> ''<nil>'' | Some v \<Rightarrow> v)"

definition decode :: "golib \<Rightarrow> fields \<Rightarrow> go_error + ExecutionMessage" where
  "decode L values =
     (let executionID = sprint_field values ''execution_id''
      in case ParseUint (sprint_field values ''task_id'') of
           None \<Rightarrow> Inl (New ''invalid execution message'')
         | Some taskID \<Rightarrow>
             if executionID = [] then Inl (New ''invalid execution message'')
             else case lib_parse_time L (sprint_field values ''scheduled_at'') of
                    None \<Rightarrow> Inl (Foreign (plain_foreign ''parsing time''))
                  | Some scheduledAt \<Rightarrow>
                      Inr \<lparr>Msg_ExecutionID = executionID, Msg_TaskID = taskID,
                           Msg_ScheduledAt = scheduledAt\<rparr>)"

text \<open>What is published is what a worker decodes, for a time that survives its formatting.\<close>

lemma decode_publish:
  assumes "lib_parse_time L (lib_format_time L (Msg_ScheduledAt m)) = Some (Msg_ScheduledAt m)"
    and "Msg_ExecutionID m \<noteq> []"
  shows "decode L (publish_fields L m) = Inr m"
  using assms by (simp add: decode_def publish_fields_def sprint_field_def Let_def ParseUint_FormatUint)

section \<open>Processing a message\<close>

record 'w probes =
  probe_http :: "'w probe"
  probe_tcp :: "'w probe"

definition probe_of :: "'w probes \<Rightarrow> string \<Rightarrow> 'w probe option" where
  "probe_of ps kind =
     (if kind = ''http'' then Some (probe_http ps)
      else if kind = ''tcp'' then Some (probe_tcp ps) else None)"

definition process_look :: "env \<Rightarrow> string \<Rightarrow> (world, ExecutionWork option) op" where
  "process_look E i =
     op_bind (ProbeRepo_GetWork E i) (\<lambda>work.
     op_return (if Exec_Status (Work_Execution work) = ExecutionSuccess \<or>
                   Exec_Status (Work_Execution work) = ExecutionFailed then None else Some work))"

definition process_take :: "env \<Rightarrow> duration \<Rightarrow> string \<Rightarrow> string \<Rightarrow> (world, unit) op" where
  "process_take E idleTimeout i consumer =
     op_bind (time_now E) (\<lambda>now.
     op_bind (ProbeRepo_Acquire E i consumer now (now - idleTimeout)) (\<lambda>acquired.
     op_when_fail (\<not> acquired) (Sentinel ProbeErrExecutionBusy)))"

definition process_probe ::
  "world probe \<Rightarrow> world waiting \<Rightarrow> ExecutionWork \<Rightarrow> (world, Result \<times> int) op" where
  "process_probe implementation waitFor work w =
     (case ExecuteWithRetry implementation waitFor
             \<lparr>Target_Type = Exec_ProbeType (Work_Execution work),
              Target_Address = Exec_TargetSnapshot (Work_Execution work)\<rparr>
             (wrap64 (Task_TimeoutMilliseconds (Work_Task work) * millisecond))
             (Task_MaxRetries (Work_Task work))
             (wrap64 (Task_RetryBaseDelayMilliseconds (Work_Task work) * millisecond)) w of
        (r, w') \<Rightarrow> (Inr r, w'))"

definition process_settle ::
  "env \<Rightarrow> string \<Rightarrow> string \<Rightarrow> time \<Rightarrow> Result \<Rightarrow> int \<Rightarrow> (world, unit) op" where
  "process_settle E i consumer started result attempts =
     op_bind (time_now E) (\<lambda>finished.
     op_bind (time_now E) (\<lambda>t.
     ProbeRepo_MarkFinal E i consumer finished (go_quot (t - started) millisecond) result attempts))"

definition Processor_Process ::
  "env \<Rightarrow> duration \<Rightarrow> world probes \<Rightarrow> world waiting \<Rightarrow> ExecutionMessage \<Rightarrow> string \<Rightarrow> (world, unit) op" where
  "Processor_Process E idleTimeout ps waitFor message consumer =
     op_bind (process_look E (Msg_ExecutionID message)) (\<lambda>look.
     case look of
       None \<Rightarrow> op_return ()
     | Some work \<Rightarrow>
         op_bind (process_take E idleTimeout (Msg_ExecutionID message) consumer) (\<lambda>_.
         case probe_of ps (Exec_ProbeType (Work_Execution work)) of
           None \<Rightarrow> op_fail (New ''unsupported probe type'')
         | Some implementation \<Rightarrow>
             op_bind (time_now E) (\<lambda>started.
             op_bind (process_probe implementation waitFor work) (\<lambda>(result, attempts).
             process_settle E (Msg_ExecutionID message) consumer started result attempts))))"

section \<open>What the parts do\<close>

definition settled :: "env \<Rightarrow> db \<Rightarrow> string \<Rightarrow> bool" where
  "settled E d i \<longleftrightarrow> (\<exists>x\<in>set (T_results d). has_execution_id E i x \<and> terminal x)"

lemma GetWork_reads [simp]: "w_db (snd (ProbeRepo_GetWork E i w)) = w_db w"
  unfolding ProbeRepo_GetWork_def by (intro op_bind_reads) simp_all

lemma process_look_reads [simp]: "w_db (snd (process_look E i w)) = w_db w"
  unfolding process_look_def by (intro op_bind_reads) simp_all

lemma GetWork_rows:
  assumes "ProbeRepo_GetWork E i w = (Inr work, w')"
  shows "Work_Execution work \<in> set (T_results (w_db w)) \<and> has_execution_id E i (Work_Execution work) \<and>
    Work_Task work \<in> set (T_tasks (w_db w)) \<and> Task_ID (Work_Task work) = Exec_TaskID (Work_Execution work)"
  using assms results.first_row_Inr tasks.first_row_Inr
  by (fastforce simp: ProbeRepo_GetWork_def tb_Inr elim!: op_bind_Inr)

lemma process_look_None: "process_look E i w = (Inr None, w') \<Longrightarrow> settled E (w_db w) i"
  using GetWork_rows
  by (fastforce simp: process_look_def settled_def terminal_def elim!: op_bind_Inr split: if_splits)

lemma process_look_Some:
  "process_look E i w = (Inr (Some work), w') \<Longrightarrow> Work_Task work \<in> set (T_tasks (w_db w)) \<and>
     Work_Execution work \<in> set (T_results (w_db w)) \<and> has_execution_id E i (Work_Execution work)"
  using GetWork_rows by (fastforce simp: process_look_def elim!: op_bind_Inr split: if_splits)

lemma process_take_effect:
  "all_or_nothing w_db (process_take E idleTimeout i consumer) w
     (\<lambda>_ d. \<exists>started u before. d = (w_db w)\<lparr>T_results := map (\<lambda>x. if acquirable E i before x
          then acquired_row E consumer started u x else x) (T_results (w_db w))\<rparr>)"
  (is "all_or_nothing _ _ _ (\<lambda>_. ?P)")
  unfolding process_take_def
proof (rule all_or_nothing_after_read)
  fix now and w' :: world assume w: "w_db w' = w_db w"
  let ?A = "ProbeRepo_Acquire E i consumer now (now - idleTimeout)"
  have "all_or_nothing w_db ?A w' (\<lambda>_. ?P)"
    by (rule all_or_nothing_mono [OF Acquire_effect]) (unfold w, blast)
  then show "all_or_nothing w_db (op_bind ?A
      (\<lambda>acquired. op_when_fail (\<not> acquired) (Sentinel ProbeErrExecutionBusy))) w' (\<lambda>_. ?P)"
    by (auto simp: all_or_nothing_def op_bind_def op_when_fail_def split: prod.splits sum.splits)
qed simp

lemma process_settle_effect:
  "all_or_nothing w_db (process_settle E i consumer started result attempts) w
     (\<lambda>_ d. \<exists>finished duration u. d = (w_db w)\<lparr>T_results := map (\<lambda>x. if finishable E i consumer x
          then finished_row E finished duration result attempts u x else x) (T_results (w_db w))\<rparr>)"
  unfolding process_settle_def
  by (intro all_or_nothing_after_read)
     (simp_all, rule all_or_nothing_mono [OF MarkFinal_effect], auto)

lemma MarkFinal_row:
  assumes "ProbeRepo_MarkFinal E i consumer finished duration result attempts w = (Inr u, w')"
  shows "\<exists>x now. finishable E i consumer x \<and>
    finished_row E finished duration result attempts now x \<in> set (T_results (w_db w'))"
proof -
  obtain w0 where run: "transaction E (tb_update_where E (results_table E) (finishable E i consumer)
       (finished_row E finished duration result attempts)) w = (Inr 1, w0)" and w0: "w' = w0"
    using assms unfolding ProbeRepo_MarkFinal_def by (auto elim!: op_bind_Inr)
  then obtain t d where up: "update_rows E (results_table E) (finishable E i consumer)
       (finished_row E finished duration result attempts) t (w_db w) = Inr (1, d)" and d: "w_db w' = d"
    by (auto simp: transaction_Inr tb_Inr)
  obtain x where x: "x \<in> set (T_results (w_db w))" "finishable E i consumer x"
    using results.update_rows_some_row [OF up] by auto
  have "finished_row E finished duration result attempts (env_col3 E (env_clock E t)) x \<in> set (T_results d)"
    using results.update_rows_Inr(1) [OF up] x by auto
  then show ?thesis using x(2) d by blast
qed

lemma MarkFinal_Inr:
  assumes "ProbeRepo_MarkFinal E i consumer finished duration result attempts w = (Inr u, w')"
  shows "settled E (w_db w') i"
proof -
  obtain x now where "finishable E i consumer x"
    and "finished_row E finished duration result attempts now x \<in> set (T_results (w_db w'))"
    using MarkFinal_row [OF assms] by blast
  moreover from this(1) have "has_execution_id E i (finished_row E finished duration result attempts now x) \<and>
      terminal (finished_row E finished duration result attempts now x)"
    by (simp add: finishable_def has_execution_id_def finished_row_def terminal_def)
  ultimately show ?thesis unfolding settled_def by blast
qed

lemma process_settle_Inr:
  "process_settle E i consumer started result attempts w = (Inr u, w') \<Longrightarrow> settled E (w_db w') i"
  unfolding process_settle_def by (auto elim!: op_bind_Inr dest: MarkFinal_Inr)

lemma process_probe_attempts:
  "process_probe implementation waitFor work w = (Inr (result, attempts), w') \<Longrightarrow>
     0 \<le> Task_MaxRetries (Work_Task work) \<Longrightarrow> 1 \<le> attempts \<and> attempts \<le> Task_MaxRetries (Work_Task work) + 1"
  using attempts_bounds [of "Task_MaxRetries (Work_Task work)"]
  by (fastforce simp: process_probe_def split: prod.splits)

lemma ledger_process_take:
  "ledger_step E (w_db w) (w_db (snd (process_take E idleTimeout i consumer w)))"
proof (rule ledger_all_or_nothing [OF process_take_effect], elim exE)
  fix d started u before
  assume "d = (w_db w)\<lparr>T_results := map (\<lambda>x. if acquirable E i before x
      then acquired_row E consumer started u x else x) (T_results (w_db w))\<rparr>"
  then show "ledger_step E (w_db w) d"
    by (intro ledger_map [where p = "acquirable E i before" and f = "acquired_row E consumer started u"])
       (auto simp: acquirable_def intro: exec_step.acquire)
qed

lemma ledger_process_settle:
  "1 \<le> attempts \<Longrightarrow> ledger_step E (w_db w) (w_db (snd (process_settle E i consumer started result attempts w)))"
proof (rule ledger_all_or_nothing [OF process_settle_effect], elim exE)
  fix d finished duration u
  assume "1 \<le> attempts" and "d = (w_db w)\<lparr>T_results := map (\<lambda>x. if finishable E i consumer x
      then finished_row E finished duration result attempts u x else x) (T_results (w_db w))\<rparr>"
  then show "ledger_step E (w_db w) d"
    by (intro ledger_map [where p = "finishable E i consumer"
          and f = "finished_row E finished duration result attempts u"])
       (auto simp: finishable_def intro: exec_step.finish)
qed

text \<open>A message is acknowledged only when \<open>Process\<close> returns no error: its execution is final.\<close>

lemma Process_settles:
  assumes run: "Processor_Process E idleTimeout ps waitFor message consumer w = (Inr u, w')"
  shows "settled E (w_db w') (Msg_ExecutionID message)"
proof -
  obtain look w1 where l: "process_look E (Msg_ExecutionID message) w = (Inr look, w1)"
    using run unfolding Processor_Process_def by (auto elim!: op_bind_Inr)
  show ?thesis
  proof (cases look)
    case None
    then have "w' = w1" using run l unfolding Processor_Process_def by (auto simp: op_bind_def)
    then show ?thesis
      using process_look_None [OF l [unfolded None]] process_look_reads [of E "Msg_ExecutionID message" w] l
      by simp
  next
    case (Some work)
    then show ?thesis
      using run l unfolding Processor_Process_def
      by (auto elim!: op_bind_Inr split: option.splits dest: process_settle_Inr)
  qed
qed

end
