(* ===== verification/ProbeRecovery.thy ===== *)
theory ProbeRecovery
  imports ProbeProcessor
begin

text \<open>
  Liveness of \<open>Process\<close>: without faults, processing the message of an execution that is queued, or
  that another worker left running for longer than the idle timeout, acquires it, runs its probe and makes it final.
\<close>

section \<open>A queued or abandoned execution can always be finished\<close>

lemma transaction_ok:
  assumes "\<And>t. env_fault E t = None" and "body (tick w) = (Inr x, w1)"
  shows "transaction E body w = (Inr x, tick w1)"
  using assms by (simp add: transaction_def)

lemma Acquire_takes:
  assumes ok: "\<And>t. env_fault E t = None"
    and uniq: "unique_by (execution_uk (env_coll E)) (T_results (w_db w))"
    and x: "x \<in> set (T_results (w_db w))" and acq: "acquirable E i before x"
    and new: "Exec_Status x = ExecutionQueued \<or> Exec_UpdatedAt x \<noteq> env_col3 E (env_clock E (Suc (w_tick w)))"
  shows "\<exists>w' u. ProbeRepo_Acquire E i consumer started before w = (Inr True, w') \<and>
    w_db w' = (w_db w)\<lparr>T_results := map (\<lambda>y. if acquirable E i before y
      then acquired_row E consumer started u y else y) (T_results (w_db w))\<rparr>"
proof -
  have sel: "acquirable E i before r \<longleftrightarrow> r = x" if "r \<in> set (T_results (w_db w))" for r
    using unique_by_eq [OF uniq that x] acq
    by (auto simp: acquirable_def has_execution_id_def execution_uk_def)
  have changed: "acquired_row E consumer started (env_col3 E (env_clock E (Suc (w_tick w)))) x \<noteq> x"
    using new by (auto simp: acquired_row_def dest: arg_cong [of _ _ Exec_Status] arg_cong [of _ _ Exec_UpdatedAt])
  have "update_rows E (results_table E) (acquirable E i before)
      (\<lambda>now x. acquired_row E consumer started now x) (Suc (w_tick w)) (w_db w) =
    Inr (1, tb_update (results_table E) (map (\<lambda>y. if acquirable E i before y
      then acquired_row E consumer started (env_col3 E (env_clock E (Suc (w_tick w)))) y else y)) (w_db w))"
    by (rule results.update_rows_one [where x = x])
       (use uniq x sel changed in \<open>simp_all add: acquired_row_def execution_uk_def\<close>)
  then have "transaction E (tb_update_where E (results_table E) (acquirable E i before)
      (\<lambda>now x. acquired_row E consumer started now x)) w =
    (Inr 1, tick ((tick (tick w))\<lparr>w_db := (w_db w)\<lparr>T_results := map (\<lambda>y. if acquirable E i before y
      then acquired_row E consumer started (env_col3 E (env_clock E (Suc (w_tick w)))) y else y) (T_results (w_db w))\<rparr>\<rparr>))"
    by (simp add: transaction_def tb_update_where_def db_stmt_def ok)
  then show ?thesis
    unfolding ProbeRepo_Acquire_def acquired_row_def
    by (auto simp: op_bind_def)
qed

lemma MarkFinal_running:
  assumes ok: "\<And>t. env_fault E t = None"
    and uniq: "unique_by (execution_uk (env_coll E)) (T_results (w_db w))"
    and x: "x \<in> set (T_results (w_db w))" "finishable E i consumer x"
  shows "\<exists>w'. ProbeRepo_MarkFinal E i consumer finished duration result attempts w = (Inr (), w')"
proof -
  have sel: "finishable E i consumer r \<longleftrightarrow> r = x" if "r \<in> set (T_results (w_db w))" for r
    using unique_by_eq [OF uniq that x(1)] x(2)
    by (auto simp: finishable_def has_execution_id_def execution_uk_def)
  have changed: "finished_row E finished duration result attempts c x \<noteq> x" for c
    using x(2) by (auto simp: finishable_def finished_row_def dest: arg_cong [of _ _ Exec_Status])
  obtain d where up: "update_rows E (results_table E) (finishable E i consumer)
      (finished_row E finished duration result attempts) (Suc (w_tick w)) (w_db w) = Inr (1, d)"
    by (rule that, rule results.update_rows_one [where x = x])
       (use uniq x sel changed in \<open>simp_all add: finished_row_def execution_uk_def\<close>)
  have "transaction E (tb_update_where E (results_table E) (finishable E i consumer)
      (finished_row E finished duration result attempts)) w = (Inr 1, tick ((tick (tick w))\<lparr>w_db := d\<rparr>))"
    by (simp add: transaction_def tb_update_where_def db_stmt_def ok up)
  then show ?thesis
    unfolding ProbeRepo_MarkFinal_def by (simp add: op_bind_def op_when_fail_def)
qed

lemma process_probe_db:
  assumes "\<And>tm tg w. w_db (snd (implementation tm tg w)) = w_db w" and "\<And>dl w. w_db (snd (waitFor dl w)) = w_db w"
    and "0 \<le> Task_MaxRetries (Work_Task work)"
  shows "\<exists>r w'. process_probe implementation waitFor work w = (Inr r, w') \<and> w_db w' = w_db w"
proof -
  let ?m = "Task_MaxRetries (Work_Task work)"
  let ?tg = "\<lparr>Target_Type = Exec_ProbeType (Work_Execution work),
      Target_Address = Exec_TargetSnapshot (Work_Execution work)\<rparr>"
  let ?tm = "wrap64 (Task_TimeoutMilliseconds (Work_Task work) * millisecond)"
  let ?b = "wrap64 (Task_RetryBaseDelayMilliseconds (Work_Task work) * millisecond)"
  have "case retry_loop implementation waitFor ?tg ?tm ?m ?b 0 zero_result w of (x, w') \<Rightarrow> w_db w' = w_db w"
  proof (rule retry_loop_rule [where I = "\<lambda>_ v. w_db v = w_db w" and Q = "\<lambda>_ v. w_db v = w_db w"])
    fix a v current err w1
    assume "w_db v = w_db w" and "implementation ?tm ?tg v = ((current, err), w1)"
    then have w1: "w_db w1 = w_db w" using assms(1) [of ?tm ?tg v] by simp
    moreover have "w_db w2 = w_db w" if "waitFor dl w1 = (o', w2)" for dl o' w2
      using assms(2) [of dl w1] that w1 by simp
    ultimately show "(stop_retrying ?m a (with_message current err) err \<longrightarrow> w_db w1 = w_db w) \<and>
      (\<not> stop_retrying ?m a (with_message current err) err \<longrightarrow>
         (case waitFor (retry_delay ?b a) w1 of (Some e, w2) \<Rightarrow> w_db w2 = w_db w | (None, w2) \<Rightarrow> w_db w2 = w_db w))"
      by (auto split: prod.splits option.splits)
  qed (use assms(3) in auto)
  then show ?thesis
    by (auto simp: process_probe_def ExecuteWithRetry_def split: prod.splits)
qed

lemma tb_first_ok:
  assumes "\<And>t. env_fault E t = None" and "table_laws T" and "r \<in> set (tb_rows T (w_db w))" and "p r"
  shows "\<exists>r'. tb_first E T p w = (Inr r', tick w) \<and> r' \<in> set (tb_rows T (w_db w)) \<and> p r'"
proof -
  have "first_row T p (w_db w) \<noteq> Inl e" for e
    using table_laws.first_row_Inl [OF assms(2)] assms(3,4) by blast
  then obtain r' where r: "first_row T p (w_db w) = Inr r'" by (cases "first_row T p (w_db w)") auto
  then have "tb_first E T p w = (Inr r', tick w)" using assms(1) by (simp add: tb_first_Inr)
  then show ?thesis using table_laws.first_row_Inr [OF assms(2) r] by blast
qed

lemma process_look_ok:
  assumes ok: "\<And>t. env_fault E t = None"
    and uniq: "unique_by (execution_uk (env_coll E)) (T_results (w_db w))"
    and x: "x \<in> set (T_results (w_db w))" "has_execution_id E i x" "\<not> terminal x"
    and t: "t \<in> set (T_tasks (w_db w))" "Task_ID t = Exec_TaskID x"
  shows "\<exists>t'. process_look E i w = (Inr (Some \<lparr>Work_Execution = x, Work_Task = t'\<rparr>), tick (tick w)) \<and>
    t' \<in> set (T_tasks (w_db w))"
proof -
  obtain x' where f: "tb_first E (results_table E) (has_execution_id E i) w = (Inr x', tick w)"
    and x': "x' \<in> set (T_results (w_db w))" "has_execution_id E i x'"
    using tb_first_ok [OF ok results.table_laws_axioms [of E], where r = x and w = w and p = "has_execution_id E i"] x by auto
  have xx: "x' = x"
    using unique_by_eq [OF uniq x'(1) x(1)] x(2) x'(2) by (simp add: has_execution_id_def execution_uk_def)
  obtain t' where g: "tb_first E (tasks_table E) (\<lambda>t. Task_ID t = Exec_TaskID x) (tick w) = (Inr t', tick (tick w))"
    and t': "t' \<in> set (T_tasks (w_db w))"
    using tb_first_ok [OF ok tasks.table_laws_axioms [of E], where r = t and w = "tick w" and p = "\<lambda>t. Task_ID t = Exec_TaskID x"] t by auto
  show ?thesis
    using f g t' x(3) unfolding xx process_look_def ProbeRepo_GetWork_def terminal_def
    by (auto simp: op_bind_def op_map_error_def)
qed

text \<open>
  An execution can be taken when it is queued, or when it is running and was last updated more
  than the idle timeout before the clock reading of \<open>Process\<close>, and the clock has moved on
  when the row is written.
\<close>

definition takeable :: "env \<Rightarrow> duration \<Rightarrow> nat \<Rightarrow> Execution \<Rightarrow> bool" where
  "takeable E idleTimeout t x \<longleftrightarrow> Exec_Status x = ExecutionQueued \<or>
     (Exec_Status x = ExecutionRunning \<and> Exec_UpdatedAt x < env_clock E (Suc (Suc t)) - idleTimeout \<and>
      Exec_UpdatedAt x \<noteq> env_col3 E (env_clock E (Suc (Suc (Suc (Suc t))))))"

lemma takeable_queued: "Exec_Status x = ExecutionQueued \<Longrightarrow> takeable E idleTimeout t x"
  by (simp add: takeable_def)

text \<open>Then \<open>Process\<close> of its message returns no error, so that it is final.\<close>

lemma Process_finishes:
  assumes ok: "\<And>t. env_fault E t = None"
    and uniq: "unique_by (execution_uk (env_coll E)) (T_results (w_db w))"
    and x: "x \<in> set (T_results (w_db w))" "has_execution_id E (Msg_ExecutionID message) x"
      "takeable E idleTimeout (w_tick w) x"
    and kind: "Exec_ProbeType x = TypeHTTP \<or> Exec_ProbeType x = TypeTCP"
    and task: "\<exists>t\<in>set (T_tasks (w_db w)). Task_ID t = Exec_TaskID x"
    and limits: "\<forall>t\<in>set (T_tasks (w_db w)). task_ok t"
    and http: "\<And>tm tg w. w_db (snd (probe_http ps tm tg w)) = w_db w"
    and tcp: "\<And>tm tg w. w_db (snd (probe_tcp ps tm tg w)) = w_db w"
    and wait: "\<And>dl w. w_db (snd (waitFor dl w)) = w_db w"
  shows "\<exists>w'. Processor_Process E idleTimeout ps waitFor message consumer w = (Inr (), w')"
proof -
  let ?i = "Msg_ExecutionID message"
  have nt: "\<not> terminal x" using x(3) by (auto simp: terminal_def takeable_def)
  obtain t where t: "t \<in> set (T_tasks (w_db w))" "Task_ID t = Exec_TaskID x" using task by blast
  let ?w1 = "tick (tick w)"
  obtain t' where look: "process_look E ?i w = (Inr (Some \<lparr>Work_Execution = x, Work_Task = t'\<rparr>), ?w1)"
    and t': "t' \<in> set (T_tasks (w_db w))"
    using process_look_ok [OF ok uniq x(1,2) nt t] by blast
  define now where "now = env_clock E (w_tick ?w1)"
  have ax: "acquirable E ?i (now - idleTimeout) x"
    using x(2,3) by (auto simp: acquirable_def takeable_def now_def)
  obtain w2 u where acq: "ProbeRepo_Acquire E ?i consumer now (now - idleTimeout) (tick ?w1) = (Inr True, w2)"
    and w2: "w_db w2 = (w_db w)\<lparr>T_results := map (\<lambda>y. if acquirable E ?i (now - idleTimeout) y
      then acquired_row E consumer now u y else y) (T_results (w_db w))\<rparr>"
    using Acquire_takes [OF ok, of "tick ?w1" x ?i "now - idleTimeout" consumer now] uniq x(1,3) ax
    by (auto simp: takeable_def)
  have take: "process_take E idleTimeout ?i consumer ?w1 = (Inr (), w2)"
    using acq by (simp add: process_take_def op_bind_def op_when_fail_def now_def)
  have "ledger_step E (w_db ?w1) (w_db w2)"
    using ledger_process_take [of E ?w1 idleTimeout ?i consumer] take by simp
  then have uniq2: "unique_by (execution_uk (env_coll E)) (T_results (w_db w2))"
    using uniq by (simp add: ledger_step_def)
  let ?y = "acquired_row E consumer now u x"
  have y: "?y \<in> set (T_results (w_db w2))" using w2 ax x(1) by auto
  have fy: "finishable E ?i consumer ?y"
    using x(2) by (simp add: finishable_def has_execution_id_def held_by_def acquired_row_def)
  obtain impl where impl: "probe_of ps (Exec_ProbeType x) = Some impl"
    and db: "\<And>tm tg w. w_db (snd (impl tm tg w)) = w_db w"
    using kind http tcp by (auto simp: probe_of_def)
  have m: "0 \<le> Task_MaxRetries t'" using limits t' by (auto simp: task_ok_def task_limits_def)
  obtain result attempts w3 where probe: "process_probe impl waitFor \<lparr>Work_Execution = x, Work_Task = t'\<rparr> (tick w2)
      = (Inr (result, attempts), w3)" and w3: "w_db w3 = w_db w2"
    using process_probe_db [of impl waitFor "\<lparr>Work_Execution = x, Work_Task = t'\<rparr>" "tick w2"] db wait m by fastforce
  have "\<exists>w'. process_settle E ?i consumer (env_clock E (w_tick w2)) result attempts w3 = (Inr (), w')"
    using MarkFinal_running [OF ok, of "tick (tick w3)" ?y ?i consumer] uniq2 y fy w3
    by (simp add: process_settle_def op_bind_def)
  then show ?thesis
    using look take impl probe by (simp add: Processor_Process_def op_bind_def)
qed

end
