(* ===== verification/FleetRequests.thy ===== *)
theory FleetRequests
  imports ProbeTaskService
begin

text \<open>
  The nine requests that change the monitored fleet (hosts, services, tasks) as one type,
  so that sequences of them can be reasoned about.
\<close>

datatype fleet_request =
    ReqCreateHost HostInput u64 Metadata
  | ReqUpdateHost u64 HostInput u64 Metadata
  | ReqDisableHost u64 u64 Metadata
  | ReqCreateService ServiceInput u64 Metadata
  | ReqUpdateService u64 ServiceInput u64 Metadata
  | ReqDisableService u64 u64 Metadata
  | ReqCreateTask TaskInput u64 Metadata
  | ReqUpdateTask u64 TaskInput u64 Metadata
  | ReqDisableTask u64 u64 Metadata

text \<open>The state after a request, whether it succeeded or not.\<close>

fun run_fleet :: "env \<Rightarrow> golib \<Rightarrow> fleet_request \<Rightarrow> world \<Rightarrow> world" where
  "run_fleet E L (ReqCreateHost input actor md) w =
     snd (AssetService_CreateHost (asset_repository E) input actor md w)"
| "run_fleet E L (ReqUpdateHost i input actor md) w =
     snd (AssetService_UpdateHost (asset_repository E) i input actor md w)"
| "run_fleet E L (ReqDisableHost i actor md) w =
     snd (AssetService_DisableHost (asset_repository E) i actor md w)"
| "run_fleet E L (ReqCreateService input actor md) w =
     snd (AssetService_CreateMonitoredService L (asset_repository E) input actor md w)"
| "run_fleet E L (ReqUpdateService i input actor md) w =
     snd (AssetService_UpdateMonitoredService L (asset_repository E) i input actor md w)"
| "run_fleet E L (ReqDisableService i actor md) w =
     snd (AssetService_DisableMonitoredService (asset_repository E) i actor md w)"
| "run_fleet E L (ReqCreateTask input actor md) w = snd (TaskService_Create E input actor md w)"
| "run_fleet E L (ReqUpdateTask i input actor md) w = snd (TaskService_Update E i input actor md w)"
| "run_fleet E L (ReqDisableTask i actor md) w = snd (TaskService_Disable E i actor md w)"

lemma run_fleet_inv:
  "fleet_inv (env_coll E) L (w_db w) \<Longrightarrow> fleet_inv (env_coll E) L (w_db (run_fleet E L req w))"
  by (cases req)
     (simp_all add: asset_repo.fleet_CreateHost asset_repo.fleet_UpdateHost asset_repo.fleet_DisableHost
        asset_repo.fleet_CreateMonitoredService asset_repo.fleet_UpdateMonitoredService
        asset_repo.fleet_DisableMonitoredService fleet_task_Create fleet_task_Update fleet_task_Disable)

text \<open>
  What every request leaves alone, and the audit log: at most one entry is appended, exactly
  when the fleet may have changed.
\<close>

definition same_fleet :: "db \<Rightarrow> db \<Rightarrow> bool" where
  "same_fleet d d' \<longleftrightarrow> T_hosts d' = T_hosts d \<and> T_services d' = T_services d \<and> T_tasks d' = T_tasks d"

definition audited_change :: "db \<Rightarrow> db \<Rightarrow> bool" where
  "audited_change d d' \<longleftrightarrow>
     T_users d' = T_users d \<and> T_results d' = T_results d \<and> T_incidents d' = T_incidents d \<and>
     ((T_audit_logs d' = T_audit_logs d \<and> same_fleet d d') \<or>
      (\<exists>a. T_audit_logs d' = T_audit_logs d @ [a] \<and> Log_Outcome a = ''success'' \<and>
         Log_ActorUserID a \<noteq> None))"

lemma audited_change_refl [simp]: "audited_change d d"
  by (simp add: audited_change_def same_fleet_def)

lemma same_entry_fields:
  "same_entry a l \<Longrightarrow> Log_Outcome a = Log_Outcome l \<and> Log_ActorUserID a = Log_ActorUserID l \<and>
     Log_Action a = Log_Action l \<and> Log_ResourceType a = Log_ResourceType l \<and>
     Log_ResourceID a = Log_ResourceID l"
  unfolding same_entry_def by (cases a; cases l) simp

lemma audit_entry_fields [simp]:
  "Log_Outcome (auditEntry actor ac r i md) = ''success''" "Log_ActorUserID (auditEntry actor ac r i md) = Some actor"
  "Log_Outcome (taskAudit actor ac i md) = ''success''" "Log_ActorUserID (taskAudit actor ac i md) = Some actor"
  by (simp_all add: auditEntry_def taskAudit_def)

text \<open>The effect of a request that succeeds: one of the writing operations of the repositories,
  with its audit entry.\<close>

definition fleet_effect :: "(string \<Rightarrow> string) \<Rightarrow> db \<Rightarrow> db \<Rightarrow> bool" where
  "fleet_effect C d d' \<longleftrightarrow>
     (\<exists>l. Log_Outcome l = ''success'' \<and> Log_ActorUserID l \<noteq> None \<and>
        ((\<exists>h h'. host_inserted C h l d h' d') \<or> (\<exists>s s'. service_inserted C s l d s' d') \<or>
         (\<exists>t t'. task_inserted C t l d t' d') \<or> (\<exists>i f. host_written C i f l d d') \<or>
         (\<exists>i f. service_written C i f l d d') \<or>
         (\<exists>i f. (\<forall>t. Task_ID (f t) = Task_ID t) \<and> task_written C i f l d d')))"

lemma fleet_effects:
  "Log_Outcome l = ''success'' \<Longrightarrow> Log_ActorUserID l \<noteq> None \<Longrightarrow> host_inserted C h l d h' d' \<Longrightarrow> fleet_effect C d d'"
  "Log_Outcome l = ''success'' \<Longrightarrow> Log_ActorUserID l \<noteq> None \<Longrightarrow> service_inserted C s l d s' d' \<Longrightarrow> fleet_effect C d d'"
  "Log_Outcome l = ''success'' \<Longrightarrow> Log_ActorUserID l \<noteq> None \<Longrightarrow> task_inserted C t l d t' d' \<Longrightarrow> fleet_effect C d d'"
  "Log_Outcome l = ''success'' \<Longrightarrow> Log_ActorUserID l \<noteq> None \<Longrightarrow> host_written C i fh l d d' \<Longrightarrow> fleet_effect C d d'"
  "Log_Outcome l = ''success'' \<Longrightarrow> Log_ActorUserID l \<noteq> None \<Longrightarrow> service_written C i fs l d d' \<Longrightarrow> fleet_effect C d d'"
  "Log_Outcome l = ''success'' \<Longrightarrow> Log_ActorUserID l \<noteq> None \<Longrightarrow> (\<And>t. Task_ID (ft t) = Task_ID t) \<Longrightarrow>
     task_written C i ft l d d' \<Longrightarrow> fleet_effect C d d'"
  unfolding fleet_effect_def by blast+

lemma effect_or_same:
  assumes "all_or_nothing w_db m w P" and "\<And>x d. P x d \<Longrightarrow> fleet_effect C (w_db w) d"
  shows "w_db (snd (m w)) = w_db w \<or> fleet_effect C (w_db w) (w_db (snd (m w)))"
  by (rule all_or_nothing_invariant [where I = "\<lambda>d. d = w_db w \<or> fleet_effect C (w_db w) d", OF assms(1)])
     (use assms(2) in auto)

lemma run_fleet_effect:
  "w_db (run_fleet E L req w) = w_db w \<or> fleet_effect (env_coll E) (w_db w) (w_db (run_fleet E L req w))"
proof (cases req)
  case (ReqCreateHost input actor md)
  show ?thesis
    unfolding ReqCreateHost run_fleet.simps
    by (rule effect_or_same [OF asset_repo.service_CreateHost], elim conjE exE, erule fleet_effects(1) [rotated 2]) (simp_all)
next
  case (ReqUpdateHost i input actor md)
  show ?thesis
    unfolding ReqUpdateHost run_fleet.simps
    by (rule effect_or_same [OF asset_repo.service_UpdateHost], elim conjE exE, erule fleet_effects(4) [rotated 2]) (simp_all)
next
  case (ReqDisableHost i actor md)
  show ?thesis
    unfolding ReqDisableHost run_fleet.simps
    by (rule effect_or_same [OF asset_repo.service_DisableHost], elim conjE exE, erule fleet_effects(4) [rotated 2]) (simp_all)
next
  case (ReqCreateService input actor md)
  show ?thesis
    unfolding ReqCreateService run_fleet.simps
    by (rule effect_or_same [OF asset_repo.service_CreateMonitoredService], elim conjE exE, erule fleet_effects(2) [rotated 2]) (simp_all)
next
  case (ReqUpdateService i input actor md)
  show ?thesis
    unfolding ReqUpdateService run_fleet.simps
    by (rule effect_or_same [OF asset_repo.service_UpdateMonitoredService], elim conjE exE, erule fleet_effects(5) [rotated 2]) (simp_all)
next
  case (ReqDisableService i actor md)
  show ?thesis
    unfolding ReqDisableService run_fleet.simps
    by (rule effect_or_same [OF asset_repo.service_DisableMonitoredService], elim conjE exE, erule fleet_effects(5) [rotated 2]) (simp_all)
next
  case (ReqCreateTask input actor md)
  show ?thesis
    unfolding ReqCreateTask run_fleet.simps
    by (rule effect_or_same [OF service_Create], elim conjE exE, erule fleet_effects(3) [rotated 2]) (simp_all)
next
  case (ReqUpdateTask i input actor md)
  show ?thesis
    unfolding ReqUpdateTask run_fleet.simps
    by (rule effect_or_same [OF service_Update], elim conjE exE, erule fleet_effects(6) [rotated 3]) (simp_all add: task_columns_def)
next
  case (ReqDisableTask i actor md)
  show ?thesis
    unfolding ReqDisableTask run_fleet.simps
    by (rule effect_or_same [OF service_Disable], erule fleet_effects(6) [rotated 3]) (simp_all add: task_disabled_def)
qed

lemma fleet_effect_audited: "fleet_effect C d d' \<Longrightarrow> audited_change d d'"
  unfolding fleet_effect_def
  by (elim exE conjE disjE)
     (auto simp: audited_change_def host_inserted_def service_inserted_def task_inserted_def
        host_written_def service_written_def task_written_def dest!: same_entry_fields)

lemma run_fleet_audited: "audited_change (w_db w) (w_db (run_fleet E L req w))"
  using run_fleet_effect [of E L req w] fleet_effect_audited by fastforce

text \<open>No request takes a task away.\<close>

lemma task_written_ids:
  assumes "task_written C i f l d d'" and "\<forall>t. Task_ID (f t) = Task_ID t"
  shows "map Task_ID (T_tasks d') = map Task_ID (T_tasks d)"
proof -
  obtain u a where "d' = d\<lparr>T_tasks := map (\<lambda>t. if Task_ID t = i then task_touch u (f t) else t) (T_tasks d),
      T_audit_logs := T_audit_logs d @ [a]\<rparr>"
    using assms(1) unfolding task_written_def by blast
  then show ?thesis using assms(2) by (simp add: task_touch_def)
qed

lemma fleet_effect_tasks: "fleet_effect C d d' \<Longrightarrow> Task_ID ` set (T_tasks d) \<subseteq> Task_ID ` set (T_tasks d')"
  unfolding fleet_effect_def
proof (elim exE conjE disjE)
  fix i f l assume "\<forall>t. Task_ID (f t) = Task_ID t" "task_written C i f l d d'"
  then show ?thesis using task_written_ids [of C i f l d d'] by (metis list.set_map order_refl)
qed (auto simp: host_inserted_def service_inserted_def task_inserted_def host_written_def service_written_def)

lemma run_fleet_tasks: "Task_ID ` set (T_tasks (w_db w)) \<subseteq> Task_ID ` set (T_tasks (w_db (run_fleet E L req w)))"
  using run_fleet_effect [of E L req w] fleet_effect_tasks by fastforce

text \<open>Any sequence of requests.\<close>

definition run_fleet_all :: "env \<Rightarrow> golib \<Rightarrow> fleet_request list \<Rightarrow> world \<Rightarrow> world" where
  "run_fleet_all E L reqs w = fold (run_fleet E L) reqs w"

lemma run_fleet_all_inv:
  "fleet_inv (env_coll E) L (w_db w) \<Longrightarrow> fleet_inv (env_coll E) L (w_db (run_fleet_all E L reqs w))"
  unfolding run_fleet_all_def by (induction reqs arbitrary: w) (simp_all add: run_fleet_inv)

end
