(* ===== verification/Pipeline.thy ===== *)
theory Pipeline
  imports ProbeRecovery FleetRequests
begin

text \<open>
  The probe pipeline as a whole: the scheduler and the recovery dispatcher
  (\<open>internal/probe/scheduler.go\<close>) that publish messages, the Redis stream with its
  consumer group, and the workers of the consumers (\<open>consumer.go\<close>) that process them,
  interleaved in any order with each other and with the requests of the API.

  The stream is its append-only log of entries (the identifier of an entry is its position),
  the group is its cursor and its pending entries. A job is a message in the memory of a
  worker, with how far \<open>Process\<close> has got; it may be lost at any time, as when a worker
  panics, is cancelled or dies.
\<close>

section \<open>State and steps\<close>

datatype phase =
    Received
  | Looked ExecutionWork
  | Holding ExecutionWork time
  | Probed Result int time
  | Settled

record job =
  job_entry :: nat
  job_consumer :: string
  job_message :: ExecutionMessage
  job_phase :: phase

record pipeline =
  pl_world :: world
  pl_stream :: "fields list"
  pl_cursor :: nat
  pl_pending :: "nat list"
  pl_jobs :: "job list"

text \<open>
  \<open>cycle\<close> of the scheduler and one tick of the dispatcher: of the messages, those whose
  publication did not fail are appended to the stream.
\<close>

definition published :: "golib \<Rightarrow> go_error + ExecutionMessage list \<Rightarrow> fields list \<Rightarrow> bool" where
  "published L r new \<longleftrightarrow>
     (case r of Inl _ \<Rightarrow> new = []
      | Inr msgs \<Rightarrow> \<exists>ok. subseq ok msgs \<and> new = map (publish_fields L) ok)"

inductive pipe_step :: "env \<Rightarrow> golib \<Rightarrow> duration \<Rightarrow> pipeline \<Rightarrow> pipeline \<Rightarrow> bool" for E L idle where
  schedule: "ProbeRepo_ScheduleDue E batch now (pl_world s) = (r, w') \<Longrightarrow> published L r new \<Longrightarrow>
     pipe_step E L idle s (s\<lparr>pl_world := w', pl_stream := pl_stream s @ new\<rparr>)"
| recover: "ProbeRepo_QueuedBefore E before n (pl_world s) = (r, w') \<Longrightarrow> published L r new \<Longrightarrow>
     pipe_step E L idle s (s\<lparr>pl_world := w', pl_stream := pl_stream s @ new\<rparr>)"
| deliver: "pl_cursor s < length (pl_stream s) \<Longrightarrow> decode L (pl_stream s ! pl_cursor s) = Inr m \<Longrightarrow>
     pipe_step E L idle s (s\<lparr>pl_cursor := Suc (pl_cursor s), pl_pending := pl_cursor s # pl_pending s,
       pl_jobs := \<lparr>job_entry = pl_cursor s, job_consumer = c, job_message = m, job_phase = Received\<rparr> # pl_jobs s\<rparr>)"
| deliver_bad: "pl_cursor s < length (pl_stream s) \<Longrightarrow> decode L (pl_stream s ! pl_cursor s) = Inl e \<Longrightarrow>
     pipe_step E L idle s (s\<lparr>pl_cursor := Suc (pl_cursor s), pl_pending := pl_cursor s # pl_pending s\<rparr>)"
| claim: "i \<in> set (pl_pending s) \<Longrightarrow> decode L (pl_stream s ! i) = Inr m \<Longrightarrow>
     pipe_step E L idle s (s\<lparr>pl_jobs :=
       \<lparr>job_entry = i, job_consumer = c, job_message = m, job_phase = Received\<rparr> # pl_jobs s\<rparr>)"
| look: "pl_jobs s = js @ j # js' \<Longrightarrow> job_phase j = Received \<Longrightarrow>
     process_look E (Msg_ExecutionID (job_message j)) (pl_world s) = (Inr r, w') \<Longrightarrow>
     pipe_step E L idle s (s\<lparr>pl_world := w', pl_jobs := js @
       j\<lparr>job_phase := (case r of None \<Rightarrow> Settled | Some work \<Rightarrow> Looked work)\<rparr> # js'\<rparr>)"
| look_fails: "pl_jobs s = js @ j # js' \<Longrightarrow> job_phase j = Received \<Longrightarrow>
     process_look E (Msg_ExecutionID (job_message j)) (pl_world s) = (Inl e, w') \<Longrightarrow>
     pipe_step E L idle s (s\<lparr>pl_world := w', pl_jobs := js @ js'\<rparr>)"
| take: "pl_jobs s = js @ j # js' \<Longrightarrow> job_phase j = Looked work \<Longrightarrow>
     process_take E idle (Msg_ExecutionID (job_message j)) (job_consumer j) (pl_world s) = (Inr (), w') \<Longrightarrow>
     pipe_step E L idle s (s\<lparr>pl_world := tick w', pl_jobs := js @
       j\<lparr>job_phase := Holding work (env_clock E (w_tick w'))\<rparr> # js'\<rparr>)"
| take_fails: "pl_jobs s = js @ j # js' \<Longrightarrow> job_phase j = Looked work \<Longrightarrow>
     process_take E idle (Msg_ExecutionID (job_message j)) (job_consumer j) (pl_world s) = (Inl e, w') \<Longrightarrow>
     pipe_step E L idle s (s\<lparr>pl_world := w', pl_jobs := js @ js'\<rparr>)"
| probe: "pl_jobs s = js @ j # js' \<Longrightarrow> job_phase j = Holding work started \<Longrightarrow>
     process_probe implementation waitFor work w = (Inr (result, attempts), w') \<Longrightarrow>
     pipe_step E L idle s (s\<lparr>pl_jobs := js @ j\<lparr>job_phase := Probed result attempts started\<rparr> # js'\<rparr>)"
| settle: "pl_jobs s = js @ j # js' \<Longrightarrow> job_phase j = Probed result attempts started \<Longrightarrow>
     process_settle E (Msg_ExecutionID (job_message j)) (job_consumer j) started result attempts (pl_world s)
       = (Inr (), w') \<Longrightarrow>
     pipe_step E L idle s (s\<lparr>pl_world := w', pl_jobs := js @ j\<lparr>job_phase := Settled\<rparr> # js'\<rparr>)"
| settle_fails: "pl_jobs s = js @ j # js' \<Longrightarrow> job_phase j = Probed result attempts started \<Longrightarrow>
     process_settle E (Msg_ExecutionID (job_message j)) (job_consumer j) started result attempts (pl_world s)
       = (Inl e, w') \<Longrightarrow>
     pipe_step E L idle s (s\<lparr>pl_world := w', pl_jobs := js @ js'\<rparr>)"
| ack: "pl_jobs s = js @ j # js' \<Longrightarrow> job_phase j = Settled \<Longrightarrow>
     pipe_step E L idle s (s\<lparr>pl_pending := removeAll (job_entry j) (pl_pending s), pl_jobs := js @ js'\<rparr>)"
| lose: "pl_jobs s = js @ j # js' \<Longrightarrow> pipe_step E L idle s (s\<lparr>pl_jobs := js @ js'\<rparr>)"
| fleet: "pipe_step E L idle s (s\<lparr>pl_world := run_fleet E L req (pl_world s)\<rparr>)"
| elsewhere: "T_hosts (w_db w') = T_hosts (w_db (pl_world s)) \<Longrightarrow>
     T_services (w_db w') = T_services (w_db (pl_world s)) \<Longrightarrow> T_tasks (w_db w') = T_tasks (w_db (pl_world s)) \<Longrightarrow>
     T_results (w_db w') = T_results (w_db (pl_world s)) \<Longrightarrow>
     pipe_step E L idle s (s\<lparr>pl_world := w'\<rparr>)"

inductive_cases pipe_stepE: "pipe_step E L idle s s'"

definition pipe_start :: "world \<Rightarrow> pipeline" where
  "pipe_start w = \<lparr>pl_world = w, pl_stream = [], pl_cursor = 0, pl_pending = [], pl_jobs = []\<rparr>"

section \<open>The invariant\<close>

abbreviation pl_db :: "pipeline \<Rightarrow> db" where
  "pl_db s \<equiv> w_db (pl_world s)"

text \<open>An entry stands for an execution when its message decodes to the execution's identifier.\<close>

definition entry_for :: "env \<Rightarrow> golib \<Rightarrow> pipeline \<Rightarrow> nat \<Rightarrow> Execution \<Rightarrow> bool" where
  "entry_for E L s i x \<longleftrightarrow>
     (\<exists>m. decode L (pl_stream s ! i) = Inr m \<and> has_execution_id E (Msg_ExecutionID m) x)"

definition work_ok :: "phase \<Rightarrow> bool" where
  "work_ok p \<longleftrightarrow>
     (case p of Looked work \<Rightarrow> task_ok (Work_Task work) | Holding work _ \<Rightarrow> task_ok (Work_Task work)
      | Probed _ attempts _ \<Rightarrow> 1 \<le> attempts | _ \<Rightarrow> True)"

definition job_ok :: "env \<Rightarrow> golib \<Rightarrow> pipeline \<Rightarrow> job \<Rightarrow> bool" where
  "job_ok E L s j \<longleftrightarrow>
     job_entry j < pl_cursor s \<and> decode L (pl_stream s ! job_entry j) = Inr (job_message j) \<and>
     work_ok (job_phase j) \<and>
     (job_phase j = Settled \<longrightarrow> settled E (pl_db s) (Msg_ExecutionID (job_message j)))"

definition stream_ok :: "env \<Rightarrow> golib \<Rightarrow> pipeline \<Rightarrow> bool" where
  "stream_ok E L s \<longleftrightarrow>
     pl_cursor s \<le> length (pl_stream s) \<and> (\<forall>i\<in>set (pl_pending s). i < pl_cursor s) \<and>
     (\<forall>i<pl_cursor s. i \<notin> set (pl_pending s) \<longrightarrow>
        (\<exists>m. decode L (pl_stream s ! i) = Inr m \<and> settled E (pl_db s) (Msg_ExecutionID m))) \<and>
     (\<forall>j\<in>set (pl_jobs s). job_ok E L s j)"

definition rows_inv :: "env \<Rightarrow> golib \<Rightarrow> db \<Rightarrow> bool" where
  "rows_inv E L d \<longleftrightarrow>
     fleet_inv (env_coll E) L d \<and> (\<forall>x\<in>set (T_results d). exec_ok x) \<and>
     unique_by (execution_uk (env_coll E)) (T_results d)"

definition running_pending :: "env \<Rightarrow> golib \<Rightarrow> pipeline \<Rightarrow> bool" where
  "running_pending E L s \<longleftrightarrow>
     (\<forall>x\<in>set (T_results (pl_db s)). Exec_Status x = ExecutionRunning \<longrightarrow>
        (\<exists>i\<in>set (pl_pending s). entry_for E L s i x))"

definition pipe_inv :: "env \<Rightarrow> golib \<Rightarrow> pipeline \<Rightarrow> bool" where
  "pipe_inv E L s \<longleftrightarrow> rows_inv E L (pl_db s) \<and> stream_ok E L s \<and> running_pending E L s"

section \<open>How the database moves in a step\<close>

definition no_new_running :: "db \<Rightarrow> db \<Rightarrow> bool" where
  "no_new_running d d' \<longleftrightarrow>
     (\<forall>x'\<in>set (T_results d'). Exec_Status x' = ExecutionRunning \<longrightarrow>
        (\<exists>x\<in>set (T_results d). Exec_Status x = ExecutionRunning \<and> Exec_ExecutionID x = Exec_ExecutionID x'))"

lemma no_new_running_same: "T_results d' = T_results d \<Longrightarrow> no_new_running d d'"
  by (auto simp: no_new_running_def)

lemma fleet_inv_cong:
  "T_hosts d' = T_hosts d \<Longrightarrow> T_services d' = T_services d \<Longrightarrow> T_tasks d' = T_tasks d \<Longrightarrow>
     fleet_inv C L d' = fleet_inv C L d"
  by (simp add: fleet_inv_def keys_unique_def rows_ok_def services_supported_def tasks_supported_def)

lemma task_advanced_same:
  "task_advanced E now ids t t' \<Longrightarrow> Task_ID t' = Task_ID t \<and> Task_Status t' = Task_Status t \<and>
     Task_ServiceID t' = Task_ServiceID t \<and> task_uk C t' = task_uk C t \<and> (task_ok t \<longrightarrow> task_ok t')"
  by (auto simp: task_advanced_def task_uk_def task_ok_def task_limits_def split: if_splits)

lemma task_advanced_uks:
  "list_all2 (task_advanced E now ids) ts ts' \<Longrightarrow> map (task_uk C) ts' = map (task_uk C) ts"
  by (induction rule: list_all2_induct) (simp_all add: task_advanced_same)

lemma fleet_scheduled:
  assumes "fleet_inv C L d" and "scheduled E now rows d msgs d'"
  shows "fleet_inv C L d'"
proof -
  obtain news ts where d': "d' = d\<lparr>T_tasks := ts, T_results := T_results d @ news\<rparr>"
    and adv: "list_all2 (task_advanced E now (due_ids rows)) (T_tasks d) ts"
    using assms(2) unfolding scheduled_def by blast
  have "task_ok t'" if "t' \<in> set ts" for t'
    using list_all2_mem2 [OF adv that] task_advanced_same assms(1)
    by (fastforce simp: fleet_inv_def rows_ok_def)
  moreover have "\<exists>s\<in>set (T_services d). Svc_ID s = Task_ServiceID t' \<and>
      (Task_Status t' = TaskActive \<longrightarrow> Svc_Status s = StatusActive)" if t': "t' \<in> set ts" for t'
  proof -
    obtain t where t: "t \<in> set (T_tasks d)" "task_advanced E now (due_ids rows) t t'"
      using list_all2_mem2 [OF adv t'] by blast
    then show ?thesis
      using task_advanced_same [OF t(2)] assms(1) by (simp add: fleet_inv_def tasks_supported_def)
  qed
  ultimately show ?thesis
    using assms(1) task_advanced_ids [OF adv] task_advanced_uks [OF adv, of C]
    by (simp add: fleet_inv_def keys_unique_def rows_ok_def services_supported_def tasks_supported_def
        d' unique_by_def)
qed

text \<open>A legal move: the invariant of the rows is kept and so is what is settled.\<close>

definition db_move :: "env \<Rightarrow> golib \<Rightarrow> db \<Rightarrow> db \<Rightarrow> bool" where
  "db_move E L d d' \<longleftrightarrow> ledger_step E d d' \<and> (fleet_inv (env_coll E) L d \<longrightarrow> fleet_inv (env_coll E) L d')"

lemma db_move_refl [simp]: "db_move E L d d"
  by (simp add: db_move_def ledger_step_same)

lemma db_move_rows: "db_move E L d d' \<Longrightarrow> rows_inv E L d \<Longrightarrow> rows_inv E L d'"
  using ledger_ok_kept unfolding db_move_def rows_inv_def ledger_step_def by blast

lemma db_move_settled: "db_move E L d d' \<Longrightarrow> settled E d i \<Longrightarrow> settled E d' i"
  unfolding db_move_def settled_def using ledger_terminal_kept by blast

lemma db_move_same_results:
  "T_results d' = T_results d \<Longrightarrow> (fleet_inv (env_coll E) L d \<Longrightarrow> fleet_inv (env_coll E) L d') \<Longrightarrow> db_move E L d d'"
  by (simp add: db_move_def ledger_step_same)

lemma rows_inv_keys:
  "rows_inv E L d \<Longrightarrow> distinct (map Task_ID (T_tasks d)) \<and> distinct (map Svc_ID (T_services d))"
  by (simp add: rows_inv_def fleet_inv_def keys_unique_def)

lemma schedule_move:
  assumes "rows_inv E L (w_db w)" and "ProbeRepo_ScheduleDue E batch now w = (r, w')"
  shows "db_move E L (w_db w) (w_db w') \<and> no_new_running (w_db w) (w_db w')"
proof -
  have w': "w' = snd (ProbeRepo_ScheduleDue E batch now w)" using assms(2) by simp
  have keys: "distinct (map Task_ID (T_tasks (w_db w)))" "distinct (map Svc_ID (T_services (w_db w)))"
    using rows_inv_keys [OF assms(1)] by auto
  show ?thesis
    unfolding w'
  proof (rule all_or_nothing_invariant [where I = "\<lambda>d. db_move E L (w_db w) d \<and> no_new_running (w_db w) d",
        OF ScheduleDue_effect [OF keys]])
    fix msgs d
    assume "\<exists>rows t. rows = due_rows E batch now t (w_db w) \<and> scheduled E now rows (w_db w) msgs d"
    then obtain rows where eff: "scheduled E now rows (w_db w) msgs d" by blast
    obtain news where rs: "T_results d = T_results (w_db w) @ news"
      and q: "list_all2 (\<lambda>(row, m) x. queued_for E row m x) (zip rows msgs) news"
      using eff unfolding scheduled_def by auto
    have "\<forall>x\<in>set news. Exec_Status x = ExecutionQueued"
      using list_all2_mem2 [OF q] queued_for_ok by fastforce
    then have "no_new_running (w_db w) d" by (auto simp: no_new_running_def rs)
    then show "db_move E L (w_db w) d \<and> no_new_running (w_db w) d"
      using ledger_scheduled [OF eff] fleet_scheduled [OF _ eff] by (simp add: db_move_def)
  qed (simp add: no_new_running_same)
qed

lemma QueuedBefore_db: "ProbeRepo_QueuedBefore E before n w = (r, w') \<Longrightarrow> w_db w' = w_db w"
proof -
  assume "ProbeRepo_QueuedBefore E before n w = (r, w')"
  moreover have "w_db (snd (ProbeRepo_QueuedBefore E before n w)) = w_db w"
    unfolding ProbeRepo_QueuedBefore_def by (intro op_bind_reads) (simp_all add: db_query_db)
  ultimately show ?thesis by simp
qed

lemma fleet_inv_results:
  "d' = d\<lparr>T_results := rs\<rparr> \<Longrightarrow> fleet_inv C L d' = fleet_inv C L d"
  by (rule fleet_inv_cong) simp_all

lemma take_move:
  assumes "process_take E idle i c w = (r, w')"
  shows "db_move E L (w_db w) (w_db w') \<and>
    (\<forall>x'\<in>set (T_results (w_db w')). Exec_Status x' = ExecutionRunning \<longrightarrow>
       (\<exists>x\<in>set (T_results (w_db w)). Exec_ExecutionID x = Exec_ExecutionID x' \<and>
          (Exec_Status x = ExecutionRunning \<or> (has_execution_id E i x \<and> \<not> terminal x))))"
    (is "_ \<and> ?new (w_db w')")
proof -
  have w': "w' = snd (process_take E idle i c w)" using assms by simp
  have "ledger_step E (w_db w) (w_db w')" unfolding w' by (rule ledger_process_take)
  moreover have "(fleet_inv (env_coll E) L (w_db w) \<longrightarrow> fleet_inv (env_coll E) L (w_db w')) \<and> ?new (w_db w')"
    unfolding w'
  proof (rule all_or_nothing_invariant [where I = "\<lambda>d. (fleet_inv (env_coll E) L (w_db w) \<longrightarrow>
        fleet_inv (env_coll E) L d) \<and> ?new d", OF process_take_effect])
    fix d assume "\<exists>started u before. d = (w_db w)\<lparr>T_results := map (\<lambda>x. if acquirable E i before x
          then acquired_row E c started u x else x) (T_results (w_db w))\<rparr>"
    then obtain started u before where d: "d = (w_db w)\<lparr>T_results := map (\<lambda>x. if acquirable E i before x
          then acquired_row E c started u x else x) (T_results (w_db w))\<rparr>" by blast
    have "?new d"
      by (auto simp: d acquirable_def acquired_row_def terminal_def)
    then show "(fleet_inv (env_coll E) L (w_db w) \<longrightarrow> fleet_inv (env_coll E) L d) \<and> ?new d"
      using fleet_inv_results [OF d] by simp
  qed auto
  ultimately show ?thesis by (simp add: db_move_def)
qed

lemma settle_move:
  assumes "process_settle E i c started result attempts w = (r, w')" and "1 \<le> attempts"
  shows "db_move E L (w_db w) (w_db w') \<and> no_new_running (w_db w) (w_db w')"
proof -
  have w': "w' = snd (process_settle E i c started result attempts w)" using assms by simp
  have "ledger_step E (w_db w) (w_db w')" unfolding w' by (rule ledger_process_settle [OF assms(2)])
  moreover have "(fleet_inv (env_coll E) L (w_db w) \<longrightarrow> fleet_inv (env_coll E) L (w_db w')) \<and>
      no_new_running (w_db w) (w_db w')"
    unfolding w'
  proof (rule all_or_nothing_invariant [where I = "\<lambda>d. (fleet_inv (env_coll E) L (w_db w) \<longrightarrow>
        fleet_inv (env_coll E) L d) \<and> no_new_running (w_db w) d", OF process_settle_effect])
    fix d assume "\<exists>finished duration u. d = (w_db w)\<lparr>T_results := map (\<lambda>x. if finishable E i c x
          then finished_row E finished duration result attempts u x else x) (T_results (w_db w))\<rparr>"
    then obtain finished duration u where d: "d = (w_db w)\<lparr>T_results := map (\<lambda>x. if finishable E i c x
          then finished_row E finished duration result attempts u x else x) (T_results (w_db w))\<rparr>" by blast
    have "no_new_running (w_db w) d"
      by (auto simp: no_new_running_def d finished_row_def)
    then show "(fleet_inv (env_coll E) L (w_db w) \<longrightarrow> fleet_inv (env_coll E) L d) \<and> no_new_running (w_db w) d"
      using fleet_inv_results [OF d] by simp
  qed (auto simp: no_new_running_same)
  ultimately show ?thesis by (simp add: db_move_def)
qed

section \<open>The invariant is kept\<close>

lemma pl_fields [simp]:
  "job_ok E L (s\<lparr>pl_jobs := js\<rparr>) = job_ok E L s" "entry_for E L (s\<lparr>pl_jobs := js\<rparr>) = entry_for E L s"
  by (simp_all add: job_ok_def entry_for_def fun_eq_iff)

lemma settled_terminal:
  assumes "rows_inv E L d" and "settled E d i" and "x \<in> set (T_results d)" and "has_execution_id E i x"
  shows "terminal x"
proof -
  obtain y where y: "y \<in> set (T_results d)" "has_execution_id E i y" "terminal y"
    using assms(2) unfolding settled_def by blast
  have "execution_uk (env_coll E) x = execution_uk (env_coll E) y"
    using assms(4) y(2) by (simp add: has_execution_id_def execution_uk_def)
  then show ?thesis
    using unique_by_eq [of "execution_uk (env_coll E)" "T_results d" x y] assms(1,3) y by (simp add: rows_inv_def)
qed

lemma jobs_step:
  assumes "pipe_inv E L s" and "\<And>j. j \<in> set js \<Longrightarrow> job_ok E L s j"
  shows "pipe_inv E L (s\<lparr>pl_jobs := js\<rparr>)"
  using assms by (simp add: pipe_inv_def stream_ok_def running_pending_def)

lemma job_ok_world:
  assumes "job_ok E L s j" and "pl_cursor s \<le> length (pl_stream s)" and "db_move E L (pl_db s) (w_db w')"
  shows "job_ok E L (s\<lparr>pl_world := w', pl_stream := pl_stream s @ new\<rparr>) j"
  using assms db_move_settled [OF assms(3)] by (simp add: job_ok_def nth_append)

lemma stream_ok_acked:
  "stream_ok E L s \<Longrightarrow> i < pl_cursor s \<Longrightarrow> i \<notin> set (pl_pending s) \<Longrightarrow>
     \<exists>m. decode L (pl_stream s ! i) = Inr m \<and> settled E (pl_db s) (Msg_ExecutionID m)"
  by (simp add: stream_ok_def)

lemma stream_ok_world:
  assumes ok: "stream_ok E L s" and move: "db_move E L (pl_db s) (w_db w')"
  shows "stream_ok E L (s\<lparr>pl_world := w', pl_stream := pl_stream s @ new\<rparr>)"
proof -
  have len: "pl_cursor s \<le> length (pl_stream s)" using ok by (simp add: stream_ok_def)
  have "\<exists>m. decode L ((pl_stream s @ new) ! i) = Inr m \<and> settled E (w_db w') (Msg_ExecutionID m)"
    if i: "i < pl_cursor s" "i \<notin> set (pl_pending s)" for i
  proof -
    obtain m where "decode L (pl_stream s ! i) = Inr m" "settled E (pl_db s) (Msg_ExecutionID m)"
      using stream_ok_acked [OF ok i] by blast
    moreover have "(pl_stream s @ new) ! i = pl_stream s ! i" using i(1) len by (simp add: nth_append)
    ultimately show ?thesis using db_move_settled [OF move] by auto
  qed
  then show ?thesis
    using ok len job_ok_world [OF _ len move] by (simp add: stream_ok_def)
qed

lemma running_pending_world:
  assumes run: "running_pending E L s" and ok: "stream_ok E L s"
    and new: "\<And>x'. x' \<in> set (T_results (w_db w')) \<Longrightarrow> Exec_Status x' = ExecutionRunning \<Longrightarrow>
      (\<exists>x\<in>set (T_results (pl_db s)). Exec_Status x = ExecutionRunning \<and> Exec_ExecutionID x = Exec_ExecutionID x') \<or>
      (\<exists>i\<in>set (pl_pending s). entry_for E L s i x')"
  shows "running_pending E L (s\<lparr>pl_world := w', pl_stream := pl_stream s @ extra\<rparr>)"
proof -
  have entry: "entry_for E L (s\<lparr>pl_world := w', pl_stream := pl_stream s @ extra\<rparr>) i x = entry_for E L s i x"
    if "i \<in> set (pl_pending s)" for i x
    using that ok by (auto simp: stream_ok_def entry_for_def nth_append)
  have "\<exists>i\<in>set (pl_pending s). entry_for E L s i x'"
    if x': "x' \<in> set (T_results (w_db w'))" "Exec_Status x' = ExecutionRunning" for x'
  proof (cases "\<exists>i\<in>set (pl_pending s). entry_for E L s i x'")
    case False
    then obtain x where x: "x \<in> set (T_results (pl_db s))" "Exec_Status x = ExecutionRunning"
      "Exec_ExecutionID x = Exec_ExecutionID x'" using new [OF x'] by blast
    then obtain i where "i \<in> set (pl_pending s)" "entry_for E L s i x"
      using run unfolding running_pending_def by blast
    then show ?thesis using x(3) by (auto simp: entry_for_def has_execution_id_def)
  qed
  then show ?thesis using entry by (simp add: running_pending_def)
qed

lemma world_step:
  assumes inv: "pipe_inv E L s" and move: "db_move E L (pl_db s) (w_db w')"
    and new: "no_new_running (pl_db s) (w_db w')"
  shows "pipe_inv E L (s\<lparr>pl_world := w', pl_stream := pl_stream s @ extra\<rparr>)"
  unfolding pipe_inv_def
proof (intro conjI)
  show "rows_inv E L (pl_db (s\<lparr>pl_world := w', pl_stream := pl_stream s @ extra\<rparr>))"
    using inv db_move_rows [OF move] by (simp add: pipe_inv_def)
  show "stream_ok E L (s\<lparr>pl_world := w', pl_stream := pl_stream s @ extra\<rparr>)"
    using inv by (intro stream_ok_world move) (simp add: pipe_inv_def)
  show "running_pending E L (s\<lparr>pl_world := w', pl_stream := pl_stream s @ extra\<rparr>)"
    by (rule running_pending_world) (use inv new in \<open>simp_all add: pipe_inv_def no_new_running_def\<close>)
qed

lemma world_jobs_step:
  assumes inv: "pipe_inv E L s" and move: "db_move E L (pl_db s) (w_db w')"
    and new: "no_new_running (pl_db s) (w_db w')"
    and jobs: "\<And>j. j \<in> set js \<Longrightarrow> job_ok E L (s\<lparr>pl_world := w'\<rparr>) j"
  shows "pipe_inv E L (s\<lparr>pl_world := w', pl_jobs := js\<rparr>)"
proof -
  have "pipe_inv E L (s\<lparr>pl_world := w', pl_stream := pl_stream s @ []\<rparr>)"
    by (rule world_step [OF inv move new])
  then have "pipe_inv E L (s\<lparr>pl_world := w'\<rparr>)" by simp
  from jobs_step [OF this jobs] show ?thesis by simp
qed

lemma pipe_inv_jobs: "pipe_inv E L s \<Longrightarrow> j \<in> set (pl_jobs s) \<Longrightarrow> job_ok E L s j"
  by (simp add: pipe_inv_def stream_ok_def)

lemma job_ok_kept:
  assumes "pipe_inv E L s" and "j \<in> set (pl_jobs s)" and "db_move E L (pl_db s) (w_db w')"
  shows "job_ok E L (s\<lparr>pl_world := w'\<rparr>) j"
  using job_ok_world [of E L s j w' "[]"] assms by (simp add: pipe_inv_def stream_ok_def)

lemma job_ok_phase:
  "job_ok E L s j \<Longrightarrow> work_ok p \<Longrightarrow> (p = Settled \<Longrightarrow> settled E (pl_db s) (Msg_ExecutionID (job_message j))) \<Longrightarrow>
     job_ok E L s (j\<lparr>job_phase := p\<rparr>)"
  by (simp add: job_ok_def)

lemma inv_published: "pipe_inv E L s \<Longrightarrow> ProbeRepo_ScheduleDue E batch now (pl_world s) = (r, w') \<Longrightarrow>
    pipe_inv E L (s\<lparr>pl_world := w', pl_stream := pl_stream s @ new\<rparr>)"
  using schedule_move [of E L "pl_world s"] by (intro world_step) (auto simp: pipe_inv_def)

lemma inv_deliver:
  assumes inv: "pipe_inv E L s" and c: "pl_cursor s < length (pl_stream s)"
  shows "pipe_inv E L (s\<lparr>pl_cursor := Suc (pl_cursor s), pl_pending := pl_cursor s # pl_pending s\<rparr>)"
proof -
  have "job_ok E L (s\<lparr>pl_cursor := Suc (pl_cursor s), pl_pending := pl_cursor s # pl_pending s\<rparr>) j"
    if "j \<in> set (pl_jobs s)" for j
    using pipe_inv_jobs [OF inv that] by (auto simp: job_ok_def)
  then show ?thesis
    using inv c
    by (fastforce simp: pipe_inv_def stream_ok_def running_pending_def entry_for_def less_Suc_eq)
qed

lemma inv_ack:
  assumes inv: "pipe_inv E L s" and js: "pl_jobs s = js @ j # js'" and ph: "job_phase j = Settled"
  shows "pipe_inv E L (s\<lparr>pl_pending := removeAll (job_entry j) (pl_pending s), pl_jobs := js @ js'\<rparr>)"
proof -
  have j: "decode L (pl_stream s ! job_entry j) = Inr (job_message j)"
    "settled E (pl_db s) (Msg_ExecutionID (job_message j))"
    using pipe_inv_jobs [OF inv, of j] js ph by (auto simp: job_ok_def)
  have "\<exists>i\<in>set (pl_pending s) - {job_entry j}. entry_for E L s i x"
    if x: "x \<in> set (T_results (pl_db s))" "Exec_Status x = ExecutionRunning" for x
  proof -
    obtain i where i: "i \<in> set (pl_pending s)" "entry_for E L s i x"
      using inv x unfolding pipe_inv_def running_pending_def by blast
    have "i \<noteq> job_entry j"
    proof
      assume "i = job_entry j"
      then have "has_execution_id E (Msg_ExecutionID (job_message j)) x"
        using i(2) j(1) by (auto simp: entry_for_def)
      then have "terminal x" using settled_terminal [OF _ j(2) x(1)] inv by (auto simp: pipe_inv_def)
      then show False using x(2) by (simp add: terminal_def)
    qed
    then show ?thesis using i by blast
  qed
  moreover have "job_ok E L (s\<lparr>pl_pending := p, pl_jobs := q\<rparr>) k = job_ok E L s k" for p q k
    by (simp add: job_ok_def)
  ultimately show ?thesis
    using inv j js
    by (auto simp: pipe_inv_def stream_ok_def running_pending_def entry_for_def)
qed

lemma inv_take:
  assumes inv: "pipe_inv E L s" and j: "j \<in> set (pl_jobs s)"
    and run: "process_take E idle (Msg_ExecutionID (job_message j)) c (pl_world s) = (r, w')"
    and jobs: "\<And>k. k \<in> set js \<Longrightarrow> job_ok E L (s\<lparr>pl_world := w'\<rparr>) k"
  shows "pipe_inv E L (s\<lparr>pl_world := w', pl_jobs := js\<rparr>)"
proof -
  let ?m = "job_message j"
  note move = take_move [OF run, of L]
  have jk: "job_ok E L s j" using pipe_inv_jobs [OF inv j] .
  have pend: "job_entry j \<in> set (pl_pending s)"
    if x: "x \<in> set (T_results (pl_db s))" "has_execution_id E (Msg_ExecutionID ?m) x" "\<not> terminal x" for x
  proof (rule ccontr)
    assume "job_entry j \<notin> set (pl_pending s)"
    then have "settled E (pl_db s) (Msg_ExecutionID ?m)"
      using inv jk stream_ok_acked [of E L s "job_entry j"] by (auto simp: pipe_inv_def job_ok_def)
    then show False using settled_terminal x inv by (auto simp: pipe_inv_def)
  qed
  have "running_pending E L (s\<lparr>pl_world := w', pl_stream := pl_stream s @ []\<rparr>)"
  proof (rule running_pending_world)
    fix x' assume x': "x' \<in> set (T_results (w_db w'))" "Exec_Status x' = ExecutionRunning"
    then obtain x where x: "x \<in> set (T_results (pl_db s))" "Exec_ExecutionID x = Exec_ExecutionID x'"
      "Exec_Status x = ExecutionRunning \<or> (has_execution_id E (Msg_ExecutionID ?m) x \<and> \<not> terminal x)"
      using move by blast
    show "(\<exists>x\<in>set (T_results (pl_db s)). Exec_Status x = ExecutionRunning \<and> Exec_ExecutionID x = Exec_ExecutionID x') \<or>
      (\<exists>i\<in>set (pl_pending s). entry_for E L s i x')"
    proof (cases "Exec_Status x = ExecutionRunning")
      case False
      then have "entry_for E L s (job_entry j) x'"
        using x(2,3) jk by (auto simp: entry_for_def job_ok_def has_execution_id_def)
      then show ?thesis using pend [OF x(1)] x(3) False by blast
    qed (use x in blast)
  qed (use inv in \<open>simp_all add: pipe_inv_def\<close>)
  moreover have "rows_inv E L (w_db w')"
    using db_move_rows move inv by (auto simp: pipe_inv_def)
  moreover have "stream_ok E L (s\<lparr>pl_world := w', pl_stream := pl_stream s @ []\<rparr>)"
    by (rule stream_ok_world) (use move inv in \<open>simp_all add: pipe_inv_def\<close>)
  ultimately have "pipe_inv E L (s\<lparr>pl_world := w'\<rparr>)" by (simp add: pipe_inv_def)
  from jobs_step [OF this jobs] show ?thesis by simp
qed

lemma job_ok_db: "w_db w1 = w_db w2 \<Longrightarrow> job_ok E L (s\<lparr>pl_world := w1\<rparr>) j = job_ok E L (s\<lparr>pl_world := w2\<rparr>) j"
  by (simp add: job_ok_def)

lemma pipe_inv_db:
  "w_db w1 = w_db w2 \<Longrightarrow> pipe_inv E L (s\<lparr>pl_world := w1, pl_jobs := js\<rparr>) = pipe_inv E L (s\<lparr>pl_world := w2, pl_jobs := js\<rparr>)"
  by (simp add: pipe_inv_def stream_ok_def running_pending_def job_ok_def entry_for_def)

lemma look_db: "process_look E i w = (r, w') \<Longrightarrow> w_db w' = w_db w"
  using process_look_reads [of E i w] by simp

lemma pipe_step_inv:
  assumes "pipe_step E L idle s s'" and inv: "pipe_inv E L s"
  shows "pipe_inv E L s'"
  using assms(1)
proof cases
  case (schedule batch now r w' new)
  then show ?thesis using inv_published [OF inv] by simp
next
  case (recover before n r w' new)
  then show ?thesis
    using QueuedBefore_db [OF recover(2)] world_step [OF inv, of w' new] by (simp add: no_new_running_same)
next
  case (deliver m c)
  let ?s = "s\<lparr>pl_cursor := Suc (pl_cursor s), pl_pending := pl_cursor s # pl_pending s\<rparr>"
  have d: "pipe_inv E L ?s" by (rule inv_deliver [OF inv deliver(2)])
  have "pipe_inv E L (?s\<lparr>pl_jobs := \<lparr>job_entry = pl_cursor s, job_consumer = c, job_message = m,
      job_phase = Received\<rparr> # pl_jobs s\<rparr>)"
    by (rule jobs_step [OF d])
       (use deliver(3) pipe_inv_jobs [OF d] in \<open>auto simp: job_ok_def work_ok_def\<close>)
  then show ?thesis using deliver(1) by simp
next
  case (deliver_bad e)
  then show ?thesis using inv_deliver [OF inv] by simp
next
  case (claim i m c)
  have "i < pl_cursor s" using inv claim(2) by (simp add: pipe_inv_def stream_ok_def)
  then show ?thesis
    unfolding claim(1)
    by (intro jobs_step inv) (use claim pipe_inv_jobs [OF inv] in \<open>auto simp: job_ok_def work_ok_def\<close>)
next
  case (look js j js' r w')
  have db: "w_db w' = pl_db s" using look_db [OF look(4)] .
  have j: "job_ok E L s j" using pipe_inv_jobs [OF inv, of j] look(2) by simp
  have lim: "\<forall>t\<in>set (T_tasks (pl_db s)). task_ok t"
    using inv by (simp add: pipe_inv_def rows_inv_def fleet_inv_def rows_ok_def)
  have "job_ok E L (s\<lparr>pl_world := w'\<rparr>) (j\<lparr>job_phase := (case r of None \<Rightarrow> Settled | Some work \<Rightarrow> Looked work)\<rparr>)"
    using j look(4) process_look_None [of E _ "pl_world s" w'] process_look_Some [of E _ "pl_world s" _ w'] lim db
    by (cases r) (auto simp: job_ok_def work_ok_def)
  then show ?thesis
    unfolding look(1)
    by (intro world_jobs_step inv)
       (use look(2) job_ok_kept [OF inv] db in \<open>auto simp: no_new_running_same\<close>)
next
  case (look_fails js j js' e w')
  have db: "w_db w' = pl_db s" using look_db [OF look_fails(4)] .
  show ?thesis
    unfolding look_fails(1)
    by (intro world_jobs_step inv)
       (use look_fails(2) job_ok_kept [OF inv] db in \<open>auto simp: no_new_running_same\<close>)
next
  case (take js j js' work w')
  have j: "job_ok E L s j" "j \<in> set (pl_jobs s)" using pipe_inv_jobs [OF inv, of j] take(2) by auto
  have move: "db_move E L (pl_db s) (w_db w')" using take_move [OF take(4)] by blast
  have jk: "job_ok E L (s\<lparr>pl_world := w'\<rparr>) k" if "k \<in> set (pl_jobs s)" for k
    using job_ok_kept [OF inv that move] .
  have "pipe_inv E L (s\<lparr>pl_world := w', pl_jobs := js @ j\<lparr>job_phase := Holding work (env_clock E (w_tick w'))\<rparr> # js'\<rparr>)"
    by (rule inv_take [OF inv j(2) take(4)])
       (use jk take(2,3) j in \<open>auto simp: work_ok_def job_ok_def\<close>)
  then show ?thesis unfolding take(1) by (subst pipe_inv_db [of "tick w'" w']) simp_all
next
  case (take_fails js j js' work e w')
  have move: "db_move E L (pl_db s) (w_db w')" using take_move [OF take_fails(4)] by blast
  show ?thesis
    unfolding take_fails(1)
    by (rule inv_take [OF inv _ take_fails(4)]) (use take_fails(2) job_ok_kept [OF inv _ move] in auto)
next
  case (probe js j js' work started implementation waitFor w result attempts w')
  have j: "job_ok E L s j" using pipe_inv_jobs [OF inv, of j] probe(2) by simp
  then have "0 \<le> Task_MaxRetries (Work_Task work)"
    using probe(3) by (simp add: job_ok_def work_ok_def task_ok_def task_limits_def)
  then have "1 \<le> attempts" using process_probe_attempts [OF probe(4)] by simp
  then show ?thesis
    unfolding probe(1)
    by (intro jobs_step inv) (use probe(2) pipe_inv_jobs [OF inv] j in \<open>auto simp: job_ok_def work_ok_def\<close>)
next
  case (settle js j js' result attempts started w')
  have j: "job_ok E L s j" using pipe_inv_jobs [OF inv, of j] settle(2) by simp
  then have a: "1 \<le> attempts" using settle(3) by (simp add: job_ok_def work_ok_def)
  have move: "db_move E L (pl_db s) (w_db w')" "no_new_running (pl_db s) (w_db w')"
    using settle_move [OF settle(4) a] by auto
  show ?thesis
    unfolding settle(1)
    by (intro world_jobs_step inv move)
       (use settle(2) job_ok_kept [OF inv _ move(1)] process_settle_Inr [OF settle(4)] j in
        \<open>auto simp: job_ok_def work_ok_def\<close>)
next
  case (settle_fails js j js' result attempts started e w')
  have j: "job_ok E L s j" using pipe_inv_jobs [OF inv, of j] settle_fails(2) by simp
  then have a: "1 \<le> attempts" using settle_fails(3) by (simp add: job_ok_def work_ok_def)
  have move: "db_move E L (pl_db s) (w_db w')" "no_new_running (pl_db s) (w_db w')"
    using settle_move [OF settle_fails(4) a] by auto
  show ?thesis
    unfolding settle_fails(1)
    by (intro world_jobs_step inv move) (use settle_fails(2) job_ok_kept [OF inv _ move(1)] in auto)
next
  case (ack js j js')
  then show ?thesis using inv_ack [OF inv] by simp
next
  case (lose js j js')
  then show ?thesis using pipe_inv_jobs [OF inv] by (auto intro!: jobs_step inv)
next
  case (fleet req)
  have res: "T_results (w_db (run_fleet E L req (pl_world s))) = T_results (pl_db s)"
    using run_fleet_audited [of "pl_world s" E L req] by (simp add: audited_change_def)
  have "db_move E L (pl_db s) (w_db (run_fleet E L req (pl_world s)))"
    using db_move_same_results [OF res] run_fleet_inv by blast
  then show ?thesis
    using world_step [OF inv _ no_new_running_same [OF res], of "[]"] fleet by simp
next
  case (elsewhere w')
  have "db_move E L (pl_db s) (w_db w')"
    using elsewhere fleet_inv_cong [of "w_db w'" "pl_db s"] by (intro db_move_same_results) auto
  then show ?thesis
    using world_step [OF inv _ no_new_running_same, of w' "[]"] elsewhere by simp
qed

section \<open>Runs of the pipeline\<close>

lemma pipe_step_move:
  assumes "pipe_step E L idle s s'" and inv: "pipe_inv E L s"
  shows "db_move E L (pl_db s) (pl_db s')"
  using assms(1)
proof cases
  case (schedule batch now r w' new)
  then show ?thesis using schedule_move inv by (auto simp: pipe_inv_def)
next
  case (recover before n r w' new)
  then show ?thesis using QueuedBefore_db [OF recover(2)] by simp
next
  case (look js j js' r w')
  then show ?thesis using look_db [OF look(4)] by simp
next
  case (look_fails js j js' e w')
  then show ?thesis using look_db [OF look_fails(4)] by simp
next
  case (take js j js' work w')
  then show ?thesis using take_move [OF take(4)] by simp
next
  case (take_fails js j js' work e w')
  then show ?thesis using take_move [OF take_fails(4)] by simp
next
  case (settle js j js' result attempts started w')
  have "1 \<le> attempts"
    using pipe_inv_jobs [OF inv, of j] settle(2,3) by (simp add: job_ok_def work_ok_def)
  then show ?thesis using settle_move [OF settle(4)] settle(1) by simp
next
  case (settle_fails js j js' result attempts started e w')
  have "1 \<le> attempts"
    using pipe_inv_jobs [OF inv, of j] settle_fails(2,3) by (simp add: job_ok_def work_ok_def)
  then show ?thesis using settle_move [OF settle_fails(4)] settle_fails(1) by simp
next
  case (fleet req)
  then show ?thesis
    using run_fleet_audited [of "pl_world s" E L req] run_fleet_inv [of E L "pl_world s" req]
    by (auto intro!: db_move_same_results simp: audited_change_def)
next
  case (elsewhere w')
  then show ?thesis
    using fleet_inv_cong [of "w_db w'" "pl_db s"] by (auto intro!: db_move_same_results)
qed simp_all

lemma pipe_steps_inv: "(pipe_step E L idle)\<^sup>*\<^sup>* s s' \<Longrightarrow> pipe_inv E L s \<Longrightarrow> pipe_inv E L s'"
  by (induction rule: rtranclp_induct) (auto intro: pipe_step_inv)

lemma pipe_steps_terminal:
  assumes "(pipe_step E L idle)\<^sup>*\<^sup>* s s'" and "pipe_inv E L s" and "x \<in> set (T_results (pl_db s))" and "terminal x"
  shows "x \<in> set (T_results (pl_db s'))"
  using assms(1)
proof (induction rule: rtranclp_induct)
  case base
  show ?case by (rule assms(3))
next
  case (step y z)
  have "db_move E L (pl_db y) (pl_db z)"
    using pipe_step_move [OF step(2)] pipe_steps_inv [OF step(1) assms(2)] .
  then show ?case
    using ledger_terminal_kept [of E "pl_db y" "pl_db z" x] step(3) assms(4) by (simp add: db_move_def)
qed

lemma pipe_inv_start: "w_db w = empty_db \<Longrightarrow> pipe_inv E L (pipe_start w)"
  using fleet_inv_empty
  by (simp add: pipe_inv_def rows_inv_def stream_ok_def running_pending_def pipe_start_def
      empty_db_def unique_by_def)

end
