(* ===== verification/Scenario.thy ===== *)
theory Scenario
  imports Pipeline
begin

text \<open>
  A concrete environment, concrete library functions and a short run of the program: a host,
  a service and a task are created, the task is scheduled, its message is delivered and its
  execution acquired. The witnesses of the properties evaluate on it.
\<close>

definition env0 :: env where
  "env0 = \<lparr>env_clock = (\<lambda>t. 1000 * second + int t * second), env_fault = (\<lambda>_. None),
     env_lost = (\<lambda>_. False), env_new_id = (\<lambda>_ ids. of_nat (Suc (length ids))),
     env_locked = (\<lambda>_ _. False), env_rand = (\<lambda>_ n. Inr (replicate n CHR ''k'')),
     env_col3 = (\<lambda>t. t), env_coll = (\<lambda>s. s)\<rparr>"

definition lib0 :: golib where
  "lib0 = \<lparr>lib_ToLower = ascii_lower,
     lib_url_Parse = (\<lambda>s. Some \<lparr>url_Scheme = ''http'', url_Hostname = s, url_Port = [],
        url_has_User = False, url_String = s\<rparr>),
     lib_sha256_hex = hex_encode, lib_format_time = Itoa, lib_parse_time = Atoi\<rparr>"

definition md0 :: Metadata where
  "md0 = \<lparr>Meta_RequestID = ''r1'', Meta_ClientIP = ''192.0.2.1'', Meta_UserAgent = ''curl''\<rparr>"

definition host0 :: HostInput where
  "host0 = \<lparr>HostIn_Name = '' web '', HostIn_Address = ''192.0.2.10'', HostIn_Description = []\<rparr>"

definition service0 :: ServiceInput where
  "service0 = \<lparr>SvcIn_HostID = 1, SvcIn_Name = ''ssh'', SvcIn_Type = ''tcp'',
     SvcIn_Target = ''192.0.2.10:22'', SvcIn_Description = []\<rparr>"

definition task0 :: TaskInput where
  "task0 = \<lparr>TaskIn_ServiceID = 1, TaskIn_Name = ''ssh up'', TaskIn_IntervalSeconds = 60,
     TaskIn_TimeoutMilliseconds = 1000, TaskIn_MaxRetries = 2, TaskIn_RetryBaseDelayMilliseconds = 100\<rparr>"

definition world0 :: world where
  "world0 = \<lparr>w_db = empty_db, w_tick = 0\<rparr>"

definition requests0 :: "fleet_request list" where
  "requests0 = [ReqCreateHost host0 1 md0, ReqCreateService service0 1 md0, ReqCreateTask task0 1 md0]"

definition world1 :: world where
  "world1 = run_fleet_all env0 lib0 requests0 world0"

text \<open>The value of the state, so that what follows starts from it.\<close>

lemma world1_value [code]: "world1 = \<lparr>w_db =
    \<lparr>T_users = [],
       T_audit_logs =
         [\<lparr>Log_ID = 1, Log_ActorUserID = Some 1, Log_Username = None,
             Log_Action = ''host.create'', Log_Outcome = ''success'',
             Log_FailureCode = None, Log_ResourceType = Some ''host'',
             Log_ResourceID = Some ''1'', Log_RequestID = Some ''r1'',
             Log_ClientIP = Some ''192.0.2.1'',
             Log_UserAgent = Some ''curl'', Log_Details = None,
             Log_CreatedAt = 1002000000000\<rparr>,
          \<lparr>Log_ID = 2, Log_ActorUserID = Some 1, Log_Username = None,
             Log_Action = ''service.create'', Log_Outcome = ''success'',
             Log_FailureCode = None, Log_ResourceType = Some ''service'',
             Log_ResourceID = Some ''1'', Log_RequestID = Some ''r1'',
             Log_ClientIP = Some ''192.0.2.1'',
             Log_UserAgent = Some ''curl'', Log_Details = None,
             Log_CreatedAt = 1007000000000\<rparr>,
          \<lparr>Log_ID = 3, Log_ActorUserID = Some 1, Log_Username = None,
             Log_Action = ''probe_task.create'', Log_Outcome = ''success'',
             Log_FailureCode = None, Log_ResourceType = Some ''probe_task'',
             Log_ResourceID = Some ''1'', Log_RequestID = Some ''r1'',
             Log_ClientIP = Some ''192.0.2.1'',
             Log_UserAgent = Some ''curl'', Log_Details = None,
             Log_CreatedAt = 1013000000000\<rparr>],
       T_hosts =
         [\<lparr>Host_ID = 1, Host_Name = ''web'', Host_Address = ''192.0.2.10'',
             Host_Description = [], Host_Status = ''active'',
             Host_CreatedBy = 1, Host_UpdatedBy = 1,
             Host_CreatedAt = 1001000000000,
             Host_UpdatedAt = 1001000000000\<rparr>],
       T_services =
         [\<lparr>Svc_ID = 1, Svc_HostID = 1, Svc_Name = ''ssh'',
             Svc_Type = ''tcp'', Svc_Target = ''192.0.2.10:22'',
             Svc_Description = [], Svc_Status = ''active'',
             Svc_CreatedBy = 1, Svc_UpdatedBy = 1,
             Svc_CreatedAt = 1006000000000, Svc_UpdatedAt = 1006000000000\<rparr>],
       T_tasks =
         [\<lparr>Task_ID = 1, Task_ServiceID = 1, Task_Name = ''ssh up'',
             Task_IntervalSeconds = 60, Task_TimeoutMilliseconds = 1000,
             Task_MaxRetries = 2, Task_RetryBaseDelayMilliseconds = 100,
             Task_Status = ''active'', Task_NextRunAt = 1010000000000,
             Task_LastScheduledAt = None, Task_CreatedBy = 1,
             Task_UpdatedBy = 1, Task_CreatedAt = 1012000000000,
             Task_UpdatedAt = 1012000000000\<rparr>],
       T_results = [], T_incidents = []\<rparr>,
    w_tick = 15\<rparr>"
  by code_simp

definition now1 :: time where "now1 = 2000 * second"

definition world2 :: world where
  "world2 = snd (ProbeRepo_ScheduleDue env0 100 now1 world1)"

lemma world2_value [code]: "world2 = \<lparr>w_db =
    \<lparr>T_users = [],
       T_audit_logs =
         [\<lparr>Log_ID = 1, Log_ActorUserID = Some 1, Log_Username = None,
             Log_Action = ''host.create'', Log_Outcome = ''success'',
             Log_FailureCode = None, Log_ResourceType = Some ''host'',
             Log_ResourceID = Some ''1'', Log_RequestID = Some ''r1'',
             Log_ClientIP = Some ''192.0.2.1'',
             Log_UserAgent = Some ''curl'', Log_Details = None,
             Log_CreatedAt = 1002000000000\<rparr>,
          \<lparr>Log_ID = 2, Log_ActorUserID = Some 1, Log_Username = None,
             Log_Action = ''service.create'', Log_Outcome = ''success'',
             Log_FailureCode = None, Log_ResourceType = Some ''service'',
             Log_ResourceID = Some ''1'', Log_RequestID = Some ''r1'',
             Log_ClientIP = Some ''192.0.2.1'',
             Log_UserAgent = Some ''curl'', Log_Details = None,
             Log_CreatedAt = 1007000000000\<rparr>,
          \<lparr>Log_ID = 3, Log_ActorUserID = Some 1, Log_Username = None,
             Log_Action = ''probe_task.create'', Log_Outcome = ''success'',
             Log_FailureCode = None, Log_ResourceType = Some ''probe_task'',
             Log_ResourceID = Some ''1'', Log_RequestID = Some ''r1'',
             Log_ClientIP = Some ''192.0.2.1'',
             Log_UserAgent = Some ''curl'', Log_Details = None,
             Log_CreatedAt = 1013000000000\<rparr>],
       T_hosts =
         [\<lparr>Host_ID = 1, Host_Name = ''web'', Host_Address = ''192.0.2.10'',
             Host_Description = [], Host_Status = ''active'',
             Host_CreatedBy = 1, Host_UpdatedBy = 1,
             Host_CreatedAt = 1001000000000,
             Host_UpdatedAt = 1001000000000\<rparr>],
       T_services =
         [\<lparr>Svc_ID = 1, Svc_HostID = 1, Svc_Name = ''ssh'',
             Svc_Type = ''tcp'', Svc_Target = ''192.0.2.10:22'',
             Svc_Description = [], Svc_Status = ''active'',
             Svc_CreatedBy = 1, Svc_UpdatedBy = 1,
             Svc_CreatedAt = 1006000000000, Svc_UpdatedAt = 1006000000000\<rparr>],
       T_tasks =
         [\<lparr>Task_ID = 1, Task_ServiceID = 1, Task_Name = ''ssh up'',
             Task_IntervalSeconds = 60, Task_TimeoutMilliseconds = 1000,
             Task_MaxRetries = 2, Task_RetryBaseDelayMilliseconds = 100,
             Task_Status = ''active'', Task_NextRunAt = 2060000000000,
             Task_LastScheduledAt = Some 1010000000000, Task_CreatedBy = 1,
             Task_UpdatedBy = 1, Task_CreatedAt = 1012000000000,
             Task_UpdatedAt = 1019000000000\<rparr>],
       T_results =
         [\<lparr>Exec_ID = 1,
             Exec_ExecutionID = ''6b6b6b6b6b6b6b6b6b6b6b6b6b6b6b6b'',
             Exec_TaskID = 1, Exec_ServiceID = 1, Exec_ProbeType = ''tcp'',
             Exec_TargetSnapshot = ''192.0.2.10:22'',
             Exec_ScheduledAt = 1010000000000, Exec_StartedAt = None,
             Exec_FinishedAt = None, Exec_DurationMilliseconds = None,
             Exec_Status = ''queued'', Exec_Success = None,
             Exec_AttemptCount = 0, Exec_HTTPStatusCode = None,
             Exec_ErrorCode = None, Exec_ErrorMessage = None,
             Exec_WorkerConsumer = None, Exec_CreatedAt = 1018000000000,
             Exec_UpdatedAt = 1018000000000\<rparr>],
       T_incidents = []\<rparr>,
    w_tick = 21\<rparr>"
  by code_simp

text \<open>The scheduled message, delivered to the worker \<open>w1\<close>, looked up and acquired.\<close>

definition message0 :: ExecutionMessage where
  "message0 = \<lparr>Msg_ExecutionID = hex_encode (replicate 16 CHR ''k''), Msg_TaskID = 1,
     Msg_ScheduledAt = 1010 * second\<rparr>"

definition work0 :: ExecutionWork where
  "work0 = \<lparr>Work_Execution = hd (T_results (w_db world2)), Work_Task = hd (T_tasks (w_db world2))\<rparr>"

definition world3 :: world where
  "world3 = snd (process_look env0 (Msg_ExecutionID message0) world2)"

definition world4 :: world where
  "world4 = snd (process_take env0 (30 * minute) (Msg_ExecutionID message0) ''w1'' world3)"

lemma world4_value [code]: "world4 = \<lparr>w_db =
    \<lparr>T_users = [],
       T_audit_logs =
         [\<lparr>Log_ID = 1, Log_ActorUserID = Some 1, Log_Username = None,
             Log_Action = ''host.create'', Log_Outcome = ''success'',
             Log_FailureCode = None, Log_ResourceType = Some ''host'',
             Log_ResourceID = Some ''1'', Log_RequestID = Some ''r1'',
             Log_ClientIP = Some ''192.0.2.1'',
             Log_UserAgent = Some ''curl'', Log_Details = None,
             Log_CreatedAt = 1002000000000\<rparr>,
          \<lparr>Log_ID = 2, Log_ActorUserID = Some 1, Log_Username = None,
             Log_Action = ''service.create'', Log_Outcome = ''success'',
             Log_FailureCode = None, Log_ResourceType = Some ''service'',
             Log_ResourceID = Some ''1'', Log_RequestID = Some ''r1'',
             Log_ClientIP = Some ''192.0.2.1'',
             Log_UserAgent = Some ''curl'', Log_Details = None,
             Log_CreatedAt = 1007000000000\<rparr>,
          \<lparr>Log_ID = 3, Log_ActorUserID = Some 1, Log_Username = None,
             Log_Action = ''probe_task.create'', Log_Outcome = ''success'',
             Log_FailureCode = None, Log_ResourceType = Some ''probe_task'',
             Log_ResourceID = Some ''1'', Log_RequestID = Some ''r1'',
             Log_ClientIP = Some ''192.0.2.1'',
             Log_UserAgent = Some ''curl'', Log_Details = None,
             Log_CreatedAt = 1013000000000\<rparr>],
       T_hosts =
         [\<lparr>Host_ID = 1, Host_Name = ''web'', Host_Address = ''192.0.2.10'',
             Host_Description = [], Host_Status = ''active'',
             Host_CreatedBy = 1, Host_UpdatedBy = 1,
             Host_CreatedAt = 1001000000000,
             Host_UpdatedAt = 1001000000000\<rparr>],
       T_services =
         [\<lparr>Svc_ID = 1, Svc_HostID = 1, Svc_Name = ''ssh'',
             Svc_Type = ''tcp'', Svc_Target = ''192.0.2.10:22'',
             Svc_Description = [], Svc_Status = ''active'',
             Svc_CreatedBy = 1, Svc_UpdatedBy = 1,
             Svc_CreatedAt = 1006000000000, Svc_UpdatedAt = 1006000000000\<rparr>],
       T_tasks =
         [\<lparr>Task_ID = 1, Task_ServiceID = 1, Task_Name = ''ssh up'',
             Task_IntervalSeconds = 60, Task_TimeoutMilliseconds = 1000,
             Task_MaxRetries = 2, Task_RetryBaseDelayMilliseconds = 100,
             Task_Status = ''active'', Task_NextRunAt = 2060000000000,
             Task_LastScheduledAt = Some 1010000000000, Task_CreatedBy = 1,
             Task_UpdatedBy = 1, Task_CreatedAt = 1012000000000,
             Task_UpdatedAt = 1019000000000\<rparr>],
       T_results =
         [\<lparr>Exec_ID = 1,
             Exec_ExecutionID = ''6b6b6b6b6b6b6b6b6b6b6b6b6b6b6b6b'',
             Exec_TaskID = 1, Exec_ServiceID = 1, Exec_ProbeType = ''tcp'',
             Exec_TargetSnapshot = ''192.0.2.10:22'',
             Exec_ScheduledAt = 1010000000000,
             Exec_StartedAt = Some 1023000000000, Exec_FinishedAt = None,
             Exec_DurationMilliseconds = None,
             Exec_Status = ''running'', Exec_Success = None,
             Exec_AttemptCount = 0, Exec_HTTPStatusCode = None,
             Exec_ErrorCode = None, Exec_ErrorMessage = None,
             Exec_WorkerConsumer = Some ''w1'',
             Exec_CreatedAt = 1018000000000,
             Exec_UpdatedAt = 1025000000000\<rparr>],
       T_incidents = []\<rparr>,
    w_tick = 27\<rparr>"
  by code_simp

definition job0 :: "phase \<Rightarrow> job" where
  "job0 p = \<lparr>job_entry = 0, job_consumer = ''w1'', job_message = message0, job_phase = p\<rparr>"

definition pipe2 :: pipeline where
  "pipe2 = (pipe_start world2)\<lparr>pl_stream := [publish_fields lib0 message0]\<rparr>"

definition pipe4 :: pipeline where
  "pipe4 = \<lparr>pl_world = tick world4, pl_stream = [publish_fields lib0 message0], pl_cursor = 1,
     pl_pending = [0], pl_jobs = [job0 (Holding work0 (env_clock env0 (w_tick world4)))]\<rparr>"

lemma scenario_schedule: "fst (ProbeRepo_ScheduleDue env0 100 now1 world1) = Inr [message0]"
  by code_simp

lemma scenario_look: "fst (process_look env0 (Msg_ExecutionID message0) world2) = Inr (Some work0)"
  by code_simp

lemma scenario_take:
  "fst (process_take env0 (30 * minute) (Msg_ExecutionID message0) ''w1'' world3) = Inr ()"
  by code_simp

lemma scenario_running: "map Exec_Status (T_results (w_db world4)) = [ExecutionRunning]"
  by code_simp

lemma scenario_decode: "decode lib0 (publish_fields lib0 message0) = Inr message0"
  by code_simp

text \<open>The run, step by step.\<close>

lemma scenario_fleet:
  "(pipe_step env0 lib0 (30 * minute))\<^sup>*\<^sup>* (pipe_start w) (pipe_start (run_fleet_all env0 lib0 reqs w))"
proof (induction reqs arbitrary: w)
  case Nil
  show ?case by (simp add: run_fleet_all_def)
next
  case (Cons r reqs)
  have "pipe_step env0 lib0 (30 * minute) (pipe_start w) (pipe_start (run_fleet env0 lib0 r w))"
    using pipe_step.fleet [of env0 lib0 "30 * minute" "pipe_start w" r] by (simp add: pipe_start_def)
  then show ?case
    using Cons [of "run_fleet env0 lib0 r w"] by (simp add: run_fleet_all_def converse_rtranclp_into_rtranclp)
qed

lemma scenario_start: "(pipe_step env0 lib0 (30 * minute))\<^sup>*\<^sup>* (pipe_start world0) pipe2"
proof -
  have "pipe_step env0 lib0 (30 * minute) (pipe_start world1) pipe2"
    using pipe_step.schedule [of env0 100 now1 "pipe_start world1" "Inr [message0]" world2 lib0
        "[publish_fields lib0 message0]" "30 * minute"] scenario_schedule
    by (simp add: pipe_start_def pipe2_def published_def world2_def prod_eq_iff
        exI [of _ "[message0]"])
  then show ?thesis
    using scenario_fleet [of world0 requests0] by (simp add: world1_def)
qed

lemma scenario_run:
  "(pipe_step env0 lib0 (30 * minute))\<^sup>*\<^sup>* (pipe_start world0) pipe4"
proof -
  let ?S = "pipe_step env0 lib0 (30 * minute)"
  let ?pa = "pipe2\<lparr>pl_cursor := 1, pl_pending := [0], pl_jobs := [job0 Received]\<rparr>"
  let ?pb = "pipe2\<lparr>pl_world := world3, pl_cursor := 1, pl_pending := [0], pl_jobs := [job0 (Looked work0)]\<rparr>"
  have "?S pipe2 ?pa"
    using pipe_step.deliver [of pipe2 lib0 message0 env0 "30 * minute" "''w1''"] scenario_decode
    by (simp add: pipe2_def pipe_start_def job0_def)
  moreover have "?S ?pa ?pb"
    using pipe_step.look [of ?pa "[]" "job0 Received" "[]" env0 "Some work0" world3 lib0 "30 * minute"] scenario_look
    by (simp add: pipe2_def pipe_start_def job0_def world3_def prod_eq_iff)
  moreover have "?S ?pb pipe4"
    using pipe_step.take [of ?pb "[]" "job0 (Looked work0)" "[]" work0 env0 "30 * minute" world4 lib0] scenario_take
    by (simp add: pipe2_def pipe4_def pipe_start_def job0_def world4_def prod_eq_iff)
  ultimately have "?S\<^sup>*\<^sup>* pipe2 pipe4" by (meson converse_rtranclp_into_rtranclp rtranclp.rtrancl_refl)
  with scenario_start show ?thesis by (rule rtranclp_trans)
qed

text \<open>The probe succeeds at once, the execution is made final and the message acknowledged.\<close>

definition probe0 :: "world probe" where
  "probe0 timeout target w = ((zero_result\<lparr>Res_Success := True\<rparr>, None), w)"

definition world5 :: world where
  "world5 = snd (process_settle env0 (Msg_ExecutionID message0) ''w1'' (env_clock env0 (w_tick world4))
     (zero_result\<lparr>Res_Success := True\<rparr>) 1 (tick world4))"

definition pipe6 :: pipeline where
  "pipe6 = \<lparr>pl_world = world5, pl_stream = [publish_fields lib0 message0], pl_cursor = 1,
     pl_pending = [], pl_jobs = []\<rparr>"

lemma scenario_settle:
  "fst (process_settle env0 (Msg_ExecutionID message0) ''w1'' (env_clock env0 (w_tick world4))
     (zero_result\<lparr>Res_Success := True\<rparr>) 1 (tick world4)) = Inr ()"
  by code_simp

lemma scenario_final: "map Exec_Status (T_results (w_db world5)) = [ExecutionSuccess]"
  by code_simp

lemma probe0_result:
  "process_probe probe0 timer_fires work0 w = (Inr (zero_result\<lparr>Res_Success := True\<rparr>, 1), w)"
proof -
  have "Task_MaxRetries (Work_Task work0) = 2" by code_simp
  then show ?thesis
    by (simp add: process_probe_def ExecuteWithRetry_def retry_loop.simps probe0_def with_message_def
        stop_retrying_def zero_result_def)
qed

lemma scenario_finish: "(pipe_step env0 lib0 (30 * minute))\<^sup>*\<^sup>* pipe4 pipe6"
proof -
  let ?S = "pipe_step env0 lib0 (30 * minute)"
  let ?r = "zero_result\<lparr>Res_Success := True\<rparr>"
  let ?t = "env_clock env0 (w_tick world4)"
  let ?pa = "pipe4\<lparr>pl_jobs := [job0 (Probed ?r 1 ?t)]\<rparr>"
  let ?pb = "pipe4\<lparr>pl_world := world5, pl_jobs := [job0 Settled]\<rparr>"
  have "?S pipe4 ?pa"
    using pipe_step.probe [OF _ _ probe0_result, of pipe4 "[]" "job0 (Holding work0 ?t)" "[]" ?t]
    by (simp add: pipe4_def job0_def)
  moreover have "?S ?pa ?pb"
    using pipe_step.settle [of ?pa "[]" "job0 (Probed ?r 1 ?t)" "[]" ?r 1 ?t env0 world5] scenario_settle
    by (simp add: pipe4_def job0_def world5_def prod_eq_iff)
  moreover have "?S ?pb pipe6"
    using pipe_step.ack [of ?pb "[]" "job0 Settled" "[]"] by (simp add: pipe4_def pipe6_def job0_def)
  ultimately show ?thesis by (meson converse_rtranclp_into_rtranclp rtranclp.rtrancl_refl)
qed

lemma scenario_all: "(pipe_step env0 lib0 (30 * minute))\<^sup>*\<^sup>* (pipe_start world0) pipe6"
  using scenario_run scenario_finish by (rule rtranclp_trans)

end
