(* ===== verification/FleetRace.thy ===== *)
theory FleetRace
  imports Scenario
begin

text \<open>
  Disabling a host is a check and an update that are separate statements. Here other requests
  run between the two, as they can between two HTTP requests.
\<close>

definition disable_host_interleaved ::
  "env \<Rightarrow> golib \<Rightarrow> fleet_request list \<Rightarrow> u64 \<Rightarrow> u64 \<Rightarrow> Metadata \<Rightarrow> (world, unit) op" where
  "disable_host_interleaved E L others i actor md =
     op_bind (AssetService_DisableHost_check (asset_repository E) i) (\<lambda>_ w.
       AssetService_DisableHost_commit (asset_repository E) i actor md (run_fleet_all E L others w))"

lemma disable_host_alone:
  "disable_host_interleaved E L [] i actor md = AssetService_DisableHost (asset_repository E) i actor md"
  by (simp add: disable_host_interleaved_def AssetService_DisableHost_def run_fleet_all_def)

text \<open>The state with one active host and no service, in which the two requests meet.\<close>

definition world_host :: world where
  "world_host = run_fleet_all env0 lib0 [ReqCreateHost host0 1 md0] world0"

lemma world_host_value [code]: "world_host = \<lparr>w_db =
    \<lparr>T_users = [],
       T_audit_logs =
         [\<lparr>Log_ID = 1, Log_ActorUserID = Some 1, Log_Username = None,
             Log_Action = ''host.create'', Log_Outcome = ''success'',
             Log_FailureCode = None, Log_ResourceType = Some ''host'',
             Log_ResourceID = Some ''1'', Log_RequestID = Some ''r1'',
             Log_ClientIP = Some ''192.0.2.1'',
             Log_UserAgent = Some ''curl'', Log_Details = None,
             Log_CreatedAt = 1002000000000\<rparr>],
       T_hosts =
         [\<lparr>Host_ID = 1, Host_Name = ''web'', Host_Address = ''192.0.2.10'',
             Host_Description = [], Host_Status = ''active'',
             Host_CreatedBy = 1, Host_UpdatedBy = 1,
             Host_CreatedAt = 1001000000000,
             Host_UpdatedAt = 1001000000000\<rparr>],
       T_services = [], T_tasks = [], T_results = [], T_incidents = []\<rparr>,
    w_tick = 4\<rparr>"
  by code_simp

definition world_raced :: world where
  "world_raced = snd (disable_host_interleaved env0 lib0 [ReqCreateService service0 1 md0] 1 1 md0 world_host)"

lemma race_success:
  "fst (disable_host_interleaved env0 lib0 [ReqCreateService service0 1 md0] 1 1 md0 world_host) = Inr ()"
  by code_simp

lemma world_raced_value [code]: "world_raced = \<lparr>w_db =
    \<lparr>T_users = [],
       T_audit_logs =
         [\<lparr>Log_ID = 1, Log_ActorUserID = Some 1, Log_Username = None,
             Log_Action = ''host.create'', Log_Outcome = ''success'',
             Log_FailureCode = None, Log_ResourceType = Some ''host'',
             Log_ResourceID = Some ''1'', Log_RequestID = Some ''r1'',
             Log_ClientIP = Some ''192.0.2.1'',
             Log_UserAgent = Some ''curl'', Log_Details = None,
             Log_CreatedAt = 1002000000000\<rparr>,
          \<lparr>Log_ID = 2, Log_ActorUserID = Some 1, Log_Username = None,
             Log_Action = ''service.create'', Log_Outcome = ''success'',
             Log_FailureCode = None, Log_ResourceType = Some ''service'',
             Log_ResourceID = Some ''1'', Log_RequestID = Some ''r1'',
             Log_ClientIP = Some ''192.0.2.1'',
             Log_UserAgent = Some ''curl'', Log_Details = None,
             Log_CreatedAt = 1009000000000\<rparr>,
          \<lparr>Log_ID = 3, Log_ActorUserID = Some 1, Log_Username = None,
             Log_Action = ''host.disable'', Log_Outcome = ''success'',
             Log_FailureCode = None, Log_ResourceType = Some ''host'',
             Log_ResourceID = Some ''1'', Log_RequestID = Some ''r1'',
             Log_ClientIP = Some ''192.0.2.1'',
             Log_UserAgent = Some ''curl'', Log_Details = None,
             Log_CreatedAt = 1013000000000\<rparr>],
       T_hosts =
         [\<lparr>Host_ID = 1, Host_Name = ''web'', Host_Address = ''192.0.2.10'',
             Host_Description = [], Host_Status = ''disabled'',
             Host_CreatedBy = 1, Host_UpdatedBy = 1,
             Host_CreatedAt = 1001000000000,
             Host_UpdatedAt = 1012000000000\<rparr>],
       T_services =
         [\<lparr>Svc_ID = 1, Svc_HostID = 1, Svc_Name = ''ssh'',
             Svc_Type = ''tcp'', Svc_Target = ''192.0.2.10:22'',
             Svc_Description = [], Svc_Status = ''active'',
             Svc_CreatedBy = 1, Svc_UpdatedBy = 1,
             Svc_CreatedAt = 1008000000000, Svc_UpdatedAt = 1008000000000\<rparr>],
       T_tasks = [], T_results = [], T_incidents = []\<rparr>,
    w_tick = 15\<rparr>"
  by code_simp

lemma race_rows:
  "map Svc_Status (T_services (w_db world_raced)) = [StatusActive] \<and>
   map Svc_HostID (T_services (w_db world_raced)) = [1] \<and>
   map (\<lambda>h. (Host_ID h, Host_Status h)) (T_hosts (w_db world_raced)) = [(1, StatusDisabled)]"
  by code_simp

lemma race_unsupported: "\<not> services_supported (w_db world_raced)"
proof -
  obtain s where s: "T_services (w_db world_raced) = [s]" "Svc_Status s = StatusActive"
    using race_rows by auto
  obtain h where h: "T_hosts (w_db world_raced) = [h]" "Host_Status h = StatusDisabled"
    using race_rows by auto
  show ?thesis by (simp add: services_supported_def s h)
qed

end
