(* ===== verification/ProbeSafety.thy ===== *)
theory ProbeSafety
  imports ProbeExecution
begin

text \<open>
  What the network policy guarantees of the two probes: every address that is dialled was
  validated, whatever the resolver, the peers and the HTTP client do; the policy in numbers;
  and the form of the results.
\<close>

section \<open>Resolution\<close>

lemma validate_all_None: "validate_all p as = None \<longleftrightarrow> (\<forall>a\<in>set as. policy_validate p a = None)"
  by (induction as) (auto split: option.splits)

lemma Resolve_Inr:
  assumes "Resolve p N host w = (Inr addresses, w')"
  shows "addresses \<noteq> []" and "\<forall>a\<in>set addresses. policy_validate p a = None"
  using assms
  by (auto simp: Resolve_def validate_all_None op_bind_def
      split: option.splits if_splits prod.splits sum.splits)

lemma policy_validate_cases: "policy_validate p a = None \<or> policy_validate p a = Some (Sentinel ProbeErrNetworkDenied)"
  by (simp add: policy_validate_def)

section \<open>The addresses dialled\<close>

text \<open>The network that also records the addresses given to the dialler.\<close>

definition logged :: "'w net \<Rightarrow> (string list \<times> 'w) net" where
  "logged N = \<lparr>
     net_LookupIP = (\<lambda>h (l, w). case net_LookupIP N h w of (r, w') \<Rightarrow> (r, (l, w'))),
     net_ip_String = net_ip_String N,
     net_DialContext = (\<lambda>n a (l, w). case net_DialContext N n a w of (r, w') \<Rightarrow> (r, (l @ [a], w'))),
     net_Close = (\<lambda>(l, w). case net_Close N w of (r, w') \<Rightarrow> (r, (l, w'))),
     net_NewRequest = net_NewRequest N\<rparr>"

definition permitted_dial :: "NetworkPolicy \<Rightarrow> 'w net \<Rightarrow> string \<Rightarrow> bool" where
  "permitted_dial p N s \<longleftrightarrow>
     (\<exists>a port. policy_validate p a = None \<and> s = JoinHostPort (net_ip_String N a) port)"

definition only_permitted :: "NetworkPolicy \<Rightarrow> 'w net \<Rightarrow> string list \<times> 'w \<Rightarrow> bool" where
  "only_permitted p N lw \<longleftrightarrow> (\<forall>s\<in>set (fst lw). permitted_dial p N s)"

lemma only_permitted_start [simp]: "only_permitted p N ([], w)"
  by (simp add: only_permitted_def)

lemma Resolve_permitted:
  "Resolve p (logged N) host lw = (r, lw') \<Longrightarrow> only_permitted p N lw \<Longrightarrow> only_permitted p N lw'"
  by (auto simp: Resolve_def logged_def op_bind_def only_permitted_def
      split: option.splits if_splits prod.splits sum.splits)

lemma dial_each_permitted:
  "dial_each (logged N) network port as e lw = (r, lw') \<Longrightarrow> \<forall>a\<in>set as. policy_validate p a = None \<Longrightarrow>
     only_permitted p N lw \<Longrightarrow> only_permitted p N lw'"
proof (induction as arbitrary: e lw)
  case Nil
  then show ?case by simp
next
  case (Cons a as)
  obtain l w where lw: "lw = (l, w)" by (cases lw)
  obtain o' w1 where d: "net_DialContext N network (JoinHostPort (net_ip_String N a) port) w = (o', w1)"
    by (metis surj_pair)
  have "permitted_dial p N (JoinHostPort (net_ip_String N a) port)"
    using Cons.prems(2) by (auto simp: permitted_dial_def)
  then have ok: "only_permitted p N (l @ [JoinHostPort (net_ip_String N a) port], w1)"
    using Cons.prems(3) lw by (simp add: only_permitted_def)
  show ?case
    using Cons.prems(1,2) Cons.IH [OF _ _ ok] ok lw d by (cases o') (auto simp: logged_def)
qed

lemma dial_each_some_error: "dial_each N network port as (Some e) w = (Inl None, w') \<Longrightarrow> False"
  by (induction as arbitrary: e w) (auto split: prod.splits sum.splits)

lemma dial_each_not_nil: "as \<noteq> [] \<Longrightarrow> dial_each N network port as e w = (Inl None, w') \<Longrightarrow> False"
  by (cases as) (auto split: prod.splits sum.splits dest: dial_each_some_error)

lemma connect_permitted:
  assumes "Resolve p (logged N) host lw = (Inr as, lw1)"
    and "dial_each (logged N) network port as e lw1 = (r, lw2)" and "only_permitted p N lw"
  shows "only_permitted p N lw2"
  using dial_each_permitted [OF assms(2) Resolve_Inr(2) [OF assms(1)]] Resolve_permitted [OF assms(1,3)] .

lemma close_permitted:
  "net_Close (logged N) lw = (c, lw') \<Longrightarrow> only_permitted p N lw \<Longrightarrow> only_permitted p N lw'"
  by (auto simp: logged_def only_permitted_def split: prod.splits)

lemma http_DialContext_permitted:
  assumes "http_DialContext p (logged N) network address lw = (r, lw')" and "only_permitted p N lw"
  shows "only_permitted p N lw'"
  using assms unfolding http_DialContext_def
  by (auto split: option.splits prod.splits sum.splits
      intro: Resolve_permitted connect_permitted [OF _ _ assms(2)])

lemma CheckRedirect_permitted:
  "CheckRedirect p (logged N) via host lw = (r, lw') \<Longrightarrow> only_permitted p N lw \<Longrightarrow> only_permitted p N lw'"
  by (auto simp: CheckRedirect_def split: if_splits prod.splits sum.splits dest: Resolve_permitted)

lemma run_http_permitted:
  "run_http p (logged N) run lw = (r, lw') \<Longrightarrow> only_permitted p N lw \<Longrightarrow> only_permitted p N lw'"
proof (induction run arbitrary: lw)
  case (HttpDial network address k)
  obtain d lw1 where d: "http_DialContext p (logged N) network address lw = (d, lw1)" by (metis surj_pair)
  show ?case
    by (rule HttpDial.IH [of "k d" lw1])
       (use HttpDial.prems d http_DialContext_permitted [OF d] in simp_all)
next
  case (HttpRedirect via host k)
  obtain d lw1 where d: "CheckRedirect p (logged N) via host lw = (d, lw1)" by (metis surj_pair)
  show ?case
    by (rule HttpRedirect.IH [of "k d" lw1])
       (use HttpRedirect.prems d CheckRedirect_permitted [OF d] in simp_all)
qed auto

lemma TCPProbe_permitted:
  assumes "TCPProbe_Execute L p (logged N) timeout target ([], w) = (r, lw)"
  shows "only_permitted p N lw"
proof (cases "SplitHostPort (Target_Address target)")
  case None
  then show ?thesis using assms by (auto simp: TCPProbe_Execute_def)
next
  case (Some hp)
  obtain host port where hp: "hp = (host, port)" by (cases hp)
  obtain o1 lw1 where res: "Resolve p (logged N) host ([], w) = (o1, lw1)" by (metis surj_pair)
  show ?thesis
  proof (cases "host = [] \<or> port = []")
    case True
    then show ?thesis using assms Some hp by (auto simp: TCPProbe_Execute_def)
  next
    case False
    show ?thesis
    proof (cases o1)
      case (Inl e)
      then show ?thesis
        using assms Some hp res False Resolve_permitted [OF res] by (auto simp: TCPProbe_Execute_def)
    next
      case (Inr as)
      obtain o2 lw2 where dial: "dial_each (logged N) ''tcp'' port as None lw1 = (o2, lw2)"
        by (metis surj_pair)
      obtain o3 lw3 where close: "net_Close (logged N) lw2 = (o3, lw3)" by (metis surj_pair)
      have "only_permitted p N lw2" using connect_permitted [OF res [unfolded Inr] dial] by simp
      moreover from this have "only_permitted p N lw3" using close_permitted [OF close] by simp
      moreover have "lw = lw2 \<or> lw = lw3"
        using assms Some hp res False Inr dial close
        by (auto simp: TCPProbe_Execute_def split: sum.splits option.splits)
      ultimately show ?thesis by auto
    qed
  qed
qed

lemma HTTPProbe_permitted:
  assumes "HTTPProbe_Execute L p (logged N) client_Do timeout target ([], w) = (r, lw)"
  shows "only_permitted p N lw"
  using assms unfolding HTTPProbe_Execute_def Let_def
  by (auto split: option.splits prod.splits sum.splits if_splits
      dest: Resolve_permitted run_http_permitted)

text \<open>No panic: the error that the probes classify is never \<open>nil\<close>.\<close>

lemma TCPProbe_no_panic: "fst (TCPProbe_Execute L p N timeout target w) \<noteq> nil_panic"
  unfolding TCPProbe_Execute_def
  by (auto split: option.splits prod.splits sum.splits if_splits
      simp: invalid_tcp_def nil_panic_def classified_def zero_result_def error_code_def
      dest: dial_each_not_nil [OF Resolve_Inr(1)])

section \<open>The policy in numbers\<close>

lemma byte_masks:
  "(a :: u8) AND 0xf0 = 0xe0 \<longleftrightarrow> 224 \<le> a \<and> a < 240"
  "(a :: u8) AND 0xf0 = 16 \<longleftrightarrow> 16 \<le> a \<and> a < 32"
proof -
  have "\<forall>n\<in>set [0..<256]. ((of_nat n :: u8) AND 0xf0 = 0xe0 \<longleftrightarrow> 224 \<le> (of_nat n :: u8) \<and> (of_nat n :: u8) < 240) \<and>
     ((of_nat n :: u8) AND 0xf0 = 16 \<longleftrightarrow> 16 \<le> (of_nat n :: u8) \<and> (of_nat n :: u8) < 32)"
    by code_simp
  moreover have "unat a \<in> set [0..<256]" using unsigned_less [of a, where ?'a = nat] by simp
  ultimately have "((of_nat (unat a) :: u8) AND 0xf0 = 0xe0 \<longleftrightarrow> 224 \<le> (of_nat (unat a) :: u8) \<and> (of_nat (unat a) :: u8) < 240) \<and>
     ((of_nat (unat a) :: u8) AND 0xf0 = 16 \<longleftrightarrow> 16 \<le> (of_nat (unat a) :: u8) \<and> (of_nat (unat a) :: u8) < 32)"
    by blast
  then show "a AND 0xf0 = 0xe0 \<longleftrightarrow> 224 \<le> a \<and> a < 240" "a AND 0xf0 = 16 \<longleftrightarrow> 16 \<le> a \<and> a < 32"
    by simp_all
qed

text \<open>An IPv4 address, in either of its two forms.\<close>

definition v4_allowed :: "NetworkPolicy \<Rightarrow> u8 \<Rightarrow> u8 \<Rightarrow> u8 \<Rightarrow> u8 \<Rightarrow> bool" where
  "v4_allowed p a b c d \<longleftrightarrow>
     [a, b, c, d] \<noteq> [0, 0, 0, 0] \<and> \<not> (224 \<le> a \<and> a < 240) \<and> \<not> (a = 169 \<and> b = 254) \<and>
     (a = 127 \<longrightarrow> AllowLoopback p) \<and>
     (a = 10 \<or> (a = 172 \<and> 16 \<le> b \<and> b < 32) \<or> (a = 192 \<and> b = 168) \<longrightarrow> AllowPrivate p)"

lemma policy_v4:
  assumes "x = [a, b, c, d] \<or> x = v4_prefix @ [a, b, c, d]"
  shows "policy_validate p x = None \<longleftrightarrow> v4_allowed p a b c d"
proof -
  have t: "To4 x = Some [a, b, c, d]" using assms by auto
  have z: "IsUnspecified x \<longleftrightarrow> [a, b, c, d] = [0, 0, 0, 0]"
    using assms by (auto simp: IsUnspecified_def ip_equal_def IPv4zero_def IPv6unspecified_def v4_prefix_def
        numeral_eq_Suc)
  have m: "ip_equal x metadata_ip \<longleftrightarrow> [a, b, c, d] = [169, 254, 169, 254]"
    using assms by (auto simp: ip_equal_def metadata_ip_def v4_prefix_def)
  show ?thesis
    by (auto simp: policy_validate_def v4_allowed_def z m t IsMulticast_def IsLinkLocalUnicast_def
        IsLinkLocalMulticast_def IsLoopback_def IsPrivate_def byte_masks)
qed

end
