(* ===== verification/ProbeLimits.thy ===== *)
theory ProbeLimits
  imports ProbeExecution FleetInvariant
begin

text \<open>How long the retry loop can take for a task that passed validation.\<close>

lemma task_durations:
  assumes "task_ok t"
  shows "0 \<le> wrap64 (Task_TimeoutMilliseconds t * millisecond)"
    and "wrap64 (Task_TimeoutMilliseconds t * millisecond) \<le> 60 * second"
    and "0 \<le> wrap64 (Task_RetryBaseDelayMilliseconds t * millisecond)"
    and "wrap64 (Task_RetryBaseDelayMilliseconds t * millisecond) \<le> 30 * second"
  using assms by (simp_all add: task_ok_def task_limits_def wrap64_in_range duration_defs)

lemma retry_elapsed_limits:
  assumes ok: "task_ok t" and tm: "timeout = wrap64 (Task_TimeoutMilliseconds t * millisecond)"
    and b: "base = wrap64 (Task_RetryBaseDelayMilliseconds t * millisecond)"
    and run: "\<And>w. clk (snd (implementation timeout target w)) \<le> clk w + timeout"
    and wait: "\<And>d w. 0 \<le> d \<Longrightarrow> clk (snd (waitFor d w)) \<le> clk w + d"
  shows "clk (snd (ExecuteWithRetry implementation waitFor target timeout (Task_MaxRetries t) base w))
    \<le> clk w + 1290 * second \<and> 1290 * second < 30 * minute"
proof -
  let ?m = "Task_MaxRetries t"
  have m: "0 \<le> ?m" "?m \<le> 5" using ok by (simp_all add: task_ok_def task_limits_def)
  note d = task_durations [OF ok, folded tm b]
  have "case ExecuteWithRetry implementation waitFor target timeout ?m base w of
      (x, w') \<Rightarrow> clk w' \<le> clk w + (?m + 1) * timeout + base * (2 ^ nat ?m - 1)"
    by (rule retry_elapsed) (use run wait m d in auto)
  then have "clk (snd (ExecuteWithRetry implementation waitFor target timeout ?m base w))
      \<le> clk w + (?m + 1) * timeout + base * (2 ^ nat ?m - 1)"
    by (auto split: prod.splits)
  moreover have "(?m + 1) * timeout \<le> 6 * (60 * second)"
    using m d by (intro mult_mono) (auto simp: duration_defs)
  moreover have "(2::int) ^ nat ?m \<le> 2 ^ 5" using m by (intro power_increasing) auto
  then have "base * (2 ^ nat ?m - 1) \<le> (30 * second) * 31"
    using d by (intro mult_mono) (auto simp: duration_defs)
  ultimately show ?thesis by (simp add: duration_defs)
qed

end
