(* ===== verification/WorkerLoops.thy ===== *)
theory WorkerLoops
  imports Pipeline
begin

text \<open>
  The loops of the worker process, one turn each: the scheduler and the recovery dispatcher
  (\<open>scheduler.go\<close>), and the reader, the claimer and the workers of the consumer
  (\<open>consumer.go\<close>). Each turn is a function on the state of the pipeline, whose outcome
  also depends on what Redis answers: which publications and acknowledgements fail, how many
  entries a read returns, which pending entries are idle long enough to be claimed, and when
  the context is cancelled. Every turn is shown to be a sequence of steps of the pipeline, so
  that the properties of the step relation hold of the loops.
\<close>

section \<open>Scheduler and dispatcher\<close>

text \<open>Publishing one message after the other; a failure is logged and skipped.\<close>

fun publish_each :: "golib \<Rightarrow> (nat \<Rightarrow> go_error option) \<Rightarrow> nat \<Rightarrow> ExecutionMessage list \<Rightarrow> fields list \<Rightarrow> fields list" where
  "publish_each L pub k [] stream = stream"
| "publish_each L pub k (m # ms) stream =
     publish_each L pub (Suc k) ms (case pub k of None \<Rightarrow> stream @ [publish_fields L m] | Some err \<Rightarrow> stream)"

definition Scheduler_cycle :: "env \<Rightarrow> golib \<Rightarrow> int \<Rightarrow> (nat \<Rightarrow> go_error option) \<Rightarrow> pipeline \<Rightarrow> pipeline" where
  "Scheduler_cycle E L batch pub s =
     (case op_bind (time_now E) (\<lambda>now. ProbeRepo_ScheduleDue E batch now) (pl_world s) of
        (Inl err, w) \<Rightarrow> s\<lparr>pl_world := w\<rparr>
      | (Inr messages, w) \<Rightarrow>
          s\<lparr>pl_world := w, pl_stream := publish_each L pub 0 messages (pl_stream s)\<rparr>)"

text \<open>\<open>Run\<close>: a cycle at once, then one for every tick until the context ends.\<close>

definition Scheduler_Run ::
  "env \<Rightarrow> golib \<Rightarrow> int \<Rightarrow> (nat \<Rightarrow> go_error option) \<Rightarrow> (nat \<Rightarrow> go_error option) list \<Rightarrow> pipeline \<Rightarrow> pipeline" where
  "Scheduler_Run E L batch first ticks s =
     fold (Scheduler_cycle E L batch) ticks (Scheduler_cycle E L batch first s)"

definition RecoveryDispatcher_tick ::
  "env \<Rightarrow> golib \<Rightarrow> duration \<Rightarrow> int \<Rightarrow> (nat \<Rightarrow> go_error option) \<Rightarrow> pipeline \<Rightarrow> pipeline" where
  "RecoveryDispatcher_tick E L interval batch pub s =
     (case op_bind (time_now E) (\<lambda>now.
             ProbeRepo_QueuedBefore E (now + wrap64 (- 2 * interval)) batch) (pl_world s) of
        (Inl err, w) \<Rightarrow> s\<lparr>pl_world := w\<rparr>
      | (Inr messages, w) \<Rightarrow>
          s\<lparr>pl_world := w, pl_stream := publish_each L pub 0 messages (pl_stream s)\<rparr>)"

text \<open>\<open>Run\<close>: a turn for every tick until the context ends, the first after one interval.\<close>

definition RecoveryDispatcher_Run ::
  "env \<Rightarrow> golib \<Rightarrow> duration \<Rightarrow> int \<Rightarrow> (nat \<Rightarrow> go_error option) list \<Rightarrow> pipeline \<Rightarrow> pipeline" where
  "RecoveryDispatcher_Run E L interval batch ticks s = fold (RecoveryDispatcher_tick E L interval batch) ticks s"

section \<open>Consumer\<close>

definition new_job :: "nat \<Rightarrow> string \<Rightarrow> ExecutionMessage \<Rightarrow> job" where
  "new_job i c m = \<lparr>job_entry = i, job_consumer = c, job_message = m, job_phase = Received\<rparr>"

text \<open>
  What the loops do with the entries Redis returned: those that decode are enqueued for the
  workers until the context is cancelled, which happens before the entry number \<open>cancel\<close>.
\<close>

fun enqueue_entries ::
  "golib \<Rightarrow> string \<Rightarrow> nat option \<Rightarrow> nat list \<Rightarrow> pipeline \<Rightarrow> pipeline" where
  "enqueue_entries L c cancel [] s = s"
| "enqueue_entries L c cancel (i # is) s =
     (case decode L (pl_stream s ! i) of
        Inl err \<Rightarrow> enqueue_entries L c cancel is s
      | Inr m \<Rightarrow>
          (case cancel of
             Some 0 \<Rightarrow> s
           | Some (Suc k) \<Rightarrow> enqueue_entries L c (Some k) is (s\<lparr>pl_jobs := new_job i c m # pl_jobs s\<rparr>)
           | None \<Rightarrow> enqueue_entries L c None is (s\<lparr>pl_jobs := new_job i c m # pl_jobs s\<rparr>)))"

text \<open>
  One turn of \<open>readLoop\<close>: XREADGROUP moves the next entries, at most \<open>count\<close>, to the
  pending entries of the group and returns them.
\<close>

definition Consumer_read :: "golib \<Rightarrow> string \<Rightarrow> nat \<Rightarrow> nat option \<Rightarrow> pipeline \<Rightarrow> pipeline" where
  "Consumer_read L c n cancel s =
     (let first = pl_cursor s; stop = min (first + n) (length (pl_stream s)); is = [first..<stop]
      in enqueue_entries L c cancel is
           (s\<lparr>pl_cursor := max first stop, pl_pending := rev is @ pl_pending s\<rparr>))"

text \<open>
  One turn of \<open>claimLoop\<close>: XAUTOCLAIM returns pending entries that are idle; an entry that
  does not decode is skipped without a message.
\<close>

definition Consumer_claim :: "golib \<Rightarrow> string \<Rightarrow> nat list \<Rightarrow> nat option \<Rightarrow> pipeline \<Rightarrow> pipeline" where
  "Consumer_claim L c claimed cancel s =
     enqueue_entries L c cancel (filter (\<lambda>i. i \<in> set (pl_pending s)) claimed) s"

text \<open>
  One turn of \<open>worker\<close> on the job at a position of the queue: process it and, when that
  succeeded, acknowledge its entry.
\<close>

definition Consumer_work ::
  "env \<Rightarrow> duration \<Rightarrow> world probes \<Rightarrow> world waiting \<Rightarrow> go_error option \<Rightarrow> nat \<Rightarrow> pipeline \<Rightarrow> pipeline" where
  "Consumer_work E idle ps waitFor ackError n s =
     (if length (pl_jobs s) \<le> n then s
      else let j = pl_jobs s ! n; rest = take n (pl_jobs s) @ drop (Suc n) (pl_jobs s)
           in if job_phase j \<noteq> Received then s
              else case Processor_Process E idle ps waitFor (job_message j) (job_consumer j) (pl_world s) of
                (Inl err, w) \<Rightarrow> s\<lparr>pl_world := w, pl_jobs := rest\<rparr>
              | (Inr _, w) \<Rightarrow>
                  (case ackError of
                     Some err \<Rightarrow> s\<lparr>pl_world := w, pl_jobs := rest\<rparr>
                   | None \<Rightarrow> s\<lparr>pl_world := w, pl_pending := removeAll (job_entry j) (pl_pending s),
                       pl_jobs := rest\<rparr>))"

section \<open>The loops are steps of the pipeline\<close>

lemma publish_each_subseq:
  "\<exists>ok. subseq ok ms \<and> publish_each L pub k ms stream = stream @ map (publish_fields L) ok"
proof (induction ms arbitrary: k stream)
  case Nil
  show ?case by simp
next
  case (Cons m ms)
  show ?case
  proof (cases "pub k")
    case None
    obtain ok where "subseq ok ms"
      "publish_each L pub (Suc k) ms (stream @ [publish_fields L m]) = (stream @ [publish_fields L m]) @ map (publish_fields L) ok"
      using Cons by blast
    then show ?thesis using None by (intro exI [of _ "m # ok"]) simp
  next
    case (Some e)
    obtain ok where "subseq ok ms" "publish_each L pub (Suc k) ms stream = stream @ map (publish_fields L) ok"
      using Cons by blast
    then show ?thesis using Some by (intro exI [of _ ok]) auto
  qed
qed

lemma pipe_world:
  assumes "w_db w' = w_db (pl_world s)"
  shows "pipe_step E L idle s (s\<lparr>pl_world := w'\<rparr>)"
  by (rule pipe_step.elsewhere) (simp_all add: assms)

lemma pipe_world_jobs:
  assumes "w_db w' = w_db w"
  shows "pipe_step E L idle (s\<lparr>pl_world := w, pl_jobs := js\<rparr>) (s\<lparr>pl_world := w', pl_jobs := js\<rparr>)"
  using pipe_world [of w' "s\<lparr>pl_world := w, pl_jobs := js\<rparr>" E L idle] assms by (cases s) simp

lemma pipe_tick: "pipe_step E L idle s (s\<lparr>pl_world := tick (pl_world s)\<rparr>)"
  by (rule pipe_world) simp

lemma Scheduler_cycle_steps: "(pipe_step E L idle)\<^sup>*\<^sup>* s (Scheduler_cycle E L batch pub s)"
proof -
  let ?s = "s\<lparr>pl_world := tick (pl_world s)\<rparr>"
  obtain r w' where run: "ProbeRepo_ScheduleDue E batch (env_clock E (w_tick (pl_world s))) (pl_world ?s) = (r, w')"
    by (metis surj_pair)
  have "pipe_step E L idle ?s (Scheduler_cycle E L batch pub s)"
  proof (cases r)
    case (Inl e)
    have "pipe_step E L idle ?s (?s\<lparr>pl_world := w', pl_stream := pl_stream ?s @ []\<rparr>)"
      by (rule pipe_step.schedule [OF run]) (simp add: published_def Inl)
    then show ?thesis using run Inl by (simp add: Scheduler_cycle_def op_bind_def)
  next
    case (Inr ms)
    obtain ok where ok: "subseq ok ms" "publish_each L pub 0 ms (pl_stream s) = pl_stream s @ map (publish_fields L) ok"
      using publish_each_subseq by blast
    have "pipe_step E L idle ?s (?s\<lparr>pl_world := w', pl_stream := pl_stream ?s @ map (publish_fields L) ok\<rparr>)"
      by (rule pipe_step.schedule [OF run]) (use ok Inr in \<open>auto simp: published_def\<close>)
    then show ?thesis using run Inr ok by (simp add: Scheduler_cycle_def op_bind_def)
  qed
  then show ?thesis using pipe_tick [of E L idle s] by (meson converse_rtranclp_into_rtranclp r_into_rtranclp)
qed

lemma RecoveryDispatcher_steps: "(pipe_step E L idle)\<^sup>*\<^sup>* s (RecoveryDispatcher_tick E L interval batch pub s)"
proof -
  let ?s = "s\<lparr>pl_world := tick (pl_world s)\<rparr>"
  let ?b = "env_clock E (w_tick (pl_world s)) + wrap64 (- 2 * interval)"
  obtain r w' where run: "ProbeRepo_QueuedBefore E ?b batch (pl_world ?s) = (r, w')"
    by (metis surj_pair)
  have "pipe_step E L idle ?s (RecoveryDispatcher_tick E L interval batch pub s)"
  proof (cases r)
    case (Inl e)
    have "pipe_step E L idle ?s (?s\<lparr>pl_world := w', pl_stream := pl_stream ?s @ []\<rparr>)"
      by (rule pipe_step.recover [OF run]) (simp add: published_def Inl)
    then show ?thesis using run Inl by (simp add: RecoveryDispatcher_tick_def op_bind_def)
  next
    case (Inr ms)
    obtain ok where ok: "subseq ok ms" "publish_each L pub 0 ms (pl_stream s) = pl_stream s @ map (publish_fields L) ok"
      using publish_each_subseq by blast
    have "pipe_step E L idle ?s (?s\<lparr>pl_world := w', pl_stream := pl_stream ?s @ map (publish_fields L) ok\<rparr>)"
      by (rule pipe_step.recover [OF run]) (use ok Inr in \<open>auto simp: published_def\<close>)
    then show ?thesis using run Inr ok by (simp add: RecoveryDispatcher_tick_def op_bind_def)
  qed
  then show ?thesis using pipe_tick [of E L idle s] by (meson converse_rtranclp_into_rtranclp r_into_rtranclp)
qed

text \<open>Enqueueing entries that are pending is claiming them.\<close>

lemma enqueue_entries_steps:
  assumes "set is \<subseteq> set (pl_pending s)"
  shows "(pipe_step E L idle)\<^sup>*\<^sup>* s (enqueue_entries L c cancel is s)"
  using assms
proof (induction L c cancel "is" s rule: enqueue_entries.induct)
  case (1 L c cancel s)
  show ?case by simp
next
  case (2 L c cancel i "is" s)
  show ?case
  proof (cases "decode L (pl_stream s ! i)")
    case (Inl e)
    then show ?thesis using 2 by simp
  next
    case (Inr m)
    let ?s = "s\<lparr>pl_jobs := new_job i c m # pl_jobs s\<rparr>"
    have step: "pipe_step E L idle s ?s"
      unfolding new_job_def by (rule pipe_step.claim) (use 2 Inr in simp_all)
    show ?thesis
    proof (cases cancel)
      case None
      then have "(pipe_step E L idle)\<^sup>*\<^sup>* ?s (enqueue_entries L c None is ?s)"
        using 2(2) [OF Inr None] 2(4) by simp
      then show ?thesis using step Inr None by (simp add: converse_rtranclp_into_rtranclp)
    next
      case (Some k)
      show ?thesis
      proof (cases k)
        case 0
        then show ?thesis using Some Inr by simp
      next
        case (Suc k')
        then have "(pipe_step E L idle)\<^sup>*\<^sup>* ?s (enqueue_entries L c (Some k') is ?s)"
          using 2(3) [OF Inr Some Suc] 2(4) by simp
        then show ?thesis using step Inr Some Suc by (simp add: converse_rtranclp_into_rtranclp)
      qed
    qed
  qed
qed

lemma Consumer_claim_steps: "(pipe_step E L idle)\<^sup>*\<^sup>* s (Consumer_claim L c claimed cancel s)"
  unfolding Consumer_claim_def by (rule enqueue_entries_steps) auto

text \<open>An entry that is delivered and not enqueued is a pending entry without a job.\<close>

lemma deliver_pending:
  assumes "pl_cursor s < length (pl_stream s)"
  shows "(pipe_step E L idle)\<^sup>*\<^sup>* s (s\<lparr>pl_cursor := Suc (pl_cursor s), pl_pending := pl_cursor s # pl_pending s\<rparr>)"
proof (cases "decode L (pl_stream s ! pl_cursor s)")
  case (Inl e)
  show ?thesis by (rule r_into_rtranclp, rule pipe_step.deliver_bad [OF assms Inl])
next
  case (Inr m)
  let ?j = "\<lparr>job_entry = pl_cursor s, job_consumer = [], job_message = m, job_phase = Received\<rparr>"
  let ?s = "s\<lparr>pl_cursor := Suc (pl_cursor s), pl_pending := pl_cursor s # pl_pending s, pl_jobs := ?j # pl_jobs s\<rparr>"
  have "pipe_step E L idle s ?s" by (rule pipe_step.deliver [OF assms Inr])
  moreover have "pipe_step E L idle ?s (?s\<lparr>pl_jobs := [] @ pl_jobs s\<rparr>)"
    by (rule pipe_step.lose [where j = ?j]) simp
  ultimately show ?thesis by simp
qed

lemma deliver_many:
  assumes "pl_cursor s + n \<le> length (pl_stream s)"
  shows "(pipe_step E L idle)\<^sup>*\<^sup>* s
    (s\<lparr>pl_cursor := pl_cursor s + n, pl_pending := rev [pl_cursor s..<pl_cursor s + n] @ pl_pending s\<rparr>)"
  using assms
proof (induction n)
  case 0
  show ?case by simp
next
  case (Suc n)
  let ?s = "s\<lparr>pl_cursor := pl_cursor s + n, pl_pending := rev [pl_cursor s..<pl_cursor s + n] @ pl_pending s\<rparr>"
  have "(pipe_step E L idle)\<^sup>*\<^sup>* s ?s" using Suc by simp
  moreover have "(pipe_step E L idle)\<^sup>*\<^sup>* ?s (?s\<lparr>pl_cursor := Suc (pl_cursor ?s), pl_pending := pl_cursor ?s # pl_pending ?s\<rparr>)"
    by (rule deliver_pending) (use Suc.prems in simp)
  ultimately show ?case by simp
qed

lemma Consumer_read_steps: "(pipe_step E L idle)\<^sup>*\<^sup>* s (Consumer_read L c n cancel s)"
proof (cases "pl_cursor s \<le> length (pl_stream s)")
  case True
  define k where "k = min n (length (pl_stream s) - pl_cursor s)"
  have stop: "min (pl_cursor s + n) (length (pl_stream s)) = pl_cursor s + k" "pl_cursor s + k \<le> length (pl_stream s)"
    using True by (auto simp: k_def)
  let ?s = "s\<lparr>pl_cursor := pl_cursor s + k, pl_pending := rev [pl_cursor s..<pl_cursor s + k] @ pl_pending s\<rparr>"
  have "(pipe_step E L idle)\<^sup>*\<^sup>* s ?s" by (rule deliver_many [OF stop(2)])
  moreover have "(pipe_step E L idle)\<^sup>*\<^sup>* ?s (enqueue_entries L c cancel [pl_cursor s..<pl_cursor s + k] ?s)"
    by (rule enqueue_entries_steps) auto
  ultimately show ?thesis by (simp add: Consumer_read_def Let_def stop(1))
next
  case False
  then show ?thesis by (simp add: Consumer_read_def Let_def)
qed

text \<open>A worker's turn is the steps look, take, probe, settle and acknowledge, or a prefix of them
  after which the job is gone.\<close>

lemma steps_then: "r\<^sup>*\<^sup>* a b \<Longrightarrow> r b c \<Longrightarrow> r\<^sup>*\<^sup>* a c"
  by (rule rtranclp.rtrancl_into_rtrancl)

lemma process_probe_world:
  assumes "\<And>tm tg w. w_db (snd (implementation tm tg w)) = w_db w" and "\<And>dl w. w_db (snd (waitFor dl w)) = w_db w"
    and run: "process_probe implementation waitFor work w = (Inr r, w')"
  shows "w_db w' = w_db w"
proof (cases "0 \<le> Task_MaxRetries (Work_Task work)")
  case True
  show ?thesis
    using process_probe_db [of implementation waitFor work w] assms True by auto
next
  case False
  then show ?thesis
    using run by (auto simp: process_probe_def ExecuteWithRetry_def retry_loop.simps)
qed

lemma work_steps:
  assumes jobs: "pl_jobs s = js @ j # js'" and ph: "job_phase j = Received"
    and http: "\<And>tm tg w. w_db (snd (probe_http ps tm tg w)) = w_db w"
    and tcp: "\<And>tm tg w. w_db (snd (probe_tcp ps tm tg w)) = w_db w"
    and wait: "\<And>dl w. w_db (snd (waitFor dl w)) = w_db w"
    and run: "Processor_Process E idle ps waitFor (job_message j) (job_consumer j) (pl_world s) = (r, w)"
  shows "case r of
      Inl e \<Rightarrow> (pipe_step E L idle)\<^sup>*\<^sup>* s (s\<lparr>pl_world := w, pl_jobs := js @ js'\<rparr>)
    | Inr _ \<Rightarrow> (pipe_step E L idle)\<^sup>*\<^sup>* s (s\<lparr>pl_world := w, pl_jobs := js @ j\<lparr>job_phase := Settled\<rparr> # js'\<rparr>)"
proof -
  let ?i = "Msg_ExecutionID (job_message j)"
  let ?at = "\<lambda>w p. s\<lparr>pl_world := w, pl_jobs := js @ j\<lparr>job_phase := p\<rparr> # js'\<rparr>"
  let ?gone = "\<lambda>w. s\<lparr>pl_world := w, pl_jobs := js @ js'\<rparr>"
  obtain lk w1 where look: "process_look E ?i (pl_world s) = (lk, w1)" by (metis surj_pair)
  show ?thesis
  proof (cases lk)
    case (Inl e)
    then have "r = Inl e" "w = w1" using run look by (auto simp: Processor_Process_def op_bind_def)
    then show ?thesis
      using pipe_step.look_fails [OF jobs ph look [unfolded Inl]] by (simp add: r_into_rtranclp)
  next
    case (Inr o')
    show ?thesis
    proof (cases o')
      case None
      then have "r = Inr ()" "w = w1" using run look Inr by (auto simp: Processor_Process_def op_bind_def)
      then show ?thesis using pipe_step.look [OF jobs ph look [unfolded Inr]] None by (auto simp: r_into_rtranclp)
    next
      case (Some work)
      have 1: "pipe_step E L idle s (?at w1 (Looked work))"
        using pipe_step.look [OF jobs ph look [unfolded Inr]] Some by simp
      obtain tk w2 where take': "process_take E idle ?i (job_consumer j) w1 = (tk, w2)" by (metis surj_pair)
      show ?thesis
      proof (cases tk)
        case e: (Inl e)
        then have "r = Inl e" "w = w2" using run look Inr Some take' by (auto simp: Processor_Process_def op_bind_def)
        moreover have "pipe_step E L idle (?at w1 (Looked work)) (?gone w2)"
          using pipe_step.take_fails [of "?at w1 (Looked work)" js "j\<lparr>job_phase := Looked work\<rparr>" js' work E idle e w2] take' e
          by simp
        ultimately show ?thesis using 1 by simp
      next
        case u: (Inr u)
        have 2: "pipe_step E L idle (?at w1 (Looked work)) (?at (tick w2) (Holding work (env_clock E (w_tick w2))))"
          using pipe_step.take [of "?at w1 (Looked work)" js "j\<lparr>job_phase := Looked work\<rparr>" js' work E idle w2] take' u
          by simp
        have held: "(pipe_step E L idle)\<^sup>*\<^sup>* s (?at (tick w2) (Holding work (env_clock E (w_tick w2))))"
          using 1 2 by (meson r_into_rtranclp steps_then)
        show ?thesis
        proof (cases "probe_of ps (Exec_ProbeType (Work_Execution work))")
          case None
          then have "r = Inl (New ''unsupported probe type'')" "w = w2"
            using run look Inr Some take' u by (auto simp: Processor_Process_def op_bind_def)
          moreover have "pipe_step E L idle (?at (tick w2) (Holding work (env_clock E (w_tick w2)))) (?gone (tick w2))"
            using pipe_step.lose [of "?at (tick w2) (Holding work (env_clock E (w_tick w2)))" js] by simp
          moreover have "pipe_step E L idle (?gone (tick w2)) (?gone w2)"
            by (rule pipe_world_jobs) simp
          ultimately show ?thesis using held by (auto intro: steps_then)
        next
          case impl: (Some implementation)
          let ?started = "env_clock E (w_tick w2)"
          obtain result attempts w3 where pr: "process_probe implementation waitFor work (tick w2) = (Inr (result, attempts), w3)"
            by (cases "process_probe implementation waitFor work (tick w2)")
               (auto simp: process_probe_def split: prod.splits)
          have "w_db (snd (implementation tm tg x)) = w_db x" for tm tg x
            using impl http tcp by (auto simp: probe_of_def split: if_splits)
          then have v: "w_db w3 = w_db w2"
            using process_probe_world [of implementation waitFor, OF _ wait pr] by simp
          have 3: "pipe_step E L idle (?at (tick w2) (Holding work ?started)) (?at (tick w2) (Probed result attempts ?started))"
            using pipe_step.probe [of "?at (tick w2) (Holding work ?started)" js "j\<lparr>job_phase := Holding work ?started\<rparr>" js'
                work ?started implementation waitFor "tick w2" result attempts w3] pr by simp
          have 4: "pipe_step E L idle (?at (tick w2) (Probed result attempts ?started)) (?at w3 (Probed result attempts ?started))"
            by (rule pipe_world_jobs) (simp add: v)
          have probed: "(pipe_step E L idle)\<^sup>*\<^sup>* s (?at w3 (Probed result attempts ?started))"
            using steps_then [OF steps_then [OF held 3] 4] .
          obtain st w4 where settle: "process_settle E ?i (job_consumer j) ?started result attempts w3 = (st, w4)"
            by (metis surj_pair)
          have rw: "r = (case st of Inl e \<Rightarrow> Inl e | Inr _ \<Rightarrow> Inr ())" "w = w4"
            using run look Inr Some take' u impl pr settle
            by (auto simp: Processor_Process_def op_bind_def split: sum.splits)
          show ?thesis
          proof (cases st)
            case e: (Inl e)
            have "pipe_step E L idle (?at w3 (Probed result attempts ?started)) (?gone w4)"
              using pipe_step.settle_fails [of "?at w3 (Probed result attempts ?started)" js
                  "j\<lparr>job_phase := Probed result attempts ?started\<rparr>" js' result attempts ?started E e w4] settle e by simp
            then show ?thesis using rw e steps_then [OF probed] by simp
          next
            case v: (Inr v)
            have "pipe_step E L idle (?at w3 (Probed result attempts ?started)) (?at w4 Settled)"
              using pipe_step.settle [of "?at w3 (Probed result attempts ?started)" js
                  "j\<lparr>job_phase := Probed result attempts ?started\<rparr>" js' result attempts ?started E w4] settle v by simp
            then show ?thesis using rw v steps_then [OF probed] by simp
          qed
        qed
      qed
    qed
  qed
qed

lemma Consumer_work_steps:
  assumes http: "\<And>tm tg w. w_db (snd (probe_http ps tm tg w)) = w_db w"
    and tcp: "\<And>tm tg w. w_db (snd (probe_tcp ps tm tg w)) = w_db w"
    and wait: "\<And>dl w. w_db (snd (waitFor dl w)) = w_db w"
  shows "(pipe_step E L idle)\<^sup>*\<^sup>* s (Consumer_work E idle ps waitFor ackError n s)"
proof (cases "length (pl_jobs s) \<le> n \<or> job_phase (pl_jobs s ! n) \<noteq> Received")
  case True
  then show ?thesis by (auto simp: Consumer_work_def Let_def)
next
  case False
  let ?j = "pl_jobs s ! n" and ?js = "take n (pl_jobs s)" and ?js' = "drop (Suc n) (pl_jobs s)"
  have jobs: "pl_jobs s = ?js @ ?j # ?js'" using False by (simp add: id_take_nth_drop)
  have ph: "job_phase ?j = Received" using False by simp
  obtain r w where run: "Processor_Process E idle ps waitFor (job_message ?j) (job_consumer ?j) (pl_world s) = (r, w)"
    by (metis surj_pair)
  note steps = work_steps [OF jobs ph http tcp wait run, of L]
  show ?thesis
  proof (cases r)
    case (Inl e)
    then show ?thesis using steps run False by (simp add: Consumer_work_def Let_def)
  next
    case (Inr u)
    let ?s = "s\<lparr>pl_world := w, pl_jobs := ?js @ ?j\<lparr>job_phase := Settled\<rparr> # ?js'\<rparr>"
    have reach: "(pipe_step E L idle)\<^sup>*\<^sup>* s ?s" using steps Inr by simp
    have "pipe_step E L idle ?s (s\<lparr>pl_world := w, pl_pending := removeAll (job_entry ?j) (pl_pending s),
        pl_jobs := ?js @ ?js'\<rparr>)"
      using pipe_step.ack [of ?s ?js "?j\<lparr>job_phase := Settled\<rparr>" ?js'] by simp
    moreover have "pipe_step E L idle ?s (s\<lparr>pl_world := w, pl_jobs := ?js @ ?js'\<rparr>)"
      using pipe_step.lose [of ?s ?js "?j\<lparr>job_phase := Settled\<rparr>" ?js'] by simp
    ultimately show ?thesis
      using run Inr False steps_then [OF reach] by (cases ackError) (simp_all add: Consumer_work_def Let_def)
  qed
qed

lemma Scheduler_Run_steps: "(pipe_step E L idle)\<^sup>*\<^sup>* s (Scheduler_Run E L batch first ticks s)"
proof -
  have "(pipe_step E L idle)\<^sup>*\<^sup>* p (fold (Scheduler_cycle E L batch) ticks p)" for p
  proof (induction ticks arbitrary: p)
    case Nil
    show ?case by simp
  next
    case (Cons t ts)
    show ?case using rtranclp_trans [OF Scheduler_cycle_steps Cons] by simp
  qed
  then show ?thesis
    unfolding Scheduler_Run_def using rtranclp_trans [OF Scheduler_cycle_steps] by blast
qed

end
