(* ===== verification/Auth.thy ===== *)
theory Auth
  imports Tables
begin

text \<open>
  \<open>internal/auth\<close>: tokens, the user repository, the login service and the bootstrap of
  the first user. JSON web tokens and bcrypt are libraries outside the repository: the record
  \<open>authlib\<close> holds the functions the program calls, with the arguments it passes.
\<close>

section \<open>Libraries\<close>

record Claims =
  Claims_Username :: string
  Claims_Subject :: string
  Claims_Issuer :: string
  Claims_IssuedAt :: "time option"
  Claims_ExpiresAt :: "time option"

text \<open>The options of the parser: valid methods, required issuer, whether \<open>exp\<close> is required.\<close>

record parse_options =
  po_ValidMethods :: "string list"
  po_Issuer :: string
  po_ExpirationRequired :: bool

record authlib =
  jwt_NewNumericDate :: "time \<Rightarrow> time"
  jwt_SignedString :: "string \<Rightarrow> Claims \<Rightarrow> string \<Rightarrow> go_error + string"
  jwt_ParseWithClaims :: "parse_options \<Rightarrow> (string \<Rightarrow> go_error + string) \<Rightarrow> time \<Rightarrow> string \<Rightarrow> go_error + bool \<times> Claims"
  bcrypt_Compare :: "string \<Rightarrow> string \<Rightarrow> go_error option"
  bcrypt_DefaultCost :: nat
  bcrypt_Generate :: "nat \<Rightarrow> string \<Rightarrow> go_error + string"

section \<open>Tokens\<close>

abbreviation "HS256 \<equiv> ''HS256''"

record Principal =
  Pr_UserID :: u64
  Pr_Username :: string
  Pr_ExpiresAt :: time

record TokenManager =
  tm_secret :: string
  tm_issuer :: string
  tm_expiresIn :: duration

definition NewTokenManager :: "string \<Rightarrow> string \<Rightarrow> duration \<Rightarrow> go_error + TokenManager" where
  "NewTokenManager secret issuer expiresIn =
     (if secret = [] then Inl (New ''configuration JWT_SECRET: required'')
      else if issuer = [] then Inl (New ''configuration JWT_ISSUER: required'')
      else if expiresIn \<le> 0 then Inl (New ''configuration JWT_EXPIRES_IN: must be positive'')
      else Inr \<lparr>tm_secret = secret, tm_issuer = issuer, tm_expiresIn = expiresIn\<rparr>)"

definition user_claims :: "authlib \<Rightarrow> TokenManager \<Rightarrow> User \<Rightarrow> time \<Rightarrow> Claims" where
  "user_claims A m user now = \<lparr>Claims_Username = User_Username user,
     Claims_Subject = FormatUint (User_ID user), Claims_Issuer = tm_issuer m,
     Claims_IssuedAt = Some (jwt_NewNumericDate A now),
     Claims_ExpiresAt = Some (jwt_NewNumericDate A (now + tm_expiresIn m))\<rparr>"

definition TokenManager_Generate ::
  "env \<Rightarrow> authlib \<Rightarrow> TokenManager \<Rightarrow> User \<Rightarrow> (world, string \<times> time) op" where
  "TokenManager_Generate E A m user =
     op_bind (time_now E) (\<lambda>now.
     case jwt_SignedString A HS256 (user_claims A m user now) (tm_secret m) of
       Inl err \<Rightarrow> op_fail (Wrap ''sign JWT: '' err)
     | Inr raw \<Rightarrow> op_return (raw, now + tm_expiresIn m))"

text \<open>The key function: the secret, for tokens signed with HS256 only.\<close>

definition token_key :: "TokenManager \<Rightarrow> string \<Rightarrow> go_error + string" where
  "token_key m meth = (if meth \<noteq> HS256 then Inl (Sentinel AuthErrInvalidToken) else Inr (tm_secret m))"

definition token_options :: "TokenManager \<Rightarrow> parse_options" where
  "token_options m = \<lparr>po_ValidMethods = [HS256], po_Issuer = tm_issuer m, po_ExpirationRequired = True\<rparr>"

definition TokenManager_Parse ::
  "env \<Rightarrow> authlib \<Rightarrow> TokenManager \<Rightarrow> string \<Rightarrow> (world, Principal) op" where
  "TokenManager_Parse E A m raw =
     op_bind (time_now E) (\<lambda>now.
     case jwt_ParseWithClaims A (token_options m) (token_key m) now raw of
       Inl err \<Rightarrow> op_fail (Sentinel AuthErrInvalidToken)
     | Inr (valid, claims) \<Rightarrow>
         (case Claims_ExpiresAt claims of
            None \<Rightarrow> op_fail (Sentinel AuthErrInvalidToken)
          | Some expires \<Rightarrow>
              if \<not> valid then op_fail (Sentinel AuthErrInvalidToken)
              else case ParseUint (Claims_Subject claims) of
                     None \<Rightarrow> op_fail (Sentinel AuthErrInvalidToken)
                   | Some userID \<Rightarrow>
                       if userID = 0 then op_fail (Sentinel AuthErrInvalidToken)
                       else op_return \<lparr>Pr_UserID = userID, Pr_Username = Claims_Username claims,
                              Pr_ExpiresAt = expires\<rparr>))"

section \<open>The user store\<close>

record 'w auth_store =
  us_FindByUsername :: "string \<Rightarrow> ('w, User) op"
  us_FindByID :: "u64 \<Rightarrow> ('w, User) op"
  us_CreateUser :: "User \<Rightarrow> ('w, unit) op"
  us_RecordFailure :: "Log \<Rightarrow> ('w, unit) op"
  us_RecordSuccess :: "u64 \<Rightarrow> time \<Rightarrow> Log \<Rightarrow> ('w, unit) op"

definition user_not_found :: "go_error \<Rightarrow> go_error" where
  "user_not_found e = (if foreign_is fx_record_not_found e then Sentinel AuthErrUserNotFound else e)"

definition same_name :: "env \<Rightarrow> string \<Rightarrow> User \<Rightarrow> bool" where
  "same_name E username u \<longleftrightarrow> env_coll E (User_Username u) = env_coll E username"

definition AuthRepo_FindByUsername :: "env \<Rightarrow> string \<Rightarrow> (world, User) op" where
  "AuthRepo_FindByUsername E username =
     op_map_error user_not_found (tb_first E (users_table E) (same_name E username))"

definition AuthRepo_FindByID :: "env \<Rightarrow> u64 \<Rightarrow> (world, User) op" where
  "AuthRepo_FindByID E i =
     op_map_error user_not_found (tb_first E (users_table E) (\<lambda>u. User_ID u = i))"

definition AuthRepo_CreateUser :: "env \<Rightarrow> User \<Rightarrow> (world, unit) op" where
  "AuthRepo_CreateUser E user =
     op_bind (tb_create E (users_table E)
       (\<lambda>i now. user\<lparr>User_ID := i, User_CreatedAt := now, User_UpdatedAt := now\<rparr>)) (\<lambda>_.
     op_return ())"

definition AuthRepo_RecordFailure :: "env \<Rightarrow> Log \<Rightarrow> (world, unit) op" where
  "AuthRepo_RecordFailure E entry = op_bind (create_log E entry) (\<lambda>_. op_return ())"

text \<open>The update does not look at the affected rows.\<close>

definition AuthRepo_RecordSuccess :: "env \<Rightarrow> u64 \<Rightarrow> time \<Rightarrow> Log \<Rightarrow> (world, unit) op" where
  "AuthRepo_RecordSuccess E userID at entry =
     transaction E (
       op_bind (tb_update_where E (users_table E) (\<lambda>u. User_ID u = userID)
         (\<lambda>now u. u\<lparr>User_LastLoginAt := Some (env_col3 E at), User_UpdatedAt := now\<rparr>)) (\<lambda>_.
       op_bind (create_log E entry) (\<lambda>_. op_return ())))"

definition auth_repository :: "env \<Rightarrow> world auth_store" where
  "auth_repository E = \<lparr>us_FindByUsername = AuthRepo_FindByUsername E,
     us_FindByID = AuthRepo_FindByID E, us_CreateUser = AuthRepo_CreateUser E,
     us_RecordFailure = AuthRepo_RecordFailure E, us_RecordSuccess = AuthRepo_RecordSuccess E\<rparr>"

section \<open>The service\<close>

record RequestMetadata =
  RM_RequestID :: string
  RM_ClientIP :: string
  RM_UserAgent :: string

record PublicUser =
  PU_ID :: u64
  PU_Username :: string
  PU_Status :: string
  PU_LastLoginAt :: "time option"
  PU_CreatedAt :: time
  PU_UpdatedAt :: time

definition publicUser :: "User \<Rightarrow> PublicUser" where
  "publicUser user = \<lparr>PU_ID = User_ID user, PU_Username = User_Username user,
     PU_Status = User_Status user, PU_LastLoginAt = User_LastLoginAt user,
     PU_CreatedAt = User_CreatedAt user, PU_UpdatedAt = User_UpdatedAt user\<rparr>"

record LoginResult =
  LR_AccessToken :: string
  LR_TokenType :: string
  LR_ExpiresIn :: int
  LR_User :: PublicUser

definition pointer :: "string \<Rightarrow> string option" where
  "pointer v = (if v = [] then None else Some v)"

definition loginAudit :: "u64 option \<Rightarrow> string \<Rightarrow> string \<Rightarrow> string \<Rightarrow> RequestMetadata \<Rightarrow> Log" where
  "loginAudit userID username outcome failure md = Log_zero\<lparr>
     Log_ActorUserID := userID, Log_Username := pointer username, Log_Action := ''auth.login'',
     Log_Outcome := outcome, Log_RequestID := pointer (RM_RequestID md),
     Log_ClientIP := pointer (RM_ClientIP md), Log_UserAgent := pointer (RM_UserAgent md),
     Log_FailureCode := (if failure \<noteq> [] then pointer failure else None)\<rparr>"

text \<open>The error of the failure record is dropped.\<close>

definition recordFailure ::
  "'w auth_store \<Rightarrow> string \<Rightarrow> string \<Rightarrow> RequestMetadata \<Rightarrow> ('w, unit) op" where
  "recordFailure S username code md w =
     (Inr (), snd (us_RecordFailure S (loginAudit None username ''failure'' code md) w))"

definition AuthService_Login ::
  "env \<Rightarrow> authlib \<Rightarrow> world auth_store \<Rightarrow> TokenManager \<Rightarrow> string \<Rightarrow> string \<Rightarrow> RequestMetadata \<Rightarrow> (world, LoginResult) op" where
  "AuthService_Login E A S m username0 password md w =
     (let username = TrimSpace username0;
          invalid = op_bind (recordFailure S username ''invalid_credentials'' md) (\<lambda>_.
             op_fail (Sentinel AuthErrInvalidCredentials))
      in case us_FindByUsername S username w of
           (Inl err, w1) \<Rightarrow> invalid w1
         | (Inr user, w1) \<Rightarrow>
             if bcrypt_Compare A (User_PasswordHash user) password \<noteq> None then invalid w1
             else if User_Status user \<noteq> AuthStatusActive then
               op_bind (recordFailure S username ''user_disabled'' md) (\<lambda>_.
                 op_fail (Sentinel AuthErrUserDisabled)) w1
             else
               op_bind (TokenManager_Generate E A m user) (\<lambda>(token, expiresAt).
               op_bind (time_now E) (\<lambda>now.
               op_bind (us_RecordSuccess S (User_ID user) now
                 (loginAudit (Some (User_ID user)) username ''success'' [] md)) (\<lambda>_.
               op_bind (time_now E) (\<lambda>later.
               op_return \<lparr>LR_AccessToken = token, LR_TokenType = ''Bearer'',
                 LR_ExpiresIn = go_quot (expiresAt - later) second,
                 LR_User = publicUser (user\<lparr>User_LastLoginAt := Some now\<rparr>)\<rparr>)))) w1)"

definition AuthService_Me :: "'w auth_store \<Rightarrow> u64 \<Rightarrow> ('w, PublicUser) op" where
  "AuthService_Me S userID w =
     (case us_FindByID S userID w of
        (Inl err, w1) \<Rightarrow> (Inl (Sentinel AuthErrUnauthenticated), w1)
      | (Inr user, w1) \<Rightarrow>
          if User_Status user \<noteq> AuthStatusActive then (Inl (Sentinel AuthErrUnauthenticated), w1)
          else (Inr (publicUser user), w1))"

section \<open>Bootstrap\<close>

definition new_user :: "string \<Rightarrow> string \<Rightarrow> User" where
  "new_user username hash = \<lparr>User_ID = 0, User_Username = username, User_PasswordHash = hash,
     User_Status = AuthStatusActive, User_LastLoginAt = None, User_CreatedAt = 0, User_UpdatedAt = 0\<rparr>"

definition Bootstrap :: "authlib \<Rightarrow> 'w auth_store \<Rightarrow> string \<Rightarrow> string \<Rightarrow> ('w, unit) op" where
  "Bootstrap A S username password w =
     (if username = [] \<and> password = [] then (Inr (), w)
      else if username = [] \<or> password = [] then
        (Inl (New ''configuration BOOTSTRAP_USER_USERNAME and BOOTSTRAP_USER_PASSWORD must be set together''), w)
      else case us_FindByUsername S username w of
             (Inr user, w1) \<Rightarrow> (Inr (), w1)
           | (Inl err, w1) \<Rightarrow>
               if \<not> errors_Is err AuthErrUserNotFound then (Inl (Wrap ''find bootstrap user: '' err), w1)
               else case bcrypt_Generate A (bcrypt_DefaultCost A) password of
                      Inl err \<Rightarrow> (Inl (Wrap ''hash bootstrap password: '' err), w1)
                    | Inr hash \<Rightarrow>
                        (case us_CreateUser S (new_user username hash) w1 of
                           (Inr _, w2) \<Rightarrow> (Inr (), w2)
                         | (Inl err, w2) \<Rightarrow>
                             (case us_FindByUsername S username w2 of
                                (Inr _, w3) \<Rightarrow> (Inr (), w3)
                              | (Inl _, w3) \<Rightarrow> (Inl (Wrap ''create bootstrap user: '' err), w3))))"

section \<open>Laws of the user store\<close>

definition login_effect :: "u64 \<Rightarrow> Log \<Rightarrow> db \<Rightarrow> db \<Rightarrow> bool" where
  "login_effect i l d d' \<longleftrightarrow> (\<exists>at up a. same_entry a l \<and>
     d' = d\<lparr>T_users := map (\<lambda>u. if User_ID u = i
              then u\<lparr>User_LastLoginAt := Some at, User_UpdatedAt := up\<rparr> else u) (T_users d),
            T_audit_logs := T_audit_logs d @ [a]\<rparr>)"

definition log_effect :: "Log \<Rightarrow> db \<Rightarrow> db \<Rightarrow> bool" where
  "log_effect l d d' \<longleftrightarrow> (\<exists>a. same_entry a l \<and> d' = d\<lparr>T_audit_logs := T_audit_logs d @ [a]\<rparr>)"

definition user_effect :: "User \<Rightarrow> db \<Rightarrow> db \<Rightarrow> bool" where
  "user_effect v d d' \<longleftrightarrow> (\<exists>i c u. i \<noteq> 0 \<and> i \<notin> User_ID ` set (T_users d) \<and>
     d' = d\<lparr>T_users := T_users d @ [v\<lparr>User_ID := i, User_CreatedAt := c, User_UpdatedAt := u\<rparr>]\<rparr>)"

locale auth_store_laws =
  fixes S :: "world auth_store" and C :: "string \<Rightarrow> string"
  assumes FindByUsername_reads [simp]: "w_db (snd (us_FindByUsername S n w)) = w_db w"
    and FindByUsername_row: "us_FindByUsername S n w = (Inr u, w') \<Longrightarrow>
      u \<in> set (T_users (w_db w)) \<and> C (User_Username u) = C n"
    and FindByID_reads [simp]: "w_db (snd (us_FindByID S i w)) = w_db w"
    and FindByID_row: "us_FindByID S i w = (Inr u, w') \<Longrightarrow> u \<in> set (T_users (w_db w)) \<and> User_ID u = i"
    and CreateUser_effect: "User_LastLoginAt v = None \<Longrightarrow> us_CreateUser S v w = (r, w') \<Longrightarrow>
      (case r of Inl e \<Rightarrow> w_db w' = w_db w | Inr _ \<Rightarrow> user_effect v (w_db w) (w_db w'))"
    and RecordFailure_effect: "all_or_nothing w_db (us_RecordFailure S l) w (\<lambda>_. log_effect l (w_db w))"
    and RecordSuccess_effect: "all_or_nothing w_db (us_RecordSuccess S i at l) w (\<lambda>_. login_effect i l (w_db w))"
begin

lemma recordFailure_effect:
  "w_db (snd (recordFailure S n code md w)) = w_db w \<or>
   log_effect (loginAudit None n ''failure'' code md) (w_db w) (w_db (snd (recordFailure S n code md w)))"
  using all_or_nothing_cases [OF RecordFailure_effect [of "loginAudit None n ''failure'' code md" w]]
  by (auto simp: recordFailure_def)

lemma Me_row:
  assumes "AuthService_Me S i w = (r, w')"
  shows "w_db w' = w_db w"
    and "r = Inr p \<Longrightarrow> \<exists>u\<in>set (T_users (w_db w)). User_ID u = i \<and> User_Status u = AuthStatusActive \<and> p = publicUser u"
    and "r = Inl e \<Longrightarrow> e = Sentinel AuthErrUnauthenticated"
proof -
  obtain o' w1 where g: "us_FindByID S i w = (o', w1)" by (metis surj_pair)
  have v: "w_db w1 = w_db w" using FindByID_reads [of i w] g by simp
  show "w_db w' = w_db w"
    using assms v by (cases o') (auto simp: AuthService_Me_def g split: if_splits)
  show "r = Inr p \<Longrightarrow> \<exists>u\<in>set (T_users (w_db w)). User_ID u = i \<and> User_Status u = AuthStatusActive \<and> p = publicUser u"
    using assms g FindByID_row [of i w] by (cases o') (auto simp: AuthService_Me_def split: if_splits)
  show "r = Inl e \<Longrightarrow> e = Sentinel AuthErrUnauthenticated"
    using assms g by (cases o') (auto simp: AuthService_Me_def split: if_splits)
qed

end

interpretation auth_repo: auth_store_laws "auth_repository E" "env_coll E" for E
proof unfold_locales
  fix n w i
  show "w_db (snd (us_FindByUsername (auth_repository E) n w)) = w_db w"
    by (simp add: auth_repository_def AuthRepo_FindByUsername_def)
  show "w_db (snd (us_FindByID (auth_repository E) i w)) = w_db w"
    by (simp add: auth_repository_def AuthRepo_FindByID_def)
next
  fix n w u w'
  assume "us_FindByUsername (auth_repository E) n w = (Inr u, w')"
  then show "u \<in> set (T_users (w_db w)) \<and> env_coll E (User_Username u) = env_coll E n"
    using users.first_row_Inr by (fastforce simp: auth_repository_def AuthRepo_FindByUsername_def tb_Inr same_name_def)
next
  fix i w u w'
  assume "us_FindByID (auth_repository E) i w = (Inr u, w')"
  then show "u \<in> set (T_users (w_db w)) \<and> User_ID u = i"
    using users.first_row_Inr by (fastforce simp: auth_repository_def AuthRepo_FindByID_def tb_Inr)
next
  fix v w r w'
  assume v: "User_LastLoginAt v = None" and run: "us_CreateUser (auth_repository E) v w = (r, w')"
  show "case r of Inl e \<Rightarrow> w_db w' = w_db w | Inr _ \<Rightarrow> user_effect v (w_db w) (w_db w')"
  proof (cases r)
    case (Inl e)
    then show ?thesis
      using run by (auto simp: auth_repository_def AuthRepo_CreateUser_def op_bind_def tb_create_def db_stmt_def
          split: option.splits sum.splits prod.splits)
  next
    case (Inr u)
    then obtain x d where ins: "insert_row E (users_table E)
        (\<lambda>i now. v\<lparr>User_ID := i, User_CreatedAt := now, User_UpdatedAt := now\<rparr>) (w_tick w) (w_db w) = Inr (x, d)"
      and w': "w_db w' = d"
      using run by (auto simp: auth_repository_def AuthRepo_CreateUser_def tb_Inr elim!: op_bind_Inr)
    note row = users.insert_row_Inr [OF ins]
    let ?i = "env_new_id E (w_tick w) (map User_ID (T_users (w_db w)))"
    let ?c = "env_col3 E (env_clock E (w_tick w))"
    have "tb_store (users_table E) x = v\<lparr>User_ID := ?i, User_CreatedAt := ?c, User_UpdatedAt := ?c\<rparr>"
      using row(4) v by (cases v) (simp add: users_table_def col3_opt_def)
    then have "d = (w_db w)\<lparr>T_users := T_users (w_db w) @ [v\<lparr>User_ID := ?i, User_CreatedAt := ?c, User_UpdatedAt := ?c\<rparr>]\<rparr>"
      using row(2) by simp
    moreover have "?i \<noteq> 0" "?i \<notin> User_ID ` set (T_users (w_db w))" using row(3,5) by auto
    ultimately have "user_effect v (w_db w) d" unfolding user_effect_def by blast
    then show ?thesis using Inr w' by simp
  qed
next
  fix l w
  show "all_or_nothing w_db (us_RecordFailure (auth_repository E) l) w (\<lambda>_. log_effect l (w_db w))"
    using create_log_Inr [of E l w]
    by (auto simp: auth_repository_def AuthRepo_RecordFailure_def all_or_nothing_def op_bind_def log_effect_def
        create_log_def tb_create_def db_stmt_def split: prod.splits sum.splits option.splits)
next
  fix i at l w
  show "all_or_nothing w_db (us_RecordSuccess (auth_repository E) i at l) w (\<lambda>_. login_effect i l (w_db w))"
    unfolding auth_repository_def auth_store.simps AuthRepo_RecordSuccess_def
  proof (rule transaction_all_or_nothing)
    fix x w1
    assume "op_bind (tb_update_where E (users_table E) (\<lambda>u. User_ID u = i)
         (\<lambda>now u. u\<lparr>User_LastLoginAt := Some (env_col3 E at), User_UpdatedAt := now\<rparr>)) (\<lambda>_.
       op_bind (create_log E l) (\<lambda>_. op_return ())) (tick w) = (Inr x, w1)"
    then obtain n d a where up: "update_rows E (users_table E) (\<lambda>u. User_ID u = i)
         (\<lambda>now u. u\<lparr>User_LastLoginAt := Some (env_col3 E at), User_UpdatedAt := now\<rparr>) (Suc (w_tick w)) (w_db w) = Inr (n, d)"
      and "same_entry a l" "w_db w1 = d\<lparr>T_audit_logs := T_audit_logs d @ [a]\<rparr>"
      by (auto simp: tb_Inr elim!: op_bind_Inr dest!: create_log_Inr)
    then show "login_effect i l (w_db w) (w_db w1)"
      using users.update_rows_Inr(1) [OF up] by (auto simp: login_effect_def)
  qed
qed

end
