(* ===== verification/IncidentRepository.thy ===== *)
theory IncidentRepository
  imports Tables
begin

text \<open>
  \<open>internal/incident/repository.go\<close>: incidents in MySQL. A firing alert is an
  \<open>INSERT ... ON DUPLICATE KEY UPDATE\<close>, a resolution an update or an insert in one
  transaction, a user transition a conditional update with its audit entry.
\<close>

section \<open>Operations\<close>

definition same_event :: "env \<Rightarrow> Incident \<Rightarrow> Incident \<Rightarrow> bool" where
  "same_event E v x \<longleftrightarrow> env_coll E (Inc_EventKey x) = env_coll E (Inc_EventKey v)"

text \<open>What the statement of \<open>UpsertFiring\<close> writes into a new row and into an existing one.\<close>

definition firing_row :: "Incident \<Rightarrow> u64 \<Rightarrow> time \<Rightarrow> Incident" where
  "firing_row v i now = v\<lparr>Inc_ID := i, Inc_Status := IncFiring, Inc_ResolvedAt := None,
     Inc_ClosedAt := None, Inc_AcknowledgedAt := None, Inc_ProcessingAt := None,
     Inc_AcknowledgedBy := None, Inc_ProcessingBy := None, Inc_ClosedBy := None,
     Inc_OccurrenceCount := 1, Inc_CreatedAt := now, Inc_UpdatedAt := now\<rparr>"

definition fired_again :: "env \<Rightarrow> Incident \<Rightarrow> time \<Rightarrow> Incident \<Rightarrow> Incident" where
  "fired_again E v now x = x\<lparr>Inc_OccurrenceCount := Inc_OccurrenceCount x + 1,
     Inc_LastSeenAt := env_col3 E (Inc_LastSeenAt v), Inc_UpdatedAt := now\<rparr>"

definition upsert_firing :: "env \<Rightarrow> Incident \<Rightarrow> nat \<Rightarrow> db \<Rightarrow> go_error + unit \<times> db" where
  "upsert_firing E v t d =
     (if list_ex (same_event E v) (T_incidents d)
      then Inr ((), d\<lparr>T_incidents := map (\<lambda>x. if same_event E v x
             then fired_again E v (env_col3 E (env_clock E t)) x else x) (T_incidents d)\<rparr>)
      else case insert_row E (incidents_table E) (firing_row v) t d of
             Inl e \<Rightarrow> Inl e
           | Inr (_, d') \<Rightarrow> Inr ((), d'))"

definition IncidentRepo_UpsertFiring :: "env \<Rightarrow> Incident \<Rightarrow> (world, unit) op" where
  "IncidentRepo_UpsertFiring E v = db_stmt E (upsert_firing E v)"

definition resolved_row :: "env \<Rightarrow> Incident \<Rightarrow> time \<Rightarrow> Incident \<Rightarrow> Incident" where
  "resolved_row E v now x = x\<lparr>
     Inc_Status := (if Inc_Status x = IncClosed then Inc_Status x else IncResolved),
     Inc_ResolvedAt := (case Inc_ResolvedAt x of Some r \<Rightarrow> Some r | None \<Rightarrow> col3_opt E (Inc_ResolvedAt v)),
     Inc_LastSeenAt := env_col3 E (Inc_LastSeenAt v), Inc_UpdatedAt := now\<rparr>"

definition IncidentRepo_Resolve :: "env \<Rightarrow> Incident \<Rightarrow> (world, unit) op" where
  "IncidentRepo_Resolve E v =
     transaction E (
       op_bind (tb_update_where E (incidents_table E) (same_event E v) (resolved_row E v)) (\<lambda>affected.
       if affected > 0 then op_return ()
       else op_bind (tb_create E (incidents_table E)
              (\<lambda>i now. v\<lparr>Inc_ID := i, Inc_CreatedAt := now, Inc_UpdatedAt := now\<rparr>)) (\<lambda>_.
            op_return ())))"

definition IncidentRepo_Get :: "env \<Rightarrow> u64 \<Rightarrow> (world, Incident) op" where
  "IncidentRepo_Get E i =
     op_map_error (\<lambda>e. if foreign_is fx_record_not_found e then Sentinel IncidentErrNotFound else e)
       (tb_first E (incidents_table E) (\<lambda>x. Inc_ID x = i))"

definition IncidentRepo_List :: "env \<Rightarrow> int \<Rightarrow> int \<Rightarrow> (world, Incident list \<times> int) op" where
  "IncidentRepo_List E page sz = list_page E (incidents_table E) page sz"

text \<open>The columns that \<open>Transition\<close> sets, by the status it goes to.\<close>

definition transition_row :: "env \<Rightarrow> string \<Rightarrow> u64 \<Rightarrow> time \<Rightarrow> time \<Rightarrow> Incident \<Rightarrow> Incident" where
  "transition_row E to actor now u x =
     (let x' = x\<lparr>Inc_Status := to, Inc_UpdatedAt := u\<rparr>; n = Some (env_col3 E now)
      in if to = IncAcknowledged then x'\<lparr>Inc_AcknowledgedAt := n, Inc_AcknowledgedBy := Some actor\<rparr>
         else if to = IncProcessing then x'\<lparr>Inc_ProcessingAt := n, Inc_ProcessingBy := Some actor\<rparr>
         else if to = IncClosed then x'\<lparr>Inc_ClosedAt := n, Inc_ClosedBy := Some actor\<rparr>
         else x')"

definition IncidentRepo_Transition ::
  "env \<Rightarrow> u64 \<Rightarrow> string list \<Rightarrow> string \<Rightarrow> u64 \<Rightarrow> Log \<Rightarrow> (world, Incident) op" where
  "IncidentRepo_Transition E i sources to actor entry =
     transaction E (
       op_bind (time_now E) (\<lambda>now.
       op_bind (tb_update_where E (incidents_table E)
         (\<lambda>x. Inc_ID x = i \<and> Inc_Status x \<in> set sources) (transition_row E to actor now)) (\<lambda>affected.
       op_bind (op_when_fail (affected \<noteq> 1) (Sentinel IncidentErrConflict)) (\<lambda>_.
       op_bind (create_log E entry) (\<lambda>_.
       tb_first E (incidents_table E) (\<lambda>x. Inc_ID x = i))))))"

section \<open>The life of an incident\<close>

inductive incident_step :: "env \<Rightarrow> Incident \<Rightarrow> Incident \<Rightarrow> bool" for E where
  fire: "incident_step E x (fired_again E v now x)"
| resolve: "Inc_ResolvedAt v \<noteq> None \<Longrightarrow> incident_step E x (resolved_row E v now x)"
| acknowledge: "Inc_Status x = IncFiring \<Longrightarrow>
     incident_step E x (transition_row E IncAcknowledged actor now u x)"
| process: "Inc_Status x = IncFiring \<or> Inc_Status x = IncAcknowledged \<Longrightarrow>
     incident_step E x (transition_row E IncProcessing actor now u x)"
| close: "Inc_Status x = IncResolved \<Longrightarrow> incident_step E x (transition_row E IncClosed actor now u x)"

lemmas incident_row_defs = fired_again_def resolved_row_def transition_row_def Let_def

definition incident_rank :: "Incident \<Rightarrow> nat" where
  "incident_rank x =
     (if Inc_Status x = IncFiring then 0 else if Inc_Status x = IncAcknowledged then 1
      else if Inc_Status x = IncProcessing then 2 else if Inc_Status x = IncResolved then 3 else 4)"

text \<open>The timestamps and actors of an incident agree with its status.\<close>

definition incident_ok :: "Incident \<Rightarrow> bool" where
  "incident_ok x \<longleftrightarrow>
     Inc_Status x \<in> set [IncFiring, IncAcknowledged, IncProcessing, IncResolved, IncClosed] \<and>
     (Inc_ResolvedAt x \<noteq> None \<longleftrightarrow> Inc_Status x \<in> set [IncResolved, IncClosed]) \<and>
     (Inc_ClosedAt x \<noteq> None \<longleftrightarrow> Inc_Status x = IncClosed) \<and>
     (Inc_ClosedBy x \<noteq> None \<longleftrightarrow> Inc_Status x = IncClosed) \<and>
     (Inc_Status x = IncAcknowledged \<longrightarrow> Inc_AcknowledgedAt x \<noteq> None \<and> Inc_AcknowledgedBy x \<noteq> None) \<and>
     (Inc_Status x = IncProcessing \<longrightarrow> Inc_ProcessingAt x \<noteq> None \<and> Inc_ProcessingBy x \<noteq> None) \<and>
     1 \<le> Inc_OccurrenceCount x"

definition incident_identity :: "Incident \<Rightarrow> u64 \<times> string \<times> string \<times> string \<times> u64 \<times> u64 \<times> string \<times> time" where
  "incident_identity x = (Inc_ID x, Inc_EventKey x, Inc_Fingerprint x, Inc_AlertName x,
     Inc_ServiceID x, Inc_TaskID x, Inc_ProbeType x, Inc_FiredAt x)"

lemma incident_step_ok: "incident_step E x y \<Longrightarrow> incident_ok x \<Longrightarrow> incident_ok y"
  by (induction rule: incident_step.induct)
     (auto simp: incident_ok_def incident_row_defs col3_opt_def split: option.splits)

lemma incident_step_rank: "incident_step E x y \<Longrightarrow> incident_ok x \<Longrightarrow> incident_rank x \<le> incident_rank y"
  by (induction rule: incident_step.induct)
     (auto simp: incident_ok_def incident_rank_def incident_row_defs)

lemma incident_step_identity: "incident_step E x y \<Longrightarrow> incident_identity y = incident_identity x"
  by (induction rule: incident_step.induct) (auto simp: incident_identity_def incident_row_defs)

section \<open>How the table of incidents moves\<close>

definition incident_move :: "env \<Rightarrow> db \<Rightarrow> db \<Rightarrow> bool" where
  "incident_move E d d' \<longleftrightarrow>
     (\<exists>rs news. T_incidents d' = rs @ news \<and>
        list_all2 (\<lambda>x y. y = x \<or> incident_step E x y) (T_incidents d) rs \<and>
        (\<forall>x\<in>set news. incident_ok x)) \<and>
     (unique_by (incident_uk (env_coll E)) (T_incidents d) \<longrightarrow>
        unique_by (incident_uk (env_coll E)) (T_incidents d')) \<and>
     (distinct (map Inc_ID (T_incidents d)) \<longrightarrow> distinct (map Inc_ID (T_incidents d')))"

lemma incident_move_same: "T_incidents d' = T_incidents d \<Longrightarrow> incident_move E d d'"
  unfolding incident_move_def
  by (intro conjI exI [of _ "T_incidents d"] exI [of _ "[]"]) (auto simp: list_all2_same)

lemma incident_move_map:
  assumes d': "T_incidents d' = map (\<lambda>x. if p x then f x else x) (T_incidents d)"
    and step: "\<And>x. x \<in> set (T_incidents d) \<Longrightarrow> p x \<Longrightarrow> incident_step E x (f x)"
  shows "incident_move E d d'"
proof -
  have same: "Inc_ID (f x) = Inc_ID x" "incident_uk (env_coll E) (f x) = incident_uk (env_coll E) x"
    if "x \<in> set (T_incidents d)" "p x" for x
    using incident_step_identity [OF step [OF that]] by (simp_all add: incident_identity_def incident_uk_def)
  have "list_all2 (\<lambda>x y. y = x \<or> incident_step E x y) (T_incidents d) (T_incidents d')"
    unfolding d' by (rule list_all2_map_if) (use step in auto)
  moreover have "map Inc_ID (T_incidents d') = map Inc_ID (T_incidents d)"
    unfolding d' by (rule map_if_key) (rule same)
  moreover have "map (incident_uk (env_coll E)) (T_incidents d') = map (incident_uk (env_coll E)) (T_incidents d)"
    unfolding d' by (rule map_if_key) (rule same)
  ultimately show ?thesis
    unfolding incident_move_def unique_by_def
    by (intro conjI exI [of _ "T_incidents d'"] exI [of _ "[]"]) simp_all
qed

lemma incident_move_insert:
  assumes ins: "insert_row E (incidents_table E) mk t d = Inr (r, d')"
    and ok: "\<And>i c. incident_ok (tb_store (incidents_table E) (mk i c))" and key: "\<And>i c. Inc_ID (mk i c) = i"
  shows "incident_move E d d'"
proof -
  note row = incidents.insert_row_Inr [OF ins]
  have "T_incidents d' = T_incidents d @ [tb_store (incidents_table E) r]" using row(1) by simp
  moreover have "incident_ok (tb_store (incidents_table E) r)" using row(4) ok by simp
  moreover have "unique_by (incident_uk (env_coll E)) (T_incidents d')"
    if "unique_by (incident_uk (env_coll E)) (T_incidents d)"
    using incidents.insert_row_unique [OF ins] that by simp
  moreover have "distinct (map Inc_ID (T_incidents d'))" if "distinct (map Inc_ID (T_incidents d))"
    using incidents.insert_row_distinct [OF ins] row(4) key that by simp
  ultimately show ?thesis
    unfolding incident_move_def
    by (intro conjI exI [of _ "T_incidents d"] exI [of _ "[tb_store (incidents_table E) r]"])
       (auto simp: list_all2_same)
qed

text \<open>What else an operation on incidents may touch: the audit log only.\<close>

definition only_incidents :: "db \<Rightarrow> db \<Rightarrow> bool" where
  "only_incidents d d' \<longleftrightarrow> T_users d' = T_users d \<and> T_hosts d' = T_hosts d \<and>
     T_services d' = T_services d \<and> T_tasks d' = T_tasks d \<and> T_results d' = T_results d"

lemma only_incidents_refl [simp]: "only_incidents d d"
  by (simp add: only_incidents_def)

lemma upsert_firing_move:
  assumes "upsert_firing E v t d = Inr (u, d')"
  shows "incident_move E d d' \<and> only_incidents d d' \<and> T_audit_logs d' = T_audit_logs d"
proof (cases "list_ex (same_event E v) (T_incidents d)")
  case True
  then have d': "d' = d\<lparr>T_incidents := map (\<lambda>x. if same_event E v x
      then fired_again E v (env_col3 E (env_clock E t)) x else x) (T_incidents d)\<rparr>"
    using assms by (simp add: upsert_firing_def)
  have "incident_move E d d'"
    by (rule incident_move_map [where p = "same_event E v" and f = "fired_again E v (env_col3 E (env_clock E t))"])
       (simp_all add: d' incident_step.fire)
  then show ?thesis by (simp add: d' only_incidents_def)
next
  case False
  then obtain r where ins: "insert_row E (incidents_table E) (firing_row v) t d = Inr (r, d')"
    using assms by (auto simp: upsert_firing_def split: sum.splits)
  have "incident_move E d d'"
    by (rule incident_move_insert [OF ins])
       (auto simp: incident_ok_def firing_row_def incidents_table_def col3_opt_def)
  then show ?thesis
    using incidents.insert_row_Inr(2) [OF ins] by (simp add: only_incidents_def)
qed

lemma UpsertFiring_move:
  "let d' = w_db (snd (IncidentRepo_UpsertFiring E v w))
   in incident_move E (w_db w) d' \<and> only_incidents (w_db w) d' \<and> T_audit_logs d' = T_audit_logs (w_db w)"
  using upsert_firing_move [of E v "w_tick w" "w_db w"] incident_move_same [of "w_db w" "w_db w" E]
  by (auto simp: IncidentRepo_UpsertFiring_def db_stmt_def Let_def split: option.splits sum.splits)

lemma Resolve_effect:
  assumes "Inc_Status v = IncResolved" and "Inc_ResolvedAt v \<noteq> None"
    and "Inc_ClosedAt v = None" and "Inc_ClosedBy v = None" and "1 \<le> Inc_OccurrenceCount v"
  shows "all_or_nothing w_db (IncidentRepo_Resolve E v) w
    (\<lambda>_ d. incident_move E (w_db w) d \<and> only_incidents (w_db w) d \<and> T_audit_logs d = T_audit_logs (w_db w))"
  unfolding IncidentRepo_Resolve_def
proof (rule transaction_all_or_nothing)
  fix u w1
  assume "op_bind (tb_update_where E (incidents_table E) (same_event E v) (resolved_row E v)) (\<lambda>affected.
       if affected > 0 then op_return ()
       else op_bind (tb_create E (incidents_table E)
              (\<lambda>i now. v\<lparr>Inc_ID := i, Inc_CreatedAt := now, Inc_UpdatedAt := now\<rparr>)) (\<lambda>_. op_return ()))
       (tick w) = (Inr u, w1)"
  then obtain n d where up: "update_rows E (incidents_table E) (same_event E v) (resolved_row E v)
        (Suc (w_tick w)) (w_db w) = Inr (n, d)"
    and rest: "(n > 0 \<and> w_db w1 = d) \<or> (n = 0 \<and> (\<exists>t r. insert_row E (incidents_table E)
        (\<lambda>i now. v\<lparr>Inc_ID := i, Inc_CreatedAt := now, Inc_UpdatedAt := now\<rparr>) t d = Inr (r, w_db w1)))"
    by (auto simp: tb_Inr elim!: op_bind_Inr split: if_splits) blast
  let ?f = "resolved_row E v (env_col3 E (env_clock E (Suc (w_tick w))))"
  have d: "d = (w_db w)\<lparr>T_incidents := map (\<lambda>x. if same_event E v x then ?f x else x) (T_incidents (w_db w))\<rparr>"
    using incidents.update_rows_Inr(1) [OF up] by simp
  have move: "incident_move E (w_db w) d"
    by (rule incident_move_map [where p = "same_event E v" and f = ?f])
       (simp_all add: d incident_step.resolve assms(2))
  show "incident_move E (w_db w) (w_db w1) \<and> only_incidents (w_db w) (w_db w1) \<and>
      T_audit_logs (w_db w1) = T_audit_logs (w_db w)"
    using rest
  proof
    assume "n > 0 \<and> w_db w1 = d"
    then show ?thesis using move by (simp add: d only_incidents_def)
  next
    assume "n = 0 \<and> (\<exists>t r. insert_row E (incidents_table E)
        (\<lambda>i now. v\<lparr>Inc_ID := i, Inc_CreatedAt := now, Inc_UpdatedAt := now\<rparr>) t d = Inr (r, w_db w1))"
    then obtain t r where n: "n = 0" and ins: "insert_row E (incidents_table E)
        (\<lambda>i now. v\<lparr>Inc_ID := i, Inc_CreatedAt := now, Inc_UpdatedAt := now\<rparr>) t d = Inr (r, w_db w1)" by blast
    have "map (\<lambda>x. if same_event E v x then ?f x else x) (T_incidents (w_db w)) = T_incidents (w_db w)"
      using incidents.update_rows_Inr(3) [OF up] n
      by (intro map_idI) (auto simp: filter_empty_conv)
    then have "d = w_db w" using d by simp
    then have "incident_move E (w_db w) (w_db w1)"
      using incident_move_insert [OF ins] assms
      by (auto simp: incident_ok_def incidents_table_def col3_opt_def)
    then show ?thesis
      using incidents.insert_row_Inr(2) [OF ins] \<open>d = w_db w\<close> by (simp add: only_incidents_def)
  qed
qed

text \<open>A user transition rewrites one row, from one of the given states, with its audit entry.\<close>

lemma Transition_effect:
  assumes step: "\<And>x now u. Inc_Status x \<in> set sources \<Longrightarrow> incident_step E x (transition_row E to actor now u x)"
  shows "all_or_nothing w_db (IncidentRepo_Transition E i sources to actor entry) w
    (\<lambda>_ d. incident_move E (w_db w) d \<and> only_incidents (w_db w) d \<and>
       (\<exists>a. T_audit_logs d = T_audit_logs (w_db w) @ [a] \<and> same_entry a entry) \<and>
       (\<exists>x\<in>set (T_incidents (w_db w)). Inc_ID x = i \<and> Inc_Status x \<in> set sources) \<and>
       (\<exists>y\<in>set (T_incidents d). Inc_ID y = i \<and> Inc_Status y = to))"
  unfolding IncidentRepo_Transition_def
proof (rule transaction_all_or_nothing)
  fix r w1
  let ?p = "\<lambda>x. Inc_ID x = i \<and> Inc_Status x \<in> set sources"
  assume "op_bind (time_now E) (\<lambda>now.
       op_bind (tb_update_where E (incidents_table E) ?p (transition_row E to actor now)) (\<lambda>affected.
       op_bind (op_when_fail (affected \<noteq> 1) (Sentinel IncidentErrConflict)) (\<lambda>_.
       op_bind (create_log E entry) (\<lambda>_. tb_first E (incidents_table E) (\<lambda>x. Inc_ID x = i)))))
       (tick w) = (Inr r, w1)"
  then obtain now t d where up: "update_rows E (incidents_table E) ?p (transition_row E to actor now) t (w_db w) = Inr (1, d)"
    and log: "\<exists>a. same_entry a entry \<and> w_db w1 = d\<lparr>T_audit_logs := T_audit_logs d @ [a]\<rparr>"
    by (auto simp: tb_Inr elim!: op_bind_Inr dest!: create_log_Inr) blast
  let ?f = "transition_row E to actor now (env_col3 E (env_clock E t))"
  have d: "d = (w_db w)\<lparr>T_incidents := map (\<lambda>x. if ?p x then ?f x else x) (T_incidents (w_db w))\<rparr>"
    using incidents.update_rows_Inr(1) [OF up] by simp
  obtain a where a: "same_entry a entry" and w1: "w_db w1 = d\<lparr>T_audit_logs := T_audit_logs d @ [a]\<rparr>"
    using log by blast
  have "incident_move E (w_db w) (w_db w1)"
    by (rule incident_move_map [where p = ?p and f = ?f]) (simp_all add: w1 d step)
  moreover obtain x where x: "x \<in> set (T_incidents (w_db w))" "?p x"
    using incidents.update_rows_some_row [OF up] by auto
  moreover have "?f x \<in> set (T_incidents d)" using x by (auto simp: d)
  moreover have "Inc_ID (?f x) = Inc_ID x" "Inc_Status (?f x) = to" for x
    by (simp_all add: transition_row_def Let_def)
  ultimately show "incident_move E (w_db w) (w_db w1) \<and> only_incidents (w_db w) (w_db w1) \<and>
       (\<exists>a. T_audit_logs (w_db w1) = T_audit_logs (w_db w) @ [a] \<and> same_entry a entry) \<and>
       (\<exists>x\<in>set (T_incidents (w_db w)). Inc_ID x = i \<and> Inc_Status x \<in> set sources) \<and>
       (\<exists>y\<in>set (T_incidents (w_db w1)). Inc_ID y = i \<and> Inc_Status y = to)"
    using a by (auto simp: w1 only_incidents_def) (auto simp: d)
qed

end
