(* ===== verification/IncidentService.thy ===== *)
theory IncidentService
  imports IncidentRepository AssetService
begin

text \<open>
  \<open>internal/incident/service.go\<close>: the normalisation of Alertmanager alerts, the
  ingestion of a webhook, and the three user actions on an incident.
\<close>

section \<open>Alerts\<close>

record Alert =
  Alert_Status :: string
  Alert_Labels :: "string \<Rightarrow> string option"
  Alert_Annotations :: "string \<Rightarrow> string option"
  Alert_StartsAt :: time
  Alert_EndsAt :: time
  Alert_Fingerprint :: string

record Webhook =
  Webhook_Status :: string
  Webhook_Alerts :: "Alert list"

text \<open>Indexing a \<open>map[string]string\<close>: a missing key gives the empty string.\<close>

definition map_index :: "(string \<Rightarrow> string option) \<Rightarrow> string \<Rightarrow> string" where
  "map_index m k = (case m k of None \<Rightarrow> [] | Some v \<Rightarrow> v)"

definition newline :: string where "newline = [CHR 0x0A]"

definition canonical :: "golib \<Rightarrow> string \<Rightarrow> u64 \<Rightarrow> u64 \<Rightarrow> string \<Rightarrow> string" where
  "canonical L alertName serviceID taskID probeType =
     ''alertname='' @ lib_ToLower L alertName @ newline @ ''service_id='' @ FormatUint serviceID @ newline @
     ''task_id='' @ FormatUint taskID @ newline @ ''probe_type='' @ lib_ToLower L probeType"

definition event_key :: "golib \<Rightarrow> string \<Rightarrow> time \<Rightarrow> string" where
  "event_key L fingerprint startsAt =
     lib_sha256_hex L (fingerprint @ newline @ lib_format_time L startsAt)"

definition positive_id :: "string \<Rightarrow> u64 option" where
  "positive_id s = (case ParseUint s of None \<Rightarrow> None | Some i \<Rightarrow> if i = 0 then None else Some i)"

definition normalize :: "golib \<Rightarrow> Alert \<Rightarrow> time \<Rightarrow> go_error + Incident" where
  "normalize L alert now =
     (let alertName = TrimSpace (map_index (Alert_Labels alert) ''alertname'')
      in case positive_id (map_index (Alert_Labels alert) ''service_id'') of
           None \<Rightarrow> Inl (New ''invalid service_id'')
         | Some serviceID \<Rightarrow>
         (case positive_id (map_index (Alert_Labels alert) ''task_id'') of
            None \<Rightarrow> Inl (New ''invalid task_id'')
          | Some taskID \<Rightarrow>
              let probeType = TrimSpace (map_index (Alert_Labels alert) ''probe_type'')
              in if alertName = [] \<or> probeType = [] \<or> Alert_StartsAt alert = 0
                 then Inl (New ''missing stable alert fields'')
                 else
                   let fingerprint = lib_sha256_hex L (canonical L alertName serviceID taskID probeType);
                       external = TrimSpace (Alert_Fingerprint alert)
                   in Inr \<lparr>Inc_ID = 0, Inc_EventKey = event_key L fingerprint (Alert_StartsAt alert),
                        Inc_Fingerprint = fingerprint,
                        Inc_ExternalFingerprint = (if external \<noteq> [] then Some external else None),
                        Inc_AlertName = alertName, Inc_ServiceID = serviceID, Inc_TaskID = taskID,
                        Inc_ProbeType = probeType,
                        Inc_Severity = map_index (Alert_Labels alert) ''severity'',
                        Inc_Status = IncFiring,
                        Inc_Summary = map_index (Alert_Annotations alert) ''summary'',
                        Inc_Description = map_index (Alert_Annotations alert) ''description'',
                        Inc_FiredAt = Alert_StartsAt alert,
                        Inc_LastSeenAt = (if Alert_EndsAt alert \<noteq> 0 then Alert_EndsAt alert else now),
                        Inc_ResolvedAt = None, Inc_ClosedAt = None, Inc_AcknowledgedAt = None,
                        Inc_ProcessingAt = None, Inc_AcknowledgedBy = None, Inc_ProcessingBy = None,
                        Inc_ClosedBy = None, Inc_OccurrenceCount = 1, Inc_CreatedAt = 0,
                        Inc_UpdatedAt = 0\<rparr>))"

section \<open>The webhook\<close>

definition IncidentService_ingest_alert :: "env \<Rightarrow> golib \<Rightarrow> string \<Rightarrow> Alert \<Rightarrow> (world, unit) op" where
  "IncidentService_ingest_alert E L payloadStatus alert =
     (if map_index (Alert_Labels alert) ''cloudsentinel_incident'' \<noteq> ''true'' then op_return ()
      else let status = (if Alert_Status alert = [] then payloadStatus else Alert_Status alert)
        in op_bind (time_now E) (\<lambda>now.
           case normalize L alert now of
             Inl err \<Rightarrow> op_fail err
           | Inr v \<Rightarrow>
               if status = IncFiring then IncidentRepo_UpsertFiring E v
               else if status = IncResolved then
                 IncidentRepo_Resolve E (v\<lparr>Inc_Status := IncResolved,
                   Inc_ResolvedAt := Some (Inc_LastSeenAt v)\<rparr>)
               else op_fail (New ''unsupported alert status'')))"

fun ingest_alerts :: "env \<Rightarrow> golib \<Rightarrow> string \<Rightarrow> Alert list \<Rightarrow> (world, unit) op" where
  "ingest_alerts E L st [] = op_return ()"
| "ingest_alerts E L st (a # as) =
     op_bind (IncidentService_ingest_alert E L st a) (\<lambda>_. ingest_alerts E L st as)"

definition IncidentService_Ingest :: "env \<Rightarrow> golib \<Rightarrow> Webhook \<Rightarrow> (world, unit) op" where
  "IncidentService_Ingest E L payload = ingest_alerts E L (Webhook_Status payload) (Webhook_Alerts payload)"

section \<open>User actions\<close>

definition IncidentService_Get :: "env \<Rightarrow> u64 \<Rightarrow> (world, Incident) op" where
  "IncidentService_Get E i = IncidentRepo_Get E i"

definition IncidentService_List :: "env \<Rightarrow> int \<Rightarrow> int \<Rightarrow> (world, Incident Page) op" where
  "IncidentService_List E page sz =
     op_bind (IncidentRepo_List E page sz) (\<lambda>(items, n).
     op_return \<lparr>Page_Items = items, Page_Pagination =
       \<lparr>Pg_Page = page, Pg_PageSize = sz, Pg_Total = n,
        Pg_TotalPages = (if n > 0 then go_quot (wrap64 (wrap64 (n + sz) - 1)) sz else 0)\<rparr>\<rparr>)"

definition incident_audit :: "u64 \<Rightarrow> u64 \<Rightarrow> string \<Rightarrow> string \<Rightarrow> Log" where
  "incident_audit i actor username action = Log_zero\<lparr>Log_ActorUserID := Some actor,
     Log_Username := Some username, Log_Action := action, Log_Outcome := ''success'',
     Log_ResourceType := Some ''incident'', Log_ResourceID := Some (FormatUint i)\<rparr>"

definition IncidentService_transition ::
  "env \<Rightarrow> u64 \<Rightarrow> u64 \<Rightarrow> string \<Rightarrow> string \<Rightarrow> string list \<Rightarrow> string \<Rightarrow> (world, Incident) op" where
  "IncidentService_transition E i actor username to sources action =
     op_bind (IncidentRepo_Get E i) (\<lambda>_.
     IncidentRepo_Transition E i sources to actor (incident_audit i actor username action))"

definition IncidentService_Acknowledge :: "env \<Rightarrow> u64 \<Rightarrow> u64 \<Rightarrow> string \<Rightarrow> (world, Incident) op" where
  "IncidentService_Acknowledge E i actor username =
     IncidentService_transition E i actor username IncAcknowledged [IncFiring] ''incident.acknowledge''"

definition IncidentService_Process :: "env \<Rightarrow> u64 \<Rightarrow> u64 \<Rightarrow> string \<Rightarrow> (world, Incident) op" where
  "IncidentService_Process E i actor username =
     IncidentService_transition E i actor username IncProcessing [IncFiring, IncAcknowledged] ''incident.process''"

definition IncidentService_Close :: "env \<Rightarrow> u64 \<Rightarrow> u64 \<Rightarrow> string \<Rightarrow> (world, Incident) op" where
  "IncidentService_Close E i actor username =
     IncidentService_transition E i actor username IncClosed [IncResolved] ''incident.close''"

section \<open>Identity of an alert\<close>

lemma normalize_Inr:
  assumes "normalize L alert now = Inr v"
  shows "Inc_Status v = IncFiring" and "Inc_ClosedAt v = None" and "Inc_ClosedBy v = None"
    and "Inc_OccurrenceCount v = 1"
    and "Inc_EventKey v = event_key L (Inc_Fingerprint v) (Alert_StartsAt alert)"
    and "Inc_Fingerprint v = lib_sha256_hex L (canonical L (Inc_AlertName v) (Inc_ServiceID v) (Inc_TaskID v) (Inc_ProbeType v))"
    and "Inc_AlertName v = TrimSpace (map_index (Alert_Labels alert) ''alertname'')"
    and "Inc_ProbeType v = TrimSpace (map_index (Alert_Labels alert) ''probe_type'')"
    and "positive_id (map_index (Alert_Labels alert) ''service_id'') = Some (Inc_ServiceID v)"
    and "positive_id (map_index (Alert_Labels alert) ''task_id'') = Some (Inc_TaskID v)"
    and "Inc_FiredAt v = Alert_StartsAt alert"
  using assms by (auto simp: normalize_def Let_def split: option.splits if_splits)

text \<open>The fields from which the event key is computed.\<close>

definition stable_fields :: "golib \<Rightarrow> Alert \<Rightarrow> string \<times> u64 option \<times> u64 option \<times> string \<times> time" where
  "stable_fields L a = (lib_ToLower L (TrimSpace (map_index (Alert_Labels a) ''alertname'')),
     positive_id (map_index (Alert_Labels a) ''service_id''),
     positive_id (map_index (Alert_Labels a) ''task_id''),
     lib_ToLower L (TrimSpace (map_index (Alert_Labels a) ''probe_type'')), Alert_StartsAt a)"

lemma event_key_stable:
  assumes "stable_fields L a = stable_fields L b" and "normalize L a t = Inr v" and "normalize L b u = Inr v'"
  shows "Inc_EventKey v = Inc_EventKey v' \<and> Inc_Fingerprint v = Inc_Fingerprint v'"
  using assms(1) normalize_Inr [OF assms(2)] normalize_Inr [OF assms(3)]
  by (simp add: stable_fields_def canonical_def)

text \<open>Splitting at the first newline.\<close>

lemma append_newline_eq:
  "CHR 0x0A \<notin> set a \<Longrightarrow> CHR 0x0A \<notin> set b \<Longrightarrow> a @ newline @ r = b @ newline @ s \<Longrightarrow> a = b \<and> r = s"
proof (induction a arbitrary: b)
  case Nil
  then show ?case by (cases b) (auto simp: newline_def)
next
  case (Cons x a)
  then show ?case by (cases b) (auto simp: newline_def)
qed

lemma no_newline_FormatUint: "CHR 0x0A \<notin> set (FormatUint i)"
  using FormatUint_digits [of "CHR 0x0A" i] by (auto simp: is_digit_def)

lemma canonical_inject:
  assumes eq: "canonical L n i t p = canonical L n' i' t' p'"
    and n: "CHR 0x0A \<notin> set (lib_ToLower L n)" "CHR 0x0A \<notin> set (lib_ToLower L n')"
  shows "lib_ToLower L n = lib_ToLower L n' \<and> i = i' \<and> t = t' \<and> lib_ToLower L p = lib_ToLower L p'"
proof -
  have 1: "lib_ToLower L n = lib_ToLower L n' \<and>
      ''service_id='' @ FormatUint i @ newline @ ''task_id='' @ FormatUint t @ newline @ ''probe_type='' @ lib_ToLower L p =
      ''service_id='' @ FormatUint i' @ newline @ ''task_id='' @ FormatUint t' @ newline @ ''probe_type='' @ lib_ToLower L p'"
    by (rule append_newline_eq) (use eq n in \<open>simp_all add: canonical_def\<close>)
  then have 2: "FormatUint i = FormatUint i' \<and>
      ''task_id='' @ FormatUint t @ newline @ ''probe_type='' @ lib_ToLower L p =
      ''task_id='' @ FormatUint t' @ newline @ ''probe_type='' @ lib_ToLower L p'"
    by (intro append_newline_eq no_newline_FormatUint) simp
  then have "FormatUint t = FormatUint t' \<and> ''probe_type='' @ lib_ToLower L p = ''probe_type='' @ lib_ToLower L p'"
    by (intro append_newline_eq no_newline_FormatUint) simp
  with 1 2 show ?thesis by simp
qed

text \<open>The two strings that are hashed for an incident.\<close>

definition hashed :: "golib \<Rightarrow> Incident \<Rightarrow> string set" where
  "hashed L v = {canonical L (Inc_AlertName v) (Inc_ServiceID v) (Inc_TaskID v) (Inc_ProbeType v),
     Inc_Fingerprint v @ newline @ lib_format_time L (Inc_FiredAt v)}"

text \<open>When their digests do not collide, alerts are told apart by their stable fields, and by
  nothing else, as long as the alert names hold no newline.\<close>

lemma event_key_iff:
  assumes sha: "inj_on (lib_sha256_hex L) (hashed L v \<union> hashed L v')" "\<And>x. CHR 0x0A \<notin> set (lib_sha256_hex L x)"
    and time: "inj_on (lib_format_time L) {Alert_StartsAt a, Alert_StartsAt b}"
    and a: "normalize L a t = Inr v" and b: "normalize L b u = Inr v'"
    and names: "CHR 0x0A \<notin> set (lib_ToLower L (Inc_AlertName v))" "CHR 0x0A \<notin> set (lib_ToLower L (Inc_AlertName v'))"
  shows "Inc_EventKey v = Inc_EventKey v' \<longleftrightarrow> stable_fields L a = stable_fields L b"
proof
  note va = normalize_Inr [OF a] and vb = normalize_Inr [OF b]
  assume "Inc_EventKey v = Inc_EventKey v'"
  then have "lib_sha256_hex L (Inc_Fingerprint v @ newline @ lib_format_time L (Alert_StartsAt a)) =
      lib_sha256_hex L (Inc_Fingerprint v' @ newline @ lib_format_time L (Alert_StartsAt b))"
    using va(5) vb(5) by (simp add: event_key_def)
  then have "Inc_Fingerprint v @ newline @ lib_format_time L (Alert_StartsAt a) =
      Inc_Fingerprint v' @ newline @ lib_format_time L (Alert_StartsAt b)"
    by (rule inj_onD [OF sha(1)]) (simp_all add: hashed_def va(11) vb(11))
  then have f: "Inc_Fingerprint v = Inc_Fingerprint v' \<and> lib_format_time L (Alert_StartsAt a) = lib_format_time L (Alert_StartsAt b)"
    by (rule append_newline_eq [rotated 2]) (use va(6) vb(6) sha(2) in simp_all)
  then have starts: "Alert_StartsAt a = Alert_StartsAt b" using inj_onD [OF time] by blast
  have "lib_sha256_hex L (canonical L (Inc_AlertName v) (Inc_ServiceID v) (Inc_TaskID v) (Inc_ProbeType v)) =
      lib_sha256_hex L (canonical L (Inc_AlertName v') (Inc_ServiceID v') (Inc_TaskID v') (Inc_ProbeType v'))"
    using f va(6) vb(6) by simp
  then have "canonical L (Inc_AlertName v) (Inc_ServiceID v) (Inc_TaskID v) (Inc_ProbeType v) =
      canonical L (Inc_AlertName v') (Inc_ServiceID v') (Inc_TaskID v') (Inc_ProbeType v')"
    by (rule inj_onD [OF sha(1)]) (simp_all add: hashed_def)
  from canonical_inject [OF this names] show "stable_fields L a = stable_fields L b"
    using starts va(7-10) vb(7-10) by (simp add: stable_fields_def)
next
  assume "stable_fields L a = stable_fields L b"
  then show "Inc_EventKey v = Inc_EventKey v'" using event_key_stable a b by blast
qed

section \<open>Sequences of webhooks and actions\<close>

datatype incident_request =
    IncReqWebhook Webhook
  | IncReqAcknowledge u64 u64 string
  | IncReqProcess u64 u64 string
  | IncReqClose u64 u64 string

fun run_incident :: "env \<Rightarrow> golib \<Rightarrow> incident_request \<Rightarrow> world \<Rightarrow> world" where
  "run_incident E L (IncReqWebhook payload) w = snd (IncidentService_Ingest E L payload w)"
| "run_incident E L (IncReqAcknowledge i actor username) w =
     snd (IncidentService_Acknowledge E i actor username w)"
| "run_incident E L (IncReqProcess i actor username) w =
     snd (IncidentService_Process E i actor username w)"
| "run_incident E L (IncReqClose i actor username) w =
     snd (IncidentService_Close E i actor username w)"

definition run_incidents :: "env \<Rightarrow> golib \<Rightarrow> incident_request list \<Rightarrow> world \<Rightarrow> world" where
  "run_incidents E L reqs w = fold (run_incident E L) reqs w"

text \<open>
  What holds of the table of incidents at all times, and how it may differ from an earlier
  state: incidents stay, in their order, with their identity, and their status only advances.
\<close>

definition incidents_inv :: "env \<Rightarrow> db \<Rightarrow> bool" where
  "incidents_inv E d \<longleftrightarrow>
     (\<forall>x\<in>set (T_incidents d). incident_ok x) \<and> unique_by (incident_uk (env_coll E)) (T_incidents d) \<and>
     distinct (map Inc_ID (T_incidents d))"

lemma incidents_inv_empty: "incidents_inv E empty_db"
  by (simp add: incidents_inv_def empty_db_def unique_by_def)

definition incidents_advanced :: "db \<Rightarrow> db \<Rightarrow> bool" where
  "incidents_advanced d d' \<longleftrightarrow>
     (\<exists>rs news. T_incidents d' = rs @ news \<and>
        list_all2 (\<lambda>x y. incident_identity y = incident_identity x \<and> incident_rank x \<le> incident_rank y)
          (T_incidents d) rs)"

definition incident_good :: "env \<Rightarrow> db \<Rightarrow> db \<Rightarrow> bool" where
  "incident_good E d d' \<longleftrightarrow>
     (incidents_inv E d \<longrightarrow> incidents_inv E d' \<and> incidents_advanced d d') \<and> only_incidents d d' \<and>
     prefix (T_audit_logs d) (T_audit_logs d')"

lemma incidents_advanced_refl: "incidents_advanced d d"
  unfolding incidents_advanced_def
  by (intro exI [of _ "T_incidents d"] exI [of _ "[]"]) (simp add: list_all2_same)

lemma incidents_advanced_trans:
  assumes "incidents_advanced d d'" and "incidents_advanced d' d''"
  shows "incidents_advanced d d''"
proof -
  let ?R = "\<lambda>x y. incident_identity y = incident_identity x \<and> incident_rank x \<le> incident_rank y"
  obtain rs news where 1: "T_incidents d' = rs @ news" "list_all2 ?R (T_incidents d) rs"
    using assms(1) unfolding incidents_advanced_def by blast
  obtain ss more where 2: "T_incidents d'' = ss @ more" "list_all2 ?R (T_incidents d') ss"
    using assms(2) unfolding incidents_advanced_def by blast
  obtain s1 s2 where ss: "ss = s1 @ s2" "list_all2 ?R rs s1"
    using 2(2) unfolding 1(1) list_all2_append1 by blast
  have "list_all2 ?R (T_incidents d) s1"
    by (rule list_all2_trans [OF _ 1(2) ss(2)]) auto
  then show ?thesis
    unfolding incidents_advanced_def using 2(1) ss(1) by (intro exI [of _ s1] exI [of _ "s2 @ more"]) simp
qed

lemma incident_good_refl [simp]: "incident_good E d d"
  by (simp add: incident_good_def incidents_advanced_refl)

lemma incident_good_trans: "incident_good E d d' \<Longrightarrow> incident_good E d' d'' \<Longrightarrow> incident_good E d d''"
  unfolding incident_good_def using incidents_advanced_trans by (auto simp: only_incidents_def intro: prefix_order.trans)

lemma incident_move_good:
  assumes move: "incident_move E d d'" and only: "only_incidents d d'"
    and logs: "prefix (T_audit_logs d) (T_audit_logs d')"
  shows "incident_good E d d'"
proof -
  have "incidents_inv E d' \<and> incidents_advanced d d'" if inv: "incidents_inv E d"
  proof -
    obtain rs news where rs: "T_incidents d' = rs @ news"
      and st: "list_all2 (\<lambda>x y. y = x \<or> incident_step E x y) (T_incidents d) rs"
      and new: "\<forall>x\<in>set news. incident_ok x" using move unfolding incident_move_def by blast
    have ok: "\<forall>x\<in>set (T_incidents d). incident_ok x" using inv by (simp add: incidents_inv_def)
    have "incident_ok y" if "y \<in> set rs" for y
      using list_all2_mem2 [OF st that] ok incident_step_ok by blast
    then have "incidents_inv E d'"
      using inv move new rs by (auto simp: incidents_inv_def incident_move_def)
    moreover have "list_all2 (\<lambda>x y. incident_identity y = incident_identity x \<and> incident_rank x \<le> incident_rank y)
        (T_incidents d) rs"
      by (rule list.rel_mono_strong [OF st])
         (use ok incident_step_identity incident_step_rank in fastforce)
    ultimately show ?thesis using rs unfolding incidents_advanced_def by blast
  qed
  then show ?thesis using only logs by (simp add: incident_good_def)
qed

lemma incident_good_all_or_nothing:
  assumes "all_or_nothing w_db m w P" and "\<And>x d. P x d \<Longrightarrow> incident_move E (w_db w) d \<and> only_incidents (w_db w) d \<and>
       prefix (T_audit_logs (w_db w)) (T_audit_logs d)"
  shows "incident_good E (w_db w) (w_db (snd (m w)))"
  by (rule all_or_nothing_invariant [where I = "incident_good E (w_db w)", OF assms(1)])
     (use assms(2) incident_move_good in auto)

lemma ingest_alert_good: "incident_good E (w_db w) (w_db (snd (IncidentService_ingest_alert E L st a w)))"
proof (cases "map_index (Alert_Labels a) ''cloudsentinel_incident'' = ''true''")
  case False
  then show ?thesis by (simp add: IncidentService_ingest_alert_def)
next
  case True
  let ?w = "tick w"
  show ?thesis
  proof (cases "normalize L a (env_clock E (w_tick w))")
    case (Inl e)
    then show ?thesis using True by (simp add: IncidentService_ingest_alert_def op_bind_def Let_def)
  next
    case (Inr v)
    let ?r = "v\<lparr>Inc_Status := IncResolved, Inc_ResolvedAt := Some (Inc_LastSeenAt v)\<rparr>"
    have up: "incident_good E (w_db w) (w_db (snd (IncidentRepo_UpsertFiring E v ?w)))"
      using UpsertFiring_move [of E v ?w] incident_move_good by (auto simp: Let_def)
    have "all_or_nothing w_db (IncidentRepo_Resolve E ?r) ?w (\<lambda>_ d. incident_move E (w_db ?w) d \<and>
        only_incidents (w_db ?w) d \<and> T_audit_logs d = T_audit_logs (w_db ?w))"
      by (rule Resolve_effect) (simp_all add: normalize_Inr [OF Inr])
    then have re: "incident_good E (w_db w) (w_db (snd (IncidentRepo_Resolve E ?r ?w)))"
      using incident_good_all_or_nothing [of "IncidentRepo_Resolve E ?r" ?w] by auto
    show ?thesis
      using True Inr up re by (simp add: IncidentService_ingest_alert_def op_bind_def Let_def)
  qed
qed

lemma ingest_good: "incident_good E (w_db w) (w_db (snd (ingest_alerts E L st as w)))"
proof (induction as arbitrary: w)
  case Nil
  show ?case by simp
next
  case (Cons a as)
  obtain r w1 where one: "IncidentService_ingest_alert E L st a w = (r, w1)" by (metis surj_pair)
  have g: "incident_good E (w_db w) (w_db w1)" using ingest_alert_good [of E w L st a] one by simp
  show ?case
    using g one incident_good_trans [OF g Cons.IH [of w1]] by (cases r) (simp_all add: op_bind_def)
qed

lemma IncidentRepo_Get_reads [simp]: "w_db (snd (IncidentRepo_Get E i w)) = w_db w"
  by (simp add: IncidentRepo_Get_def)

lemma transition_good:
  assumes "\<And>x now u. Inc_Status x \<in> set sources \<Longrightarrow> incident_step E x (transition_row E to actor now u x)"
  shows "incident_good E (w_db w) (w_db (snd (IncidentService_transition E i actor username to sources action w)))"
proof -
  let ?T = "IncidentRepo_Transition E i sources to actor (incident_audit i actor username action)"
  have "incident_good E (w_db w') (w_db (snd (?T w')))" for w'
    by (rule incident_good_all_or_nothing [OF Transition_effect [OF assms]]) auto
  moreover obtain r w1 where g: "IncidentRepo_Get E i w = (r, w1)" by (metis surj_pair)
  moreover have "w_db w1 = w_db w" using IncidentRepo_Get_reads [of E i w] g by simp
  ultimately show ?thesis
    by (cases r) (auto simp: IncidentService_transition_def op_bind_def, metis)
qed

lemma run_incident_good: "incident_good E (w_db w) (w_db (run_incident E L req w))"
proof (cases req)
  case (IncReqWebhook payload)
  then show ?thesis by (simp add: IncidentService_Ingest_def ingest_good)
next
  case (IncReqAcknowledge i actor username)
  then show ?thesis
    by (auto simp: IncidentService_Acknowledge_def intro!: transition_good incident_step.acknowledge)
next
  case (IncReqProcess i actor username)
  then show ?thesis
    by (auto simp: IncidentService_Process_def intro!: transition_good incident_step.process)
next
  case (IncReqClose i actor username)
  then show ?thesis
    by (auto simp: IncidentService_Close_def intro!: transition_good incident_step.close)
qed

lemma run_incidents_good: "incident_good E (w_db w) (w_db (run_incidents E L reqs w))"
  unfolding run_incidents_def
proof (induction reqs arbitrary: w)
  case Nil
  show ?case by simp
next
  case (Cons r reqs)
  show ?case
    using incident_good_trans [OF run_incident_good Cons [of "run_incident E L r w"]] by simp
qed

end
