(* ===== verification/Http.thy ===== *)
theory Http
  imports Auth FleetRequests IncidentService
begin

text \<open>
  Requests, replies and handlers of the API: the response envelope
  (\<open>internal/httpserver/response\<close>), the middlewares (\<open>internal/middleware\<close>, the two
  authentication middlewares), the decoding of JSON bodies into the request structs, and the
  parsing of the path and query parameters that all handlers share. A handler is a function of
  the request context and the world; the chain of gin is modelled by passing the rest of
  the chain to each middleware, so that a middleware that replies without calling it aborts.
\<close>

section \<open>Context and replies\<close>

text \<open>
  What gin gives to a handler: the headers (empty when absent), the query parameters, the path
  parameter \<open>id\<close>, the client address and the body; and the two context values that
  middlewares set.
\<close>

record gin_context =
  cx_Header :: "string \<Rightarrow> string"
  cx_Query :: "string \<Rightarrow> string option"
  cx_Param_id :: string
  cx_ClientIP :: string
  cx_Body :: string
  cx_RequestID :: "string option"
  cx_Principal :: "Principal option"

datatype payload =
    DataNil
  | DataHost Host | DataHosts "Host Page"
  | DataService MonitoredService | DataServices "MonitoredService Page"
  | DataTask Task | DataTasks "Task Page"
  | DataResult Execution | DataResults "Execution Page"
  | DataIncident Incident | DataIncidents "Incident Page"
  | DataLogin LoginResult | DataUser PublicUser
  | DataStatus u64 string | DataProcessed nat
  | DataAlive string | DataReady string "(string \<times> string) list"

record Envelope =
  Env_Code :: int
  Env_Message :: string
  Env_Data :: payload

record reply =
  rp_Status :: int
  rp_Body :: Envelope
  rp_RequestID :: "string option"

datatype outcome = Replied reply | Panicked

text \<open>
  A handler acts on the world; the two middlewares that also wrap the observers of requests are
  stated for any state.
\<close>

type_synonym 'w handling = "gin_context \<Rightarrow> 'w \<Rightarrow> outcome \<times> 'w"
type_synonym handler = "world handling"

definition Success :: "int \<Rightarrow> payload \<Rightarrow> outcome" where
  "Success status data = Replied \<lparr>rp_Status = status,
     rp_Body = \<lparr>Env_Code = 0, Env_Message = ''success'', Env_Data = data\<rparr>, rp_RequestID = None\<rparr>"

definition InternalError :: outcome where
  "InternalError = Replied \<lparr>rp_Status = 500,
     rp_Body = \<lparr>Env_Code = 50000, Env_Message = ''internal server error'', Env_Data = DataNil\<rparr>,
     rp_RequestID = None\<rparr>"

definition Error :: "int \<Rightarrow> int \<Rightarrow> string \<Rightarrow> outcome" where
  "Error status code message = Replied \<lparr>rp_Status = status,
     rp_Body = \<lparr>Env_Code = code, Env_Message = message, Env_Data = DataNil\<rparr>, rp_RequestID = None\<rparr>"

section \<open>Middlewares\<close>

abbreviation "RequestIDHeader \<equiv> ''X-Request-ID''"

definition GetRequestID :: "gin_context \<Rightarrow> string" where
  "GetRequestID c = (case cx_RequestID c of None \<Rightarrow> [] | Some i \<Rightarrow> i)"

definition newRequestID :: "env \<Rightarrow> (world, string) op" where
  "newRequestID E = op_bind (rand_read E 16) (\<lambda>buffer. op_return (hex_encode buffer))"

text \<open>The header of the reply is set before the rest of the chain runs.\<close>

definition with_request_id :: "string \<Rightarrow> outcome \<Rightarrow> outcome" where
  "with_request_id i r = (case r of Panicked \<Rightarrow> Panicked | Replied p \<Rightarrow> Replied (p\<lparr>rp_RequestID := Some i\<rparr>))"

definition RequestID :: "('w, string) op \<Rightarrow> 'w handling \<Rightarrow> 'w handling" where
  "RequestID generate next c w =
     (let given = TrimSpace (cx_Header c RequestIDHeader);
          proceed = (\<lambda>i w. let (r, w') = next (c\<lparr>cx_RequestID := Some i\<rparr>) w in (with_request_id i r, w'))
      in if given \<noteq> [] then proceed given w
         else case generate w of
                (Inl err, w') \<Rightarrow> (InternalError, w')
              | (Inr i, w') \<Rightarrow> proceed i w')"

text \<open>A panic below this middleware becomes the internal error.\<close>

definition Recovery :: "'w handling \<Rightarrow> 'w handling" where
  "Recovery next c w =
     (case next c w of (Panicked, w') \<Rightarrow> (InternalError, w') | (Replied p, w') \<Rightarrow> (Replied p, w'))"

definition PrincipalFromContext :: "gin_context \<Rightarrow> Principal option" where
  "PrincipalFromContext c = cx_Principal c"

definition unauthorized :: outcome where
  "unauthorized = Error 401 40100 ''unauthorized''"

definition AuthMiddleware :: "env \<Rightarrow> authlib \<Rightarrow> TokenManager \<Rightarrow> handler \<Rightarrow> handler" where
  "AuthMiddleware E A m next c w =
     (case split2 (CHR '' '') (cx_Header c ''Authorization'') of
        [scheme, token] \<Rightarrow>
          if \<not> equal_fold_ascii scheme ''Bearer'' \<or> TrimSpace token = [] then (unauthorized, w)
          else (case TokenManager_Parse E A m (TrimSpace token) w of
                  (Inl err, w') \<Rightarrow> (unauthorized, w')
                | (Inr p, w') \<Rightarrow> next (c\<lparr>cx_Principal := Some p\<rparr>) w')
      | _ \<Rightarrow> (unauthorized, w))"

definition MachineAuth :: "string \<Rightarrow> handler \<Rightarrow> handler" where
  "MachineAuth token next c w =
     (case split2 (CHR '' '') (cx_Header c ''Authorization'') of
        [scheme, given] \<Rightarrow>
          if scheme \<noteq> ''Bearer'' \<or> given \<noteq> token then (Error 401 40110 ''unauthorized'', w)
          else next c w
      | _ \<Rightarrow> (Error 401 40110 ''unauthorized'', w))"

section \<open>JSON bodies\<close>

text \<open>
  The syntax of JSON is a parameter: \<open>hl_json\<close> reads the first value of a body, as
  \<open>json.Decoder\<close> does; \<open>hl_fold\<close> is the case folding of field names and
  \<open>hl_json_time\<close> the parser of timestamps. How a value fills a struct is modelled: a key
  matches a field exactly or up to folding, \<open>null\<close> changes nothing, a value of another type
  is an error, unknown keys are skipped, and a repeated key fills the field again.
\<close>

datatype json =
    JNull | JBool bool | JNumber string | JString string
  | JArray "json list" | JObject "(string \<times> json) list"

record httplib =
  hl_json :: "string \<Rightarrow> json option"
  hl_fold :: "string \<Rightarrow> string"
  hl_json_time :: "string \<Rightarrow> time option"

definition field_of :: "httplib \<Rightarrow> string list \<Rightarrow> string \<Rightarrow> string option" where
  "field_of H names key =
     (if key \<in> set names then Some key else find (\<lambda>n. hl_fold H n = hl_fold H key) names)"

definition field_values :: "httplib \<Rightarrow> string list \<Rightarrow> string \<Rightarrow> (string \<times> json) list \<Rightarrow> json list" where
  "field_values H names name kvs = map snd (filter (\<lambda>(k, v). field_of H names k = Some name) kvs)"

text \<open>Filling a string, an unsigned and a signed 64-bit integer; \<open>None\<close> is a type error.\<close>

fun fill_string :: "string \<Rightarrow> json list \<Rightarrow> string option" where
  "fill_string acc [] = Some acc"
| "fill_string acc (JNull # vs) = fill_string acc vs"
| "fill_string acc (JString s # vs) = fill_string s vs"
| "fill_string acc (v # vs) = None"

fun fill_uint64 :: "u64 \<Rightarrow> json list \<Rightarrow> u64 option" where
  "fill_uint64 acc [] = Some acc"
| "fill_uint64 acc (JNull # vs) = fill_uint64 acc vs"
| "fill_uint64 acc (JNumber s # vs) = (case ParseUint s of None \<Rightarrow> None | Some i \<Rightarrow> fill_uint64 i vs)"
| "fill_uint64 acc (v # vs) = None"

fun fill_int :: "int \<Rightarrow> json list \<Rightarrow> int option" where
  "fill_int acc [] = Some acc"
| "fill_int acc (JNull # vs) = fill_int acc vs"
| "fill_int acc (JNumber s # vs) = (case Atoi s of None \<Rightarrow> None | Some i \<Rightarrow> fill_int i vs)"
| "fill_int acc (v # vs) = None"

text \<open>The members of the object at the top of a body; \<open>null\<close> has none.\<close>

definition body_members :: "httplib \<Rightarrow> string \<Rightarrow> (string \<times> json) list option" where
  "body_members H body =
     (case hl_json H body of Some (JObject kvs) \<Rightarrow> Some kvs | Some JNull \<Rightarrow> Some [] | _ \<Rightarrow> None)"

text \<open>
  The validator counts the characters of a string. A decoded string is valid UTF-8, where every
  character has one byte that is not a continuation byte.
\<close>

definition rune_count :: "string \<Rightarrow> nat" where
  "rune_count s = length (filter (\<lambda>c. \<not> (128 \<le> (of_char c :: nat) \<and> of_char c < (192 :: nat))) s)"

definition required :: "string \<Rightarrow> nat \<Rightarrow> bool" where
  "required s n \<longleftrightarrow> s \<noteq> [] \<and> rune_count s \<le> n"

section \<open>Parameters\<close>

definition bad_request :: outcome where
  "bad_request = Error 400 40000 ''invalid request''"

definition pathID :: "gin_context \<Rightarrow> u64 option" where
  "pathID c = (case ParseUint (cx_Param_id c) of None \<Rightarrow> None | Some i \<Rightarrow> if i = 0 then None else Some i)"

definition DefaultQuery :: "gin_context \<Rightarrow> string \<Rightarrow> string \<Rightarrow> string" where
  "DefaultQuery c key dflt = (case cx_Query c key of None \<Rightarrow> dflt | Some v \<Rightarrow> v)"

definition pageParams :: "gin_context \<Rightarrow> (int \<times> int) option" where
  "pageParams c =
     (case Atoi (DefaultQuery c ''page'' ''1'') of
        None \<Rightarrow> None
      | Some page \<Rightarrow>
          if page < 1 then None
          else (case Atoi (DefaultQuery c ''page_size'' ''20'') of
                  None \<Rightarrow> None
                | Some sz \<Rightarrow> if sz < 1 \<or> sz > 100 then None else Some (page, sz)))"

definition identity :: "gin_context \<Rightarrow> u64 \<times> Metadata" where
  "identity c =
     (case PrincipalFromContext c of None \<Rightarrow> 0 | Some p \<Rightarrow> Pr_UserID p,
      \<lparr>Meta_RequestID = GetRequestID c, Meta_ClientIP = cx_ClientIP c,
       Meta_UserAgent = cx_Header c ''User-Agent''\<rparr>)"

section \<open>Handlers\<close>

text \<open>
  The three shapes of a handler: with a path identifier, with page parameters, and the end of
  every handler, which replies with the result of the service or with the reply to its error.
\<close>

definition with_id :: "(u64 \<Rightarrow> handler) \<Rightarrow> handler" where
  "with_id h c w = (case pathID c of None \<Rightarrow> (bad_request, w) | Some i \<Rightarrow> h i c w)"

definition with_pages :: "(int \<Rightarrow> int \<Rightarrow> handler) \<Rightarrow> handler" where
  "with_pages h c w = (case pageParams c of None \<Rightarrow> (bad_request, w) | Some (page, sz) \<Rightarrow> h page sz c w)"

definition with_body :: "(string \<Rightarrow> 'i option) \<Rightarrow> ('i \<Rightarrow> handler) \<Rightarrow> handler" where
  "with_body bind h c w = (case bind (cx_Body c) of None \<Rightarrow> (bad_request, w) | Some input \<Rightarrow> h input c w)"

definition answer :: "(go_error \<Rightarrow> outcome) \<Rightarrow> int \<Rightarrow> ('a \<Rightarrow> payload) \<Rightarrow> (world, 'a) op \<Rightarrow> world \<Rightarrow> outcome \<times> world" where
  "answer handle status mk m w =
     (case m w of (Inl err, w') \<Rightarrow> (handle err, w') | (Inr x, w') \<Rightarrow> (Success status (mk x), w'))"

lemma pageParams_bounds:
  "pageParams c = Some (page, sz) \<Longrightarrow> 1 \<le> page \<and> page \<le> max_int64 \<and> 1 \<le> sz \<and> sz \<le> 100"
  using Atoi_range by (auto simp: pageParams_def split: option.splits if_splits)

lemma pathID_nonzero: "pathID c = Some i \<Longrightarrow> i \<noteq> 0"
  by (auto simp: pathID_def split: option.splits if_splits)

section \<open>What every reply looks like\<close>

text \<open>The code of the envelope agrees with the HTTP status: zero for success, and otherwise
  the status followed by two digits.\<close>

definition reply_ok :: "outcome \<Rightarrow> bool" where
  "reply_ok r \<longleftrightarrow> (case r of Panicked \<Rightarrow> False
     | Replied p \<Rightarrow>
         (Env_Code (rp_Body p) = 0 \<and> rp_Status p \<in> {200, 201, 503} \<and> Env_Message (rp_Body p) = ''success'') \<or>
         (Env_Code (rp_Body p) div 100 = rp_Status p \<and> 400 \<le> rp_Status p \<and> Env_Data (rp_Body p) = DataNil))"

definition handler_ok :: "handler \<Rightarrow> bool" where
  "handler_ok h \<longleftrightarrow> (\<forall>c w. reply_ok (fst (h c w)))"

lemma reply_ok_simps [simp]:
  "status \<in> {200, 201, 503} \<Longrightarrow> reply_ok (Success status data)" "reply_ok InternalError" "reply_ok unauthorized"
  "reply_ok bad_request" "reply_ok (Error status code msg) \<longleftrightarrow> (code = 0 \<and> status \<in> {200, 201, 503} \<and> msg = ''success'') \<or>
     (code div 100 = status \<and> 400 \<le> status)"
  "reply_ok (with_request_id i r) = reply_ok r"
  by (auto simp: reply_ok_def Success_def InternalError_def unauthorized_def bad_request_def Error_def
      with_request_id_def split: outcome.splits)

lemma handler_ok_shapes:
  "(\<And>i. handler_ok (h1 i)) \<Longrightarrow> handler_ok (with_id h1)"
  "(\<And>p s. handler_ok (h2 p s)) \<Longrightarrow> handler_ok (with_pages h2)"
  "(\<And>x. handler_ok (h3 x)) \<Longrightarrow> handler_ok (with_body bind h3)"
  by (auto simp: handler_ok_def with_id_def with_pages_def with_body_def split: option.splits)

lemma answer_ok:
  "(\<And>e. reply_ok (handle e)) \<Longrightarrow> status \<in> {200, 201} \<Longrightarrow> reply_ok (fst (answer handle status mk m w))"
  by (auto simp: answer_def split: prod.splits sum.splits)

lemma answer_world: "snd (answer handle status mk m w) = snd (m w)"
  by (auto simp: answer_def split: prod.splits sum.splits)

lemma middlewares_ok:
  "handler_ok h \<Longrightarrow> handler_ok (RequestID g h)" "handler_ok h \<Longrightarrow> handler_ok (Recovery h)"
  "handler_ok h \<Longrightarrow> handler_ok (AuthMiddleware E A m h)" "handler_ok h \<Longrightarrow> handler_ok (MachineAuth token h)"
  by (auto simp: handler_ok_def RequestID_def Recovery_def AuthMiddleware_def MachineAuth_def Let_def
      split: prod.splits sum.splits outcome.splits list.splits) (metis fst_conv)+

section \<open>What a chain does to the database\<close>

text \<open>A relation between databases that every handler of a chain satisfies.\<close>

definition handler_rel :: "(db \<Rightarrow> db \<Rightarrow> bool) \<Rightarrow> handler \<Rightarrow> bool" where
  "handler_rel R h \<longleftrightarrow> (\<forall>c w. R (w_db w) (w_db (snd (h c w))))"

lemma handler_rel_shapes:
  assumes "\<And>d. R d d"
  shows "(\<And>i. handler_rel R (h1 i)) \<Longrightarrow> handler_rel R (with_id h1)"
    and "(\<And>p s. handler_rel R (h2 p s)) \<Longrightarrow> handler_rel R (with_pages h2)"
    and "(\<And>x. handler_rel R (h3 x)) \<Longrightarrow> handler_rel R (with_body bind h3)"
  using assms by (auto simp: handler_rel_def with_id_def with_pages_def with_body_def split: option.splits)

lemma newRequestID_reads: "newRequestID E w = (r, w') \<Longrightarrow> w_db w' = w_db w"
  by (auto simp: newRequestID_def rand_read_def op_bind_def split: sum.splits)

lemma middlewares_rel:
  assumes "handler_rel R h" and refl: "\<And>d. R d d"
  shows "handler_rel R (RequestID (newRequestID E) h)" and "handler_rel R (Recovery h)"
    and "handler_rel R (AuthMiddleware E A m h)" and "handler_rel R (MachineAuth token h)"
proof -
  have h: "h c w = (r, w') \<Longrightarrow> R (w_db w) (w_db w')" for c w r w'
    using assms(1) by (metis handler_rel_def snd_conv)
  show "handler_rel R (RequestID (newRequestID E) h)"
    using refl h by (auto simp: handler_rel_def RequestID_def Let_def dest!: newRequestID_reads
        split: prod.splits sum.splits) (metis h)+
  show "handler_rel R (Recovery h)"
    using h by (auto simp: handler_rel_def Recovery_def split: prod.splits outcome.splits)
  have p: "TokenManager_Parse E A m raw w = (r, w') \<Longrightarrow> w_db w' = w_db w" for raw w r w'
    by (auto simp: TokenManager_Parse_def op_bind_def split: sum.splits prod.splits option.splits if_splits)
  show "handler_rel R (AuthMiddleware E A m h)"
    using assms by (auto simp: handler_rel_def AuthMiddleware_def dest!: p
        split: prod.splits sum.splits list.splits) (metis p)+
  show "handler_rel R (MachineAuth token h)"
    using assms by (auto simp: handler_rel_def MachineAuth_def split: list.splits)
qed

text \<open>
  Relations that allow every request of the fleet, and every request on incidents: a handler
  that answers with the result of such a request satisfies them.
\<close>

definition fleet_closed :: "env \<Rightarrow> golib \<Rightarrow> (db \<Rightarrow> db \<Rightarrow> bool) \<Rightarrow> bool" where
  "fleet_closed E L R \<longleftrightarrow> (\<forall>d. R d d) \<and> (\<forall>req w. R (w_db w) (w_db (run_fleet E L req w)))"

definition incident_closed :: "env \<Rightarrow> golib \<Rightarrow> (db \<Rightarrow> db \<Rightarrow> bool) \<Rightarrow> bool" where
  "incident_closed E L R \<longleftrightarrow> (\<forall>d. R d d) \<and> (\<forall>req w. R (w_db w) (w_db (run_incident E L req w)))"

lemma handler_rel_answer:
  "(\<And>c w. R (w_db w) (w_db (snd (m c w)))) \<Longrightarrow> handler_rel R (\<lambda>c. answer (hd' c) (st c) (mk c) (m c))"
  by (simp add: handler_rel_def answer_world)

lemma handler_rel_identity:
  "(\<And>user md. handler_rel R (\<lambda>c. answer hd' st (mk user md) (m user md))) \<Longrightarrow>
     handler_rel R (\<lambda>c. let (user, md) = identity c in answer hd' st (mk user md) (m user md))"
  by (simp add: handler_rel_def Let_def split: prod.split)

end
