(* ===== verification/AssetHandler.thy ===== *)
theory AssetHandler
  imports Http
begin

text \<open>\<open>internal/asset/handler.go\<close>: the HTTP handlers of hosts and services.\<close>

section \<open>Bodies\<close>

abbreviation "host_fields \<equiv> [''name'', ''address'', ''description'']"
abbreviation "service_fields \<equiv> [''host_id'', ''name'', ''type'', ''target'', ''description'']"

definition hostRequest :: "httplib \<Rightarrow> string \<Rightarrow> HostInput option" where
  "hostRequest H body =
     (case body_members H body of
        None \<Rightarrow> None
      | Some kvs \<Rightarrow>
     (case fill_string [] (field_values H host_fields ''name'' kvs) of
        None \<Rightarrow> None
      | Some name \<Rightarrow>
     (case fill_string [] (field_values H host_fields ''address'' kvs) of
        None \<Rightarrow> None
      | Some address \<Rightarrow>
     (case fill_string [] (field_values H host_fields ''description'' kvs) of
        None \<Rightarrow> None
      | Some description \<Rightarrow>
          if required name 100 \<and> required address 255
          then Some \<lparr>HostIn_Name = name, HostIn_Address = address, HostIn_Description = description\<rparr>
          else None))))"

definition serviceRequest :: "httplib \<Rightarrow> string \<Rightarrow> ServiceInput option" where
  "serviceRequest H body =
     (case body_members H body of
        None \<Rightarrow> None
      | Some kvs \<Rightarrow>
     (case fill_uint64 0 (field_values H service_fields ''host_id'' kvs) of
        None \<Rightarrow> None
      | Some hostID \<Rightarrow>
     (case fill_string [] (field_values H service_fields ''name'' kvs) of
        None \<Rightarrow> None
      | Some name \<Rightarrow>
     (case fill_string [] (field_values H service_fields ''type'' kvs) of
        None \<Rightarrow> None
      | Some typ \<Rightarrow>
     (case fill_string [] (field_values H service_fields ''target'' kvs) of
        None \<Rightarrow> None
      | Some target \<Rightarrow>
     (case fill_string [] (field_values H service_fields ''description'' kvs) of
        None \<Rightarrow> None
      | Some description \<Rightarrow>
          if hostID \<noteq> 0 \<and> required name 100 \<and> typ \<noteq> [] \<and> required target 2048
          then Some \<lparr>SvcIn_HostID = hostID, SvcIn_Name = name, SvcIn_Type = typ, SvcIn_Target = target,
                 SvcIn_Description = description\<rparr>
          else None))))))"

section \<open>Errors\<close>

definition asset_handle :: "go_error \<Rightarrow> outcome" where
  "asset_handle err =
     (if errors_Is err AssetErrInvalidInput then bad_request
      else if errors_Is err AssetErrNotFound then Error 404 40400 ''not found''
      else if errors_Is err AssetErrConflict then Error 409 40900 ''conflict''
      else if errors_Is err AssetErrHostDisabled then Error 409 40901 ''host is disabled''
      else InternalError)"

section \<open>Handlers\<close>

definition AssetHandler_CreateHost :: "env \<Rightarrow> httplib \<Rightarrow> handler" where
  "AssetHandler_CreateHost E H = with_body (hostRequest H) (\<lambda>input c.
     let (user, md) = identity c
     in answer asset_handle 201 DataHost (AssetService_CreateHost (asset_repository E) input user md))"

definition AssetHandler_ListHosts :: "env \<Rightarrow> handler" where
  "AssetHandler_ListHosts E = with_pages (\<lambda>page sz c.
     answer asset_handle 200 DataHosts (AssetService_ListHosts (asset_repository E) page sz))"

definition AssetHandler_GetHost :: "env \<Rightarrow> handler" where
  "AssetHandler_GetHost E = with_id (\<lambda>i c.
     answer asset_handle 200 DataHost (AssetService_GetHost (asset_repository E) i))"

definition AssetHandler_UpdateHost :: "env \<Rightarrow> httplib \<Rightarrow> handler" where
  "AssetHandler_UpdateHost E H = with_id (\<lambda>i. with_body (hostRequest H) (\<lambda>input c.
     let (user, md) = identity c
     in answer asset_handle 200 DataHost (AssetService_UpdateHost (asset_repository E) i input user md)))"

definition AssetHandler_DisableHost :: "env \<Rightarrow> handler" where
  "AssetHandler_DisableHost E = with_id (\<lambda>i c.
     let (user, md) = identity c
     in answer asset_handle 200 (\<lambda>_. DataStatus i StatusDisabled)
          (AssetService_DisableHost (asset_repository E) i user md))"

definition AssetHandler_CreateService :: "env \<Rightarrow> golib \<Rightarrow> httplib \<Rightarrow> handler" where
  "AssetHandler_CreateService E L H = with_body (serviceRequest H) (\<lambda>input c.
     let (user, md) = identity c
     in answer asset_handle 201 DataService
          (AssetService_CreateMonitoredService L (asset_repository E) input user md))"

definition AssetHandler_ListServices :: "env \<Rightarrow> handler" where
  "AssetHandler_ListServices E = with_pages (\<lambda>page sz c.
     answer asset_handle 200 DataServices (AssetService_ListMonitoredServices (asset_repository E) page sz))"

definition AssetHandler_GetService :: "env \<Rightarrow> handler" where
  "AssetHandler_GetService E = with_id (\<lambda>i c.
     answer asset_handle 200 DataService (AssetService_GetMonitoredService (asset_repository E) i))"

definition AssetHandler_UpdateService :: "env \<Rightarrow> golib \<Rightarrow> httplib \<Rightarrow> handler" where
  "AssetHandler_UpdateService E L H = with_id (\<lambda>i. with_body (serviceRequest H) (\<lambda>input c.
     let (user, md) = identity c
     in answer asset_handle 200 DataService
          (AssetService_UpdateMonitoredService L (asset_repository E) i input user md)))"

definition AssetHandler_DisableService :: "env \<Rightarrow> handler" where
  "AssetHandler_DisableService E = with_id (\<lambda>i c.
     let (user, md) = identity c
     in answer asset_handle 200 (\<lambda>_. DataStatus i StatusDisabled)
          (AssetService_DisableMonitoredService (asset_repository E) i user md))"

lemmas AssetHandler_defs = AssetHandler_CreateHost_def AssetHandler_ListHosts_def AssetHandler_GetHost_def
  AssetHandler_UpdateHost_def AssetHandler_DisableHost_def AssetHandler_CreateService_def
  AssetHandler_ListServices_def AssetHandler_GetService_def AssetHandler_UpdateService_def
  AssetHandler_DisableService_def

section \<open>Facts\<close>

lemma hostRequest_bounds:
  "hostRequest H body = Some input \<Longrightarrow> required (HostIn_Name input) 100 \<and> required (HostIn_Address input) 255"
  by (auto simp: hostRequest_def split: option.splits if_splits)

lemma serviceRequest_bounds:
  "serviceRequest H body = Some input \<Longrightarrow> SvcIn_HostID input \<noteq> 0 \<and> required (SvcIn_Name input) 100 \<and>
     SvcIn_Type input \<noteq> [] \<and> required (SvcIn_Target input) 2048"
  by (auto simp: serviceRequest_def split: option.splits if_splits)

lemma asset_handle_ok [simp]: "reply_ok (asset_handle err)"
  by (simp add: asset_handle_def)

lemma handler_ok_answer:
  "(\<And>e. reply_ok (handle e)) \<Longrightarrow> status \<in> {200, 201} \<Longrightarrow>
     handler_ok (\<lambda>c. let (user, md) = identity c in answer handle status mk (m user md))"
  "(\<And>e. reply_ok (handle e)) \<Longrightarrow> status \<in> {200, 201} \<Longrightarrow> handler_ok (\<lambda>c. answer handle status mk m')"
  by (auto simp: handler_ok_def Let_def answer_ok split: prod.split)

lemma AssetHandler_ok:
  "handler_ok (AssetHandler_CreateHost E H)" "handler_ok (AssetHandler_ListHosts E)"
  "handler_ok (AssetHandler_GetHost E)" "handler_ok (AssetHandler_UpdateHost E H)"
  "handler_ok (AssetHandler_DisableHost E)" "handler_ok (AssetHandler_CreateService E L H)"
  "handler_ok (AssetHandler_ListServices E)" "handler_ok (AssetHandler_GetService E)"
  "handler_ok (AssetHandler_UpdateService E L H)" "handler_ok (AssetHandler_DisableService E)"
  unfolding AssetHandler_defs by (intro handler_ok_shapes handler_ok_answer; simp)+

text \<open>What the handlers do to the database is what the requests of the fleet do, or nothing.\<close>

lemma asset_service_reads:
  "w_db (snd (AssetService_GetHost (asset_repository E) i w)) = w_db w"
  "w_db (snd (AssetService_ListHosts (asset_repository E) page sz w)) = w_db w"
  "w_db (snd (AssetService_GetMonitoredService (asset_repository E) i w)) = w_db w"
  "w_db (snd (AssetService_ListMonitoredServices (asset_repository E) page sz w)) = w_db w"
  unfolding AssetService_GetHost_def AssetService_ListHosts_def AssetService_GetMonitoredService_def
    AssetService_ListMonitoredServices_def
  by (rule asset_repo.reads | (rule op_bind_reads, rule asset_repo.reads, simp split: prod.split))+

lemma AssetHandler_rel:
  assumes "fleet_closed E L R"
  shows "handler_rel R (AssetHandler_CreateHost E H)" "handler_rel R (AssetHandler_ListHosts E)"
    "handler_rel R (AssetHandler_GetHost E)" "handler_rel R (AssetHandler_UpdateHost E H)"
    "handler_rel R (AssetHandler_DisableHost E)" "handler_rel R (AssetHandler_CreateService E L H)"
    "handler_rel R (AssetHandler_ListServices E)" "handler_rel R (AssetHandler_GetService E)"
    "handler_rel R (AssetHandler_UpdateService E L H)" "handler_rel R (AssetHandler_DisableService E)"
proof -
  have refl: "R d d" for d using assms by (simp add: fleet_closed_def)
  have req: "R (w_db w) (w_db (run_fleet E L q w))" for q w using assms by (simp add: fleet_closed_def)
  note shapes = handler_rel_shapes [of R, OF refl] handler_rel_identity handler_rel_answer
  note runs = req [of _ "ReqCreateHost a b c" for a b c, simplified] req [of _ "ReqUpdateHost a b c d" for a b c d, simplified]
    req [of _ "ReqDisableHost a b c" for a b c, simplified] req [of _ "ReqCreateService a b c" for a b c, simplified]
    req [of _ "ReqUpdateService a b c d" for a b c d, simplified] req [of _ "ReqDisableService a b c" for a b c, simplified]
  show "handler_rel R (AssetHandler_CreateHost E H)" "handler_rel R (AssetHandler_ListHosts E)"
    "handler_rel R (AssetHandler_GetHost E)" "handler_rel R (AssetHandler_UpdateHost E H)"
    "handler_rel R (AssetHandler_DisableHost E)" "handler_rel R (AssetHandler_CreateService E L H)"
    "handler_rel R (AssetHandler_ListServices E)" "handler_rel R (AssetHandler_GetService E)"
    "handler_rel R (AssetHandler_UpdateService E L H)" "handler_rel R (AssetHandler_DisableService E)"
    unfolding AssetHandler_defs by (intro shapes; simp add: runs asset_service_reads refl)+
qed

end
