(* ===== verification/ProbeHandler.thy ===== *)
theory ProbeHandler
  imports AssetHandler
begin

text \<open>\<open>internal/probe/handler.go\<close>: the HTTP handlers of probe tasks and results.\<close>

abbreviation "task_fields \<equiv> [''service_id'', ''name'', ''interval_seconds'', ''timeout_milliseconds'',
  ''max_retries'', ''retry_base_delay_milliseconds'']"

text \<open>The struct has no binding rules: the service validates all of it.\<close>

definition taskRequest :: "httplib \<Rightarrow> string \<Rightarrow> TaskInput option" where
  "taskRequest H body =
     (case body_members H body of
        None \<Rightarrow> None
      | Some kvs \<Rightarrow>
     (case fill_uint64 0 (field_values H task_fields ''service_id'' kvs) of
        None \<Rightarrow> None
      | Some serviceID \<Rightarrow>
     (case fill_string [] (field_values H task_fields ''name'' kvs) of
        None \<Rightarrow> None
      | Some name \<Rightarrow>
     (case fill_int 0 (field_values H task_fields ''interval_seconds'' kvs) of
        None \<Rightarrow> None
      | Some interval \<Rightarrow>
     (case fill_int 0 (field_values H task_fields ''timeout_milliseconds'' kvs) of
        None \<Rightarrow> None
      | Some timeout \<Rightarrow>
     (case fill_int 0 (field_values H task_fields ''max_retries'' kvs) of
        None \<Rightarrow> None
      | Some retries \<Rightarrow>
     (case fill_int 0 (field_values H task_fields ''retry_base_delay_milliseconds'' kvs) of
        None \<Rightarrow> None
      | Some base \<Rightarrow>
          Some \<lparr>TaskIn_ServiceID = serviceID, TaskIn_Name = name, TaskIn_IntervalSeconds = interval,
            TaskIn_TimeoutMilliseconds = timeout, TaskIn_MaxRetries = retries,
            TaskIn_RetryBaseDelayMilliseconds = base\<rparr>)))))))"

definition probe_handle :: "go_error \<Rightarrow> outcome" where
  "probe_handle err =
     (if errors_Is err ProbeErrInvalidInput then bad_request
      else if errors_Is err ProbeErrNotFound then Error 404 40400 ''not found''
      else if errors_Is err ProbeErrConflict then Error 409 40900 ''conflict''
      else InternalError)"

definition ProbeHandler_Create :: "env \<Rightarrow> httplib \<Rightarrow> handler" where
  "ProbeHandler_Create E H = with_body (taskRequest H) (\<lambda>input c.
     let (user, md) = identity c
     in answer probe_handle 201 DataTask (TaskService_Create E input user md))"

definition ProbeHandler_List :: "env \<Rightarrow> handler" where
  "ProbeHandler_List E = with_pages (\<lambda>page sz c.
     answer probe_handle 200 DataTasks (TaskService_List E page sz))"

definition ProbeHandler_Get :: "env \<Rightarrow> handler" where
  "ProbeHandler_Get E = with_id (\<lambda>i c. answer probe_handle 200 DataTask (TaskService_Get E i))"

definition ProbeHandler_Update :: "env \<Rightarrow> httplib \<Rightarrow> handler" where
  "ProbeHandler_Update E H = with_id (\<lambda>i. with_body (taskRequest H) (\<lambda>input c.
     let (user, md) = identity c
     in answer probe_handle 200 DataTask (TaskService_Update E i input user md)))"

definition ProbeHandler_Disable :: "env \<Rightarrow> handler" where
  "ProbeHandler_Disable E = with_id (\<lambda>i c.
     let (user, md) = identity c
     in answer probe_handle 200 (\<lambda>_. DataStatus i TaskDisabled) (TaskService_Disable E i user md))"

definition ProbeHandler_ListResults :: "env \<Rightarrow> handler" where
  "ProbeHandler_ListResults E = with_pages (\<lambda>page sz c.
     answer probe_handle 200 DataResults (TaskService_ListResults E page sz))"

definition ProbeHandler_GetResult :: "env \<Rightarrow> handler" where
  "ProbeHandler_GetResult E = with_id (\<lambda>i c. answer probe_handle 200 DataResult (TaskService_GetResult E i))"

lemmas ProbeHandler_defs = ProbeHandler_Create_def ProbeHandler_List_def ProbeHandler_Get_def
  ProbeHandler_Update_def ProbeHandler_Disable_def ProbeHandler_ListResults_def ProbeHandler_GetResult_def

lemma probe_handle_ok [simp]: "reply_ok (probe_handle err)"
  by (simp add: probe_handle_def)

lemma ProbeHandler_ok:
  "handler_ok (ProbeHandler_Create E H)" "handler_ok (ProbeHandler_List E)" "handler_ok (ProbeHandler_Get E)"
  "handler_ok (ProbeHandler_Update E H)" "handler_ok (ProbeHandler_Disable E)"
  "handler_ok (ProbeHandler_ListResults E)" "handler_ok (ProbeHandler_GetResult E)"
  unfolding ProbeHandler_defs by (intro handler_ok_shapes handler_ok_answer; simp)+

lemma task_service_reads:
  "w_db (snd (TaskService_Get E i w)) = w_db w" "w_db (snd (TaskService_List E page sz w)) = w_db w"
  "w_db (snd (TaskService_ListResults E page sz w)) = w_db w" "w_db (snd (TaskService_GetResult E i w)) = w_db w"
  unfolding TaskService_Get_def TaskService_List_def TaskService_ListResults_def TaskService_GetResult_def
    ProbeRepo_GetTask_def ProbeRepo_ListTasks_def ProbeRepo_ListExecutions_def ProbeRepo_GetExecutionByID_def
  by (simp | (rule op_bind_reads, simp, simp split: prod.split))+

lemma ProbeHandler_rel:
  assumes "fleet_closed E L R"
  shows "handler_rel R (ProbeHandler_Create E H)" "handler_rel R (ProbeHandler_List E)"
    "handler_rel R (ProbeHandler_Get E)" "handler_rel R (ProbeHandler_Update E H)"
    "handler_rel R (ProbeHandler_Disable E)" "handler_rel R (ProbeHandler_ListResults E)"
    "handler_rel R (ProbeHandler_GetResult E)"
proof -
  have refl: "R d d" for d using assms by (simp add: fleet_closed_def)
  have req: "R (w_db w) (w_db (run_fleet E L q w))" for q w using assms by (simp add: fleet_closed_def)
  note shapes = handler_rel_shapes [of R, OF refl] handler_rel_identity handler_rel_answer
  note runs = req [of _ "ReqCreateTask a b c" for a b c, simplified] req [of _ "ReqUpdateTask a b c d" for a b c d, simplified]
    req [of _ "ReqDisableTask a b c" for a b c, simplified]
  show "handler_rel R (ProbeHandler_Create E H)" "handler_rel R (ProbeHandler_List E)"
    "handler_rel R (ProbeHandler_Get E)" "handler_rel R (ProbeHandler_Update E H)"
    "handler_rel R (ProbeHandler_Disable E)" "handler_rel R (ProbeHandler_ListResults E)"
    "handler_rel R (ProbeHandler_GetResult E)"
    unfolding ProbeHandler_defs by (intro shapes; simp add: runs task_service_reads refl)+
qed

end
