(* ===== verification/IncidentHandler.thy ===== *)
theory IncidentHandler
  imports AssetHandler
begin

text \<open>\<open>internal/incident/handler.go\<close>: the webhook and the handlers of incidents.\<close>

section \<open>The webhook body\<close>

abbreviation "webhook_fields \<equiv> [''status'', ''alerts'']"
abbreviation "alert_fields \<equiv> [''status'', ''labels'', ''annotations'', ''startsAt'', ''endsAt'', ''fingerprint'']"

text \<open>
  Filling a map of strings: the members are added to the map that is there, a member
  \<open>null\<close> is the empty string, and \<open>null\<close> for the map empties it.
\<close>

fun fill_members :: "(string \<Rightarrow> string option) \<Rightarrow> (string \<times> json) list \<Rightarrow> (string \<Rightarrow> string option) option" where
  "fill_members acc [] = Some acc"
| "fill_members acc ((k, v) # kvs) =
     (case v of JString s \<Rightarrow> fill_members (acc(k \<mapsto> s)) kvs | JNull \<Rightarrow> fill_members (acc(k \<mapsto> [])) kvs | _ \<Rightarrow> None)"

fun fill_map :: "(string \<Rightarrow> string option) \<Rightarrow> json list \<Rightarrow> (string \<Rightarrow> string option) option" where
  "fill_map acc [] = Some acc"
| "fill_map acc (JNull # vs) = fill_map Map.empty vs"
| "fill_map acc (JObject kvs # vs) = (case fill_members acc kvs of None \<Rightarrow> None | Some m \<Rightarrow> fill_map m vs)"
| "fill_map acc (v # vs) = None"

fun fill_time :: "httplib \<Rightarrow> time \<Rightarrow> json list \<Rightarrow> time option" where
  "fill_time H acc [] = Some acc"
| "fill_time H acc (JNull # vs) = fill_time H acc vs"
| "fill_time H acc (JString s # vs) = (case hl_json_time H s of None \<Rightarrow> None | Some t \<Rightarrow> fill_time H t vs)"
| "fill_time H acc (v # vs) = None"

definition zero_alert :: Alert where
  "zero_alert = \<lparr>Alert_Status = [], Alert_Labels = Map.empty, Alert_Annotations = Map.empty,
     Alert_StartsAt = 0, Alert_EndsAt = 0, Alert_Fingerprint = []\<rparr>"

fun fill_alert :: "httplib \<Rightarrow> Alert \<Rightarrow> json \<Rightarrow> Alert option" where
  "fill_alert H acc (JObject kvs) =
     (case fill_string (Alert_Status acc) (field_values H alert_fields ''status'' kvs) of
        None \<Rightarrow> None
      | Some status \<Rightarrow>
     (case fill_map (Alert_Labels acc) (field_values H alert_fields ''labels'' kvs) of
        None \<Rightarrow> None
      | Some labels \<Rightarrow>
     (case fill_map (Alert_Annotations acc) (field_values H alert_fields ''annotations'' kvs) of
        None \<Rightarrow> None
      | Some annotations \<Rightarrow>
     (case fill_time H (Alert_StartsAt acc) (field_values H alert_fields ''startsAt'' kvs) of
        None \<Rightarrow> None
      | Some starts \<Rightarrow>
     (case fill_time H (Alert_EndsAt acc) (field_values H alert_fields ''endsAt'' kvs) of
        None \<Rightarrow> None
      | Some ends \<Rightarrow>
     (case fill_string (Alert_Fingerprint acc) (field_values H alert_fields ''fingerprint'' kvs) of
        None \<Rightarrow> None
      | Some fingerprint \<Rightarrow>
          Some \<lparr>Alert_Status = status, Alert_Labels = labels, Alert_Annotations = annotations,
            Alert_StartsAt = starts, Alert_EndsAt = ends, Alert_Fingerprint = fingerprint\<rparr>))))))"
| "fill_alert H acc JNull = Some acc"
| "fill_alert H acc v = None"

text \<open>A repeated \<open>alerts\<close> array fills the elements of the one before it.\<close>

fun fill_elements :: "httplib \<Rightarrow> Alert list \<Rightarrow> json list \<Rightarrow> Alert list option" where
  "fill_elements H acc [] = Some []"
| "fill_elements H acc (v # vs) =
     (case fill_alert H (case acc of [] \<Rightarrow> zero_alert | a # _ \<Rightarrow> a) v of
        None \<Rightarrow> None
      | Some a \<Rightarrow> (case fill_elements H (drop 1 acc) vs of None \<Rightarrow> None | Some as \<Rightarrow> Some (a # as)))"

fun fill_alerts :: "httplib \<Rightarrow> Alert list \<Rightarrow> json list \<Rightarrow> Alert list option" where
  "fill_alerts H acc [] = Some acc"
| "fill_alerts H acc (JNull # vs) = fill_alerts H [] vs"
| "fill_alerts H acc (JArray as # vs) =
     (case fill_elements H acc as of None \<Rightarrow> None | Some acc' \<Rightarrow> fill_alerts H acc' vs)"
| "fill_alerts H acc (v # vs) = None"

text \<open>At most one mebibyte of the body is read.\<close>

definition max_body :: nat where "max_body = 1048576"

definition webhookRequest :: "httplib \<Rightarrow> string \<Rightarrow> Webhook option" where
  "webhookRequest H body =
     (case body_members H (take max_body body) of
        None \<Rightarrow> None
      | Some kvs \<Rightarrow>
     (case fill_string [] (field_values H webhook_fields ''status'' kvs) of
        None \<Rightarrow> None
      | Some status \<Rightarrow>
     (case fill_alerts H [] (field_values H webhook_fields ''alerts'' kvs) of
        None \<Rightarrow> None
      | Some alerts \<Rightarrow> Some \<lparr>Webhook_Status = status, Webhook_Alerts = alerts\<rparr>)))"

section \<open>Handlers\<close>

definition incident_fail :: "go_error \<Rightarrow> outcome" where
  "incident_fail err =
     (if errors_Is err IncidentErrNotFound then Error 404 40400 ''not found''
      else if errors_Is err IncidentErrConflict then Error 409 40900 ''invalid incident transition''
      else InternalError)"

definition invalid_webhook :: outcome where
  "invalid_webhook = Error 400 40010 ''invalid webhook''"

text \<open>Every error of the ingestion is answered as a bad request.\<close>

definition IncidentHandler_Webhook :: "env \<Rightarrow> golib \<Rightarrow> httplib \<Rightarrow> handler" where
  "IncidentHandler_Webhook E L H c w =
     (case webhookRequest H (cx_Body c) of
        None \<Rightarrow> (invalid_webhook, w)
      | Some payload \<Rightarrow>
          (case IncidentService_Ingest E L payload w of
             (Inl err, w') \<Rightarrow> (invalid_webhook, w')
           | (Inr _, w') \<Rightarrow> (Success 200 (DataProcessed (length (Webhook_Alerts payload))), w')))"

text \<open>
  The parameters of a request, or the reply that was sent for bad ones. The package has its own
  \<open>bad\<close>, \<open>pathID\<close> and \<open>pages\<close>; they do what those of the assets do.
\<close>

definition incident_bad :: outcome where
  "incident_bad = Error 400 40000 ''invalid request''"

definition incident_pathID :: "gin_context \<Rightarrow> outcome + u64" where
  "incident_pathID c =
     (case ParseUint (cx_Param_id c) of
        None \<Rightarrow> Inl incident_bad
      | Some i \<Rightarrow> if i = 0 then Inl incident_bad else Inr i)"

definition incident_pages :: "gin_context \<Rightarrow> outcome + int \<times> int" where
  "incident_pages c =
     (case Atoi (DefaultQuery c ''page'' ''1'') of
        None \<Rightarrow> Inl incident_bad
      | Some page \<Rightarrow>
          if page < 1 then Inl incident_bad
          else (case Atoi (DefaultQuery c ''page_size'' ''20'') of
                  None \<Rightarrow> Inl incident_bad
                | Some sz \<Rightarrow> if sz < 1 \<or> sz > 100 then Inl incident_bad else Inr (page, sz)))"

definition with_param :: "(gin_context \<Rightarrow> outcome + 'a) \<Rightarrow> ('a \<Rightarrow> handler) \<Rightarrow> handler" where
  "with_param get h c w = (case get c of Inl r \<Rightarrow> (r, w) | Inr x \<Rightarrow> h x c w)"

lemma incident_params:
  "with_param incident_pathID h = with_id h" "with_param incident_pages (\<lambda>(page, sz). h' page sz) = with_pages h'"
  by (auto simp: fun_eq_iff with_param_def with_id_def with_pages_def incident_pathID_def incident_pages_def pathID_def
      pageParams_def incident_bad_def bad_request_def split: option.split)

definition IncidentHandler_List :: "env \<Rightarrow> handler" where
  "IncidentHandler_List E = with_param incident_pages (\<lambda>(page, sz) c.
     answer incident_fail 200 DataIncidents (IncidentService_List E page sz))"

definition IncidentHandler_Get :: "env \<Rightarrow> handler" where
  "IncidentHandler_Get E = with_param incident_pathID (\<lambda>i c. answer incident_fail 200 DataIncident (IncidentService_Get E i))"

definition incident_action :: "(u64 \<Rightarrow> u64 \<Rightarrow> string \<Rightarrow> (world, Incident) op) \<Rightarrow> handler" where
  "incident_action operation = with_param incident_pathID (\<lambda>i c.
     let (user, name) = (case PrincipalFromContext c of None \<Rightarrow> (0, []) | Some p \<Rightarrow> (Pr_UserID p, Pr_Username p))
     in answer incident_fail 200 DataIncident (operation i user name))"

definition IncidentHandler_Acknowledge :: "env \<Rightarrow> handler" where
  "IncidentHandler_Acknowledge E = incident_action (IncidentService_Acknowledge E)"

definition IncidentHandler_Process :: "env \<Rightarrow> handler" where
  "IncidentHandler_Process E = incident_action (IncidentService_Process E)"

definition IncidentHandler_Close :: "env \<Rightarrow> handler" where
  "IncidentHandler_Close E = incident_action (IncidentService_Close E)"

lemmas incident_action_eq = incident_action_def [unfolded incident_params]

lemma IncidentHandler_List_eq:
  "IncidentHandler_List E = with_pages (\<lambda>page sz c. answer incident_fail 200 DataIncidents (IncidentService_List E page sz))"
  by (simp add: IncidentHandler_List_def incident_params)

lemmas IncidentHandler_defs = IncidentHandler_List_eq IncidentHandler_Get_def [unfolded incident_params] IncidentHandler_Acknowledge_def
  IncidentHandler_Process_def IncidentHandler_Close_def

section \<open>Facts\<close>

lemma incident_fail_ok [simp]: "reply_ok (incident_fail err)"
  by (simp add: incident_fail_def)

lemma incident_action_ok: "handler_ok (incident_action operation)"
  unfolding incident_action_eq
  by (rule handler_ok_shapes) (auto simp: handler_ok_def Let_def answer_ok split: prod.split)

lemma IncidentHandler_ok:
  "handler_ok (IncidentHandler_Webhook E L H)" "handler_ok (IncidentHandler_List E)"
  "handler_ok (IncidentHandler_Get E)" "handler_ok (IncidentHandler_Acknowledge E)"
  "handler_ok (IncidentHandler_Process E)" "handler_ok (IncidentHandler_Close E)"
proof -
  show "handler_ok (IncidentHandler_Webhook E L H)"
    by (auto simp: handler_ok_def IncidentHandler_Webhook_def invalid_webhook_def
        split: option.split prod.split sum.split)
  show "handler_ok (IncidentHandler_List E)" "handler_ok (IncidentHandler_Get E)"
    unfolding IncidentHandler_defs by (intro handler_ok_shapes handler_ok_answer; simp)+
  show "handler_ok (IncidentHandler_Acknowledge E)" "handler_ok (IncidentHandler_Process E)"
    "handler_ok (IncidentHandler_Close E)"
    unfolding IncidentHandler_defs by (rule incident_action_ok)+
qed

lemma incident_service_reads:
  "w_db (snd (IncidentService_Get E i w)) = w_db w" "w_db (snd (IncidentService_List E page sz w)) = w_db w"
  unfolding IncidentService_Get_def IncidentService_List_def IncidentRepo_List_def
  by (simp | (rule op_bind_reads, simp, simp split: prod.split))+

lemma incident_action_rel:
  assumes "\<And>d. R d d" and "\<And>i user name w. R (w_db w) (w_db (snd (operation i user name w)))"
  shows "handler_rel R (incident_action operation)"
  unfolding incident_action_eq
  by (rule handler_rel_shapes [of R, OF assms(1)])
     (auto simp: handler_rel_def Let_def answer_world assms(2) split: prod.split)

lemma IncidentHandler_rel:
  assumes "incident_closed E L R"
  shows "handler_rel R (IncidentHandler_Webhook E L H)" "handler_rel R (IncidentHandler_List E)"
    "handler_rel R (IncidentHandler_Get E)" "handler_rel R (IncidentHandler_Acknowledge E)"
    "handler_rel R (IncidentHandler_Process E)" "handler_rel R (IncidentHandler_Close E)"
proof -
  have refl: "R d d" for d using assms by (simp add: incident_closed_def)
  have req: "R (w_db w) (w_db (run_incident E L q w))" for q w using assms by (simp add: incident_closed_def)
  note shapes = handler_rel_shapes [of R, OF refl] handler_rel_answer
  have ingest: "R (w_db w) (w_db w')" if "IncidentService_Ingest E L p w = (r, w')" for p w r w'
    using req [of w "IncReqWebhook p"] that by simp
  show "handler_rel R (IncidentHandler_Webhook E L H)"
    by (auto simp: handler_rel_def IncidentHandler_Webhook_def refl dest: ingest
        split: option.split prod.split sum.split)
  show "handler_rel R (IncidentHandler_List E)" "handler_rel R (IncidentHandler_Get E)"
    unfolding IncidentHandler_defs by (intro shapes; simp add: incident_service_reads refl)+
  show "handler_rel R (IncidentHandler_Acknowledge E)"
    using req [of _ "IncReqAcknowledge i u n" for i u n]
    by (auto simp: IncidentHandler_defs intro!: incident_action_rel refl)
  show "handler_rel R (IncidentHandler_Process E)"
    using req [of _ "IncReqProcess i u n" for i u n]
    by (auto simp: IncidentHandler_defs intro!: incident_action_rel refl)
  show "handler_rel R (IncidentHandler_Close E)"
    using req [of _ "IncReqClose i u n" for i u n]
    by (auto simp: IncidentHandler_defs intro!: incident_action_rel refl)
qed

end
