(* ===== verification/AuthSpec.thy ===== *)
theory AuthSpec
  imports Auth
begin

text \<open>
  What login promises: who can log in, what is written to the database on each outcome, and
  that the token it returns is accepted as that user until it expires; and what the bootstrap
  leaves behind.
\<close>

section \<open>Login\<close>

definition credentials_ok :: "authlib \<Rightarrow> (string \<Rightarrow> string) \<Rightarrow> string \<Rightarrow> string \<Rightarrow> User \<Rightarrow> bool" where
  "credentials_ok A C username password u \<longleftrightarrow>
     C (User_Username u) = C username \<and> bcrypt_Compare A (User_PasswordHash u) password = None"

text \<open>
  The outcome of a login: on success a user of that name with that password is active, and
  exactly its last login and one audit entry are written; a refusal writes at most one audit
  entry, of outcome failure and without an actor; any other error changes nothing, or is the
  lost reply of a login that was recorded.
\<close>

definition login_outcome ::
  "authlib \<Rightarrow> (string \<Rightarrow> string) \<Rightarrow> string \<Rightarrow> string \<Rightarrow> RequestMetadata \<Rightarrow> db \<Rightarrow> go_error + LoginResult \<Rightarrow> db \<Rightarrow> bool" where
  "login_outcome A C username password md d r d' \<longleftrightarrow>
     (case r of
        Inr res \<Rightarrow> \<exists>u\<in>set (T_users d). credentials_ok A C username password u \<and>
          User_Status u = AuthStatusActive \<and> PU_ID (LR_User res) = User_ID u \<and>
          login_effect (User_ID u) (loginAudit (Some (User_ID u)) username ''success'' [] md) d d'
      | Inl e \<Rightarrow> d' = d \<or>
          (e = Sentinel AuthErrInvalidCredentials \<and>
             log_effect (loginAudit None username ''failure'' ''invalid_credentials'' md) d d') \<or>
          (e = Sentinel AuthErrUserDisabled \<and>
             (\<exists>u\<in>set (T_users d). credentials_ok A C username password u \<and> User_Status u \<noteq> AuthStatusActive) \<and>
             log_effect (loginAudit None username ''failure'' ''user_disabled'' md) d d') \<or>
          (\<exists>u\<in>set (T_users d). credentials_ok A C username password u \<and> User_Status u = AuthStatusActive \<and>
             login_effect (User_ID u) (loginAudit (Some (User_ID u)) username ''success'' [] md) d d'))"

lemma Generate_reads [simp]: "w_db (snd (TokenManager_Generate E A m user w)) = w_db w"
  by (auto simp: TokenManager_Generate_def op_bind_def split: sum.splits)

lemma Generate_Inr_db: "TokenManager_Generate E A m user w = (r, w') \<Longrightarrow> w_db w' = w_db w"
  using Generate_reads [of E A m user w] by simp

context auth_store_laws
begin

lemma refused:
  assumes "op_bind (recordFailure S n code md) (\<lambda>_. op_fail e) w = (r, w')"
  shows "r = Inl e \<and> (w_db w' = w_db w \<or> log_effect (loginAudit None n ''failure'' code md) (w_db w) (w_db w'))"
  using recordFailure_effect [of n code md w] assms by (auto simp: op_bind_def recordFailure_def)

lemma granted:
  assumes u: "u \<in> set (T_users (w_db w))" "credentials_ok A C n password u" "User_Status u = AuthStatusActive"
    and run: "op_bind (TokenManager_Generate E A m u) (\<lambda>(token, expiresAt).
       op_bind (time_now E) (\<lambda>now.
       op_bind (us_RecordSuccess S (User_ID u) now (loginAudit (Some (User_ID u)) n ''success'' [] md)) (\<lambda>_.
       op_bind (time_now E) (\<lambda>later.
       op_return \<lparr>LR_AccessToken = token, LR_TokenType = ''Bearer'',
         LR_ExpiresIn = go_quot (expiresAt - later) second,
         LR_User = publicUser (u\<lparr>User_LastLoginAt := Some now\<rparr>)\<rparr>)))) w = (r, w')"
  shows "login_outcome A C n password md (w_db w) r (w_db w')"
proof -
  obtain g w1 where gen: "TokenManager_Generate E A m u w = (g, w1)" by (metis surj_pair)
  have v1: "w_db w1 = w_db w" by (rule Generate_Inr_db [OF gen])
  show ?thesis
  proof (cases g)
    case (Inl e)
    then show ?thesis using run gen v1 by (auto simp: op_bind_def login_outcome_def)
  next
    case (Inr te)
    obtain token ex where te: "te = (token, ex)" by (cases te)
    let ?now = "env_clock E (w_tick w1)"
    let ?l = "loginAudit (Some (User_ID u)) n ''success'' [] md"
    obtain o' w2 where rec: "us_RecordSuccess S (User_ID u) ?now ?l (tick w1) = (o', w2)" by (metis surj_pair)
    have eff: "all_or_nothing w_db (us_RecordSuccess S (User_ID u) ?now ?l) (tick w1)
        (\<lambda>_. login_effect (User_ID u) ?l (w_db w))"
      using RecordSuccess_effect [of "User_ID u" ?now ?l "tick w1"] v1 by simp
    show ?thesis
    proof (cases o')
      case (Inl e)
      then have "r = Inl e" "w' = w2" using run gen Inr te rec by (auto simp: op_bind_def)
      moreover have "w_db w2 = w_db w \<or> login_effect (User_ID u) ?l (w_db w) (w_db w2)"
        using eff rec Inl v1 by (simp add: all_or_nothing_def)
      ultimately show ?thesis using u by (auto simp: login_outcome_def)
    next
      case Inr': (Inr x)
      then have "\<exists>res. r = Inr res \<and> PU_ID (LR_User res) = User_ID u" "w_db w' = w_db w2"
        using run gen Inr te rec by (auto simp: op_bind_def publicUser_def)
      moreover have "login_effect (User_ID u) ?l (w_db w) (w_db w2)"
        using eff rec Inr' by (simp add: all_or_nothing_def)
      ultimately show ?thesis using u by (auto simp: login_outcome_def)
    qed
  qed
qed

lemma Login_outcome:
  assumes "AuthService_Login E A S m username password md w = (r, w')"
  shows "login_outcome A C (TrimSpace username) password md (w_db w) r (w_db w')"
proof -
  let ?n = "TrimSpace username"
  obtain f w1 where find: "us_FindByUsername S ?n w = (f, w1)" by (metis surj_pair)
  have v: "w_db w1 = w_db w" using FindByUsername_reads [of ?n w] find by simp
  have invalid: "login_outcome A C ?n password md (w_db w) r (w_db w')"
    if "op_bind (recordFailure S ?n ''invalid_credentials'' md) (\<lambda>_. op_fail (Sentinel AuthErrInvalidCredentials)) w1 = (r, w')"
    using refused [OF that] v by (auto simp: login_outcome_def)
  show ?thesis
  proof (cases f)
    case (Inl e)
    then show ?thesis using assms find invalid by (simp add: AuthService_Login_def)
  next
    case (Inr u)
    have u: "u \<in> set (T_users (w_db w))" "C (User_Username u) = C ?n"
      using FindByUsername_row [of ?n w u w1] find Inr by auto
    show ?thesis
    proof (cases "bcrypt_Compare A (User_PasswordHash u) password = None")
      case False
      then show ?thesis using assms find Inr invalid by (auto simp: AuthService_Login_def)
    next
      case True
      then have cred: "credentials_ok A C ?n password u" using u by (simp add: credentials_ok_def)
      show ?thesis
      proof (cases "User_Status u = AuthStatusActive")
        case False
        then show ?thesis
          using assms find Inr True u cred v refused [of ?n "''user_disabled''" md "Sentinel AuthErrUserDisabled" w1 r w']
          by (auto simp: AuthService_Login_def login_outcome_def)
      next
        case act: True
        show ?thesis
          using granted [of u w1 A ?n password E m md r w'] u cred act v assms find Inr True
          by (simp add: AuthService_Login_def)
      qed
    qed
  qed
qed

section \<open>Bootstrap\<close>

text \<open>
  The bootstrap adds at most one user, and after it has succeeded with a name configured there
  is a user of that name. It never changes a user that exists.
\<close>

lemma Bootstrap_effect:
  assumes "Bootstrap A S username password w = (r, w')"
  shows "w_db w' = w_db w \<or>
    (\<exists>hash. bcrypt_Generate A (bcrypt_DefaultCost A) password = Inr hash \<and>
       user_effect (new_user username hash) (w_db w) (w_db w'))"
    and "r = Inr () \<Longrightarrow> username \<noteq> [] \<Longrightarrow> \<exists>u\<in>set (T_users (w_db w')). C (User_Username u) = C username"
proof -
  obtain f w1 where find: "us_FindByUsername S username w = (f, w1)" by (metis surj_pair)
  have v: "w_db w1 = w_db w" using FindByUsername_reads [of username w] find by simp
  have "(w_db w' = w_db w \<or>
    (\<exists>hash. bcrypt_Generate A (bcrypt_DefaultCost A) password = Inr hash \<and>
       user_effect (new_user username hash) (w_db w) (w_db w'))) \<and>
    (r = Inr () \<longrightarrow> username \<noteq> [] \<longrightarrow> (\<exists>u\<in>set (T_users (w_db w')). C (User_Username u) = C username))"
  proof (cases "username = [] \<or> password = []")
    case True
    then show ?thesis using assms by (auto simp: Bootstrap_def split: if_splits)
  next
    case False
    show ?thesis
    proof (cases f)
      case (Inr u)
      then have "w_db w' = w_db w" using assms find v False by (auto simp: Bootstrap_def)
      then show ?thesis using FindByUsername_row [of username w u w1] find Inr by auto
    next
      case (Inl e)
      show ?thesis
      proof (cases "errors_Is e AuthErrUserNotFound")
        case nf: False
        then show ?thesis using assms find v Inl False by (auto simp: Bootstrap_def)
      next
        case True
        show ?thesis
        proof (cases "bcrypt_Generate A (bcrypt_DefaultCost A) password")
          case e2: (Inl e2)
          then show ?thesis using assms find v Inl False True by (auto simp: Bootstrap_def)
        next
          case hash: (Inr hash)
          obtain c w2 where create: "us_CreateUser S (new_user username hash) w1 = (c, w2)" by (metis surj_pair)
          have eff: "case c of Inl e \<Rightarrow> w_db w2 = w_db w1 | Inr _ \<Rightarrow> user_effect (new_user username hash) (w_db w1) (w_db w2)"
            by (rule CreateUser_effect [OF _ create]) (simp add: new_user_def)
          show ?thesis
          proof (cases c)
            case ok: (Inr x)
            then have "r = Inr ()" "w' = w2"
              using assms find Inl False True hash create by (auto simp: Bootstrap_def)
            then show ?thesis using eff ok hash v by (auto simp: user_effect_def new_user_def)
          next
            case err: (Inl e3)
            obtain g w3 where again: "us_FindByUsername S username w2 = (g, w3)" by (metis surj_pair)
            have "w_db w3 = w_db w2" using FindByUsername_reads [of username w2] again by simp
            then show ?thesis
              using assms find Inl False True hash create err again eff v FindByUsername_row [of username w2 _ w3]
              by (cases g) (auto simp: Bootstrap_def)
          qed
        qed
      qed
    qed
  qed
  then show "w_db w' = w_db w \<or>
    (\<exists>hash. bcrypt_Generate A (bcrypt_DefaultCost A) password = Inr hash \<and>
       user_effect (new_user username hash) (w_db w) (w_db w'))"
    and "r = Inr () \<Longrightarrow> username \<noteq> [] \<Longrightarrow> \<exists>u\<in>set (T_users (w_db w')). C (User_Username u) = C username"
    by blast+
qed

end

section \<open>Tokens\<close>

text \<open>
  What the token library promises: what was signed with a secret is read back with the same
  secret, before the expiry and under options the claims meet.
\<close>

definition jwt_reads_back :: "authlib \<Rightarrow> bool" where
  "jwt_reads_back A \<longleftrightarrow> (\<forall>claims secret raw options key now.
     jwt_SignedString A HS256 claims secret = Inr raw \<and> HS256 \<in> set (po_ValidMethods options) \<and>
     po_Issuer options = Claims_Issuer claims \<and> key HS256 = Inr secret \<and>
     (\<exists>ex. Claims_ExpiresAt claims = Some ex \<and> now < ex) \<longrightarrow>
     jwt_ParseWithClaims A options key now raw = Inr (True, claims))"

lemma Parse_Generate:
  assumes lib: "jwt_reads_back A" and gen: "TokenManager_Generate E A m user w = (Inr (raw, ex), w1)"
    and user: "User_ID user \<noteq> 0"
    and fresh: "env_clock E (w_tick w2) < jwt_NewNumericDate A ex"
  shows "TokenManager_Parse E A m raw w2 =
    (Inr \<lparr>Pr_UserID = User_ID user, Pr_Username = User_Username user, Pr_ExpiresAt = jwt_NewNumericDate A ex\<rparr>, tick w2)"
proof -
  let ?c = "user_claims A m user (env_clock E (w_tick w))"
  have sig: "jwt_SignedString A HS256 ?c (tm_secret m) = Inr raw"
    and ex: "ex = env_clock E (w_tick w) + tm_expiresIn m"
    using gen by (auto simp: TokenManager_Generate_def op_bind_def split: sum.splits)
  have "jwt_ParseWithClaims A (token_options m) (token_key m) (env_clock E (w_tick w2)) raw = Inr (True, ?c)"
    by (rule lib [unfolded jwt_reads_back_def, rule_format])
       (use sig ex fresh in \<open>auto simp: token_options_def token_key_def user_claims_def\<close>)
  then show ?thesis using user ex by (simp add: TokenManager_Parse_def op_bind_def user_claims_def)
qed

text \<open>So the token that a login returns is accepted, as the user that logged in.\<close>

lemma Login_Inr:
  assumes "AuthService_Login E A S m username password md w = (Inr res, w')"
  shows "\<exists>user w1 w2 ex. us_FindByUsername S (TrimSpace username) w = (Inr user, w1) \<and>
    TokenManager_Generate E A m user w1 = (Inr (LR_AccessToken res, ex), w2) \<and>
    PU_ID (LR_User res) = User_ID user \<and> PU_Username (LR_User res) = User_Username user"
proof -
  obtain user w1 where find: "us_FindByUsername S (TrimSpace username) w = (Inr user, w1)"
    using assms by (auto simp: AuthService_Login_def op_bind_def recordFailure_def Let_def split: prod.splits sum.splits)
  obtain token ex w2 where gen: "TokenManager_Generate E A m user w1 = (Inr (token, ex), w2)"
    and "LR_AccessToken res = token" "PU_ID (LR_User res) = User_ID user"
      "PU_Username (LR_User res) = User_Username user"
    using assms find
    by (auto simp: AuthService_Login_def recordFailure_def publicUser_def op_bind_run Let_def split: prod.splits sum.splits if_splits)
  then show ?thesis using find by blast
qed

lemma FindByUsername_tick: "us_FindByUsername (auth_repository E) n w = (r, w') \<Longrightarrow> w_tick w' = Suc (w_tick w)"
  by (auto simp: auth_repository_def AuthRepo_FindByUsername_def op_map_error_def tb_first_def db_query_def db_stmt_def
      split: prod.splits sum.splits option.splits)

lemma Generate_expiry:
  "TokenManager_Generate E A m user w = (Inr (raw, ex), w') \<Longrightarrow> ex = env_clock E (w_tick w) + tm_expiresIn m"
  by (auto simp: TokenManager_Generate_def op_bind_def split: sum.splits)

lemma Login_token:
  assumes lib: "jwt_reads_back A" and login: "AuthService_Login E A (auth_repository E) m username password md w = (Inr res, w')"
    and ids: "0 \<notin> User_ID ` set (T_users (w_db w))"
    and fresh: "env_clock E (w_tick w2) < jwt_NewNumericDate A (env_clock E (Suc (w_tick w)) + tm_expiresIn m)"
  shows "\<exists>p. TokenManager_Parse E A m (LR_AccessToken res) w2 = (Inr p, tick w2) \<and>
    Pr_UserID p = PU_ID (LR_User res) \<and> Pr_Username p = PU_Username (LR_User res)"
proof -
  obtain user w1 w3 ex where find: "us_FindByUsername (auth_repository E) (TrimSpace username) w = (Inr user, w1)"
    and gen: "TokenManager_Generate E A m user w1 = (Inr (LR_AccessToken res, ex), w3)"
    and u: "PU_ID (LR_User res) = User_ID user" "PU_Username (LR_User res) = User_Username user"
    using Login_Inr [OF login] by blast
  have "User_ID user \<noteq> 0" using auth_repo.FindByUsername_row [OF find] ids by (auto simp: image_iff)
  moreover have "env_clock E (w_tick w2) < jwt_NewNumericDate A ex"
    using fresh Generate_expiry [OF gen] FindByUsername_tick [OF find] by simp
  ultimately show ?thesis using Parse_Generate [OF lib gen] u by simp
qed

text \<open>An accepted token was read with the method and issuer of the program, unexpired by the
  library's judgement, and names a user.\<close>

lemma Parse_Inr:
  assumes "TokenManager_Parse E A m raw w = (Inr p, w')"
  shows "\<exists>claims. jwt_ParseWithClaims A (token_options m) (token_key m) (env_clock E (w_tick w)) raw = Inr (True, claims) \<and>
    Claims_ExpiresAt claims = Some (Pr_ExpiresAt p) \<and> ParseUint (Claims_Subject claims) = Some (Pr_UserID p) \<and>
    Pr_UserID p \<noteq> 0 \<and> Claims_Username claims = Pr_Username p"
  using assms by (auto simp: TokenManager_Parse_def op_bind_def split: sum.splits prod.splits option.splits if_splits)

lemma Parse_reads [simp]: "w_db (snd (TokenManager_Parse E A m raw w)) = w_db w"
  by (auto simp: TokenManager_Parse_def op_bind_def split: sum.splits prod.splits option.splits)

end
