(* ===== verification/AuthHandler.thy ===== *)
theory AuthHandler
  imports AssetHandler AuthSpec
begin

text \<open>\<open>internal/auth/handler.go\<close>: login and the current user.\<close>

abbreviation "login_fields \<equiv> [''username'', ''password'']"

definition loginRequest :: "httplib \<Rightarrow> string \<Rightarrow> (string \<times> string) option" where
  "loginRequest H body =
     (case body_members H body of
        None \<Rightarrow> None
      | Some kvs \<Rightarrow>
     (case fill_string [] (field_values H login_fields ''username'' kvs) of
        None \<Rightarrow> None
      | Some username \<Rightarrow>
     (case fill_string [] (field_values H login_fields ''password'' kvs) of
        None \<Rightarrow> None
      | Some password \<Rightarrow>
          if required username 100 \<and> required password 1024 then Some (username, password) else None)))"

definition request_metadata :: "gin_context \<Rightarrow> RequestMetadata" where
  "request_metadata c = \<lparr>RM_RequestID = GetRequestID c, RM_ClientIP = cx_ClientIP c,
     RM_UserAgent = cx_Header c ''User-Agent''\<rparr>"

definition login_error :: "go_error \<Rightarrow> outcome" where
  "login_error err =
     (if errors_Is err AuthErrInvalidCredentials
      then Error 401 40101 (sentinel_text AuthErrInvalidCredentials)
      else if errors_Is err AuthErrUserDisabled then Error 403 40301 (sentinel_text AuthErrUserDisabled)
      else InternalError)"

definition AuthHandler_Login :: "env \<Rightarrow> authlib \<Rightarrow> TokenManager \<Rightarrow> httplib \<Rightarrow> handler" where
  "AuthHandler_Login E A m H = with_body (loginRequest H) (\<lambda>(username, password) c.
     answer login_error 200 DataLogin
       (AuthService_Login E A (auth_repository E) m username password (request_metadata c)))"

definition me_error :: "go_error \<Rightarrow> outcome" where
  "me_error err = (if errors_Is err AuthErrUnauthenticated then unauthorized else InternalError)"

definition AuthHandler_Me :: "env \<Rightarrow> handler" where
  "AuthHandler_Me E c w =
     (case PrincipalFromContext c of
        None \<Rightarrow> (unauthorized, w)
      | Some p \<Rightarrow> answer me_error 200 DataUser (AuthService_Me (auth_repository E) (Pr_UserID p)) w)"

lemma auth_error_ok [simp]: "reply_ok (login_error err)" "reply_ok (me_error err)"
  by (simp_all add: login_error_def me_error_def)

lemma AuthHandler_ok:
  "handler_ok (AuthHandler_Login E A m H)" "handler_ok (AuthHandler_Me E)"
  unfolding AuthHandler_Login_def
  by (rule handler_ok_shapes) (auto simp: handler_ok_def answer_ok AuthHandler_Me_def split: option.split)

text \<open>What a login may write: a last login with its audit entry, or an audit entry of a refusal.\<close>

definition login_change :: "db \<Rightarrow> db \<Rightarrow> bool" where
  "login_change d d' \<longleftrightarrow> d' = d \<or> (\<exists>i l. Log_Outcome l = ''success'' \<and> login_effect i l d d') \<or>
     (\<exists>l. Log_Outcome l = ''failure'' \<and> log_effect l d d')"

lemma loginAudit_outcome [simp]: "Log_Outcome (loginAudit i n out f md) = out"
  by (simp add: loginAudit_def)

lemma login_outcome_change:
  assumes "login_outcome A C n password md d r d'"
  shows "login_change d d'"
proof (cases r)
  case (Inl e)
  then show ?thesis
    using assms unfolding login_outcome_def login_change_def
    by simp (metis loginAudit_outcome)
next
  case (Inr res)
  then show ?thesis
    using assms unfolding login_outcome_def login_change_def
    by simp (metis loginAudit_outcome)
qed

lemma Login_change:
  "login_change (w_db w) (w_db (snd (AuthService_Login E A (auth_repository E) m username password md w)))"
proof (cases "AuthService_Login E A (auth_repository E) m username password md w")
  case (Pair r w')
  from login_outcome_change [OF auth_repo.Login_outcome [OF Pair]] show ?thesis by (simp add: Pair)
qed

lemma AuthHandler_rel:
  assumes refl: "\<And>d. R d d" and "\<And>d d'. login_change d d' \<Longrightarrow> R d d'"
  shows "handler_rel R (AuthHandler_Login E A m H)" and "handler_rel R (AuthHandler_Me E)"
proof -
  show "handler_rel R (AuthHandler_Login E A m H)"
    unfolding AuthHandler_Login_def
    by (rule handler_rel_shapes [of R, OF refl])
       (auto simp: handler_rel_def answer_world assms(2) Login_change)
  have "w_db (snd (AuthService_Me (auth_repository E) i w)) = w_db w" for i w
    using auth_repo.Me_row(1) by (metis prod.collapse)
  then show "handler_rel R (AuthHandler_Me E)"
    by (auto simp: handler_rel_def AuthHandler_Me_def answer_world refl split: option.split)
qed

end
