(* ===== verification/Health.thy ===== *)
theory Health
  imports Http
begin

text \<open>
  \<open>internal/health\<close> and \<open>internal/workerhealth\<close>: liveness and readiness of the two
  processes. A dependency checker is its name and its answer at a point in time; the map of
  dependencies is a list of pairs in which a later checker of the same name wins.
\<close>

type_synonym checker = "string \<times> (world, unit) op"

definition map_store :: "string \<Rightarrow> string \<Rightarrow> (string \<times> string) list \<Rightarrow> (string \<times> string) list" where
  "map_store k v m = filter (\<lambda>(k', _). k' \<noteq> k) m @ [(k, v)]"

fun check_all :: "checker list \<Rightarrow> (string \<times> string) list \<Rightarrow> bool \<Rightarrow> world \<Rightarrow> ((string \<times> string) list \<times> bool) \<times> world" where
  "check_all [] dependencies ready w = ((dependencies, ready), w)"
| "check_all ((name, chk) # cs) dependencies ready w =
     (case chk w of
        (Inl err, w') \<Rightarrow> check_all cs (map_store name ''unavailable'' dependencies) False w'
      | (Inr _, w') \<Rightarrow> check_all cs (map_store name ''ready'' dependencies) ready w')"

definition Health_Health :: handler where
  "Health_Health c w = (Success 200 (DataAlive ''alive''), w)"

definition Health_Ready :: "checker list \<Rightarrow> handler" where
  "Health_Ready checkers c w =
     (let ((dependencies, ready), w') = check_all checkers [] True w
      in (if ready then Success 200 (DataReady ''ready'' dependencies)
          else Success 503 (DataReady ''not_ready'' dependencies), w'))"

text \<open>The worker's handlers write the same envelope through \<open>net/http\<close>.\<close>

definition worker_write :: "int \<Rightarrow> payload \<Rightarrow> outcome" where
  "worker_write status data = Replied \<lparr>rp_Status = status,
     rp_Body = \<lparr>Env_Code = 0, Env_Message = ''success'', Env_Data = data\<rparr>, rp_RequestID = None\<rparr>"

definition WorkerHealth_Health :: handler where
  "WorkerHealth_Health c w = (worker_write 200 (DataAlive ''alive''), w)"

definition WorkerHealth_Ready :: "checker list \<Rightarrow> handler" where
  "WorkerHealth_Ready checkers c w =
     (let ((dependencies, ready), w') = check_all checkers [] True w
      in (worker_write (if ready then 200 else 503)
            (DataReady (if ready then ''ready'' else ''not_ready'') dependencies), w'))"

text \<open>The answers of the checkers, each at the state the one before left.\<close>

fun answers :: "checker list \<Rightarrow> world \<Rightarrow> (string \<times> bool) list" where
  "answers [] w = []"
| "answers ((name, chk) # cs) w = (let (r, w') = chk w in (name, r = Inr ()) # answers cs w')"

lemma check_all_ready:
  "snd (fst (check_all cs ds ready w)) \<longleftrightarrow> ready \<and> list_all snd (answers cs w)"
  by (induction cs ds ready w rule: check_all.induct)
     (auto simp: Let_def split: prod.splits sum.splits)

lemma map_store_lookup: "map_of (map_store k v m) j = (if j = k then Some v else map_of m j)"
  by (induction m) (auto simp: map_store_def)

definition state_text :: "bool \<Rightarrow> string" where
  "state_text b = (if b then ''ready'' else ''unavailable'')"

lemma check_all_deps:
  "map_of (fst (fst (check_all cs ds ready w))) j =
     (case map_of (rev (answers cs w)) j of None \<Rightarrow> map_of ds j | Some b \<Rightarrow> Some (state_text b))"
proof (induction cs arbitrary: ds ready w)
  case Nil
  show ?case by simp
next
  case (Cons ch cs)
  obtain name chk where ch: "ch = (name, chk)" by (cases ch)
  obtain r w' where run: "chk w = (r, w')" by (metis surj_pair)
  show ?case
    using Cons.IH [of _ _ w'] run
    by (cases r) (auto simp: ch map_store_lookup state_text_def split: option.split)
qed

lemma Health_ok: "handler_ok Health_Health" "handler_ok (Health_Ready checkers)"
  by (auto simp: handler_ok_def Health_Health_def Health_Ready_def Let_def split: prod.split)

lemma Health_worker: "WorkerHealth_Health = Health_Health" "WorkerHealth_Ready = Health_Ready"
  by (auto simp: fun_eq_iff WorkerHealth_Health_def Health_Health_def WorkerHealth_Ready_def Health_Ready_def
      worker_write_def Success_def Let_def split: prod.split)

lemma check_all_reads:
  assumes "\<And>name chk w. (name, chk) \<in> set cs \<Longrightarrow> w_db (snd (chk w)) = w_db w"
  shows "w_db (snd (check_all cs ds ready w)) = w_db w"
  using assms
proof (induction cs arbitrary: ds ready w)
  case Nil
  show ?case by simp
next
  case (Cons ch cs)
  obtain name chk where ch: "ch = (name, chk)" by (cases ch)
  obtain r w' where run: "chk w = (r, w')" by (metis surj_pair)
  have "w_db w' = w_db w" using Cons.prems [of name chk w] ch run by simp
  moreover have "w_db (snd (check_all cs ds ready w')) = w_db w'" for ds ready
    by (rule Cons.IH) (use Cons.prems in auto)
  ultimately show ?case using ch run by (cases r) simp_all
qed

lemma readiness:
  "(\<exists>ds. fst (Health_Ready checkers c w) =
      (if list_all snd (answers checkers w) then Success 200 (DataReady ''ready'' ds)
       else Success 503 (DataReady ''not_ready'' ds)) \<and>
      map_of ds = map_option state_text \<circ> map_of (rev (answers checkers w))) \<and>
   WorkerHealth_Ready checkers c w = Health_Ready checkers c w"
proof -
  obtain ds ready w' where run: "check_all checkers [] True w = ((ds, ready), w')" by (metis surj_pair)
  have "ready \<longleftrightarrow> list_all snd (answers checkers w)" using check_all_ready [of checkers "[]" True w] run by simp
  moreover have "map_of ds = map_option state_text \<circ> map_of (rev (answers checkers w))"
    using check_all_deps [of checkers "[]" True w] run by (auto simp: fun_eq_iff split: option.splits)
  ultimately show ?thesis using run by (auto simp: Health_Ready_def Health_worker)
qed

end
