(* ===== verification/Router.thy ===== *)
theory Router
  imports ProbeHandler IncidentHandler AuthHandler Health
begin

text \<open>
  \<open>internal/httpserver/router.go\<close> and the way \<open>cmd/api\<close> fills it: the routes, the
  middlewares around them, and a request served by them. The matching of a method and a path
  against the registered routes is gin's: a parameter that answers with the number of the route
  and the value of its path parameter, or with nothing.
\<close>

section \<open>Routes\<close>

record route =
  ro_Method :: string
  ro_Path :: string
  ro_Handler :: handler

definition route :: "string \<Rightarrow> string \<Rightarrow> handler \<Rightarrow> route" where
  "route meth path h = \<lparr>ro_Method = meth, ro_Path = path, ro_Handler = h\<rparr>"

abbreviation "GET \<equiv> route ''GET''"
abbreviation "POST \<equiv> route ''POST''"
abbreviation "PUT \<equiv> route ''PUT''"
abbreviation "DELETE \<equiv> route ''DELETE''"

text \<open>A group of routes under a prefix, behind a middleware.\<close>

definition group :: "string \<Rightarrow> (handler \<Rightarrow> handler) \<Rightarrow> route list \<Rightarrow> route list" where
  "group pfx mw rs = map (\<lambda>r. route (ro_Method r) (pfx @ ro_Path r) (mw (ro_Handler r))) rs"

record health_handlers =
  hh_Health :: handler
  hh_Ready :: handler

record auth_handlers =
  ah_Login :: handler
  ah_Me :: handler

record asset_handlers =
  as_CreateHost :: handler
  as_ListHosts :: handler
  as_GetHost :: handler
  as_UpdateHost :: handler
  as_DisableHost :: handler
  as_CreateService :: handler
  as_ListServices :: handler
  as_GetService :: handler
  as_UpdateService :: handler
  as_DisableService :: handler

record probe_handlers =
  ph_Create :: handler
  ph_List :: handler
  ph_Get :: handler
  ph_Update :: handler
  ph_Disable :: handler
  ph_ListResults :: handler
  ph_GetResult :: handler

record incident_handlers =
  ih_Webhook :: handler
  ih_List :: handler
  ih_Get :: handler
  ih_Acknowledge :: handler
  ih_Process :: handler
  ih_Close :: handler

record Modules =
  mo_AuthHandler :: "auth_handlers option"
  mo_AuthMiddleware :: "(handler \<Rightarrow> handler) option"
  mo_AssetHandler :: "asset_handlers option"
  mo_ProbeHandler :: "probe_handlers option"
  mo_MetricsHandler :: "handler option"
  mo_IncidentHandler :: "incident_handlers option"
  mo_MachineAuth :: "(handler \<Rightarrow> handler) option"

definition asset_routes :: "asset_handlers \<Rightarrow> route list" where
  "asset_routes h =
     [POST ''/hosts'' (as_CreateHost h), GET ''/hosts'' (as_ListHosts h), GET ''/hosts/:id'' (as_GetHost h),
      PUT ''/hosts/:id'' (as_UpdateHost h), DELETE ''/hosts/:id'' (as_DisableHost h),
      POST ''/services'' (as_CreateService h), GET ''/services'' (as_ListServices h),
      GET ''/services/:id'' (as_GetService h), PUT ''/services/:id'' (as_UpdateService h),
      DELETE ''/services/:id'' (as_DisableService h)]"

definition probe_routes :: "probe_handlers \<Rightarrow> route list" where
  "probe_routes h =
     [POST ''/probe-tasks'' (ph_Create h), GET ''/probe-tasks'' (ph_List h), GET ''/probe-tasks/:id'' (ph_Get h),
      PUT ''/probe-tasks/:id'' (ph_Update h), DELETE ''/probe-tasks/:id'' (ph_Disable h),
      GET ''/probe-results'' (ph_ListResults h), GET ''/probe-results/:id'' (ph_GetResult h)]"

definition incident_routes :: "incident_handlers \<Rightarrow> route list" where
  "incident_routes h =
     [GET ''/incidents'' (ih_List h), GET ''/incidents/:id'' (ih_Get h),
      POST ''/incidents/:id/acknowledge'' (ih_Acknowledge h), POST ''/incidents/:id/process'' (ih_Process h),
      POST ''/incidents/:id/close'' (ih_Close h)]"

abbreviation optional :: "'a option \<Rightarrow> ('a \<Rightarrow> route list) \<Rightarrow> route list" where
  "optional x f \<equiv> (case x of None \<Rightarrow> [] | Some y \<Rightarrow> f y)"

definition NewRouter :: "health_handlers \<Rightarrow> Modules option \<Rightarrow> route list" where
  "NewRouter health modules =
     [GET ''/healthz'' (hh_Health health), GET ''/readyz'' (hh_Ready health)] @
     optional modules (\<lambda>m.
       optional (mo_MetricsHandler m) (\<lambda>h. [GET ''/metrics'' h]) @
       optional (mo_IncidentHandler m) (\<lambda>h. optional (mo_MachineAuth m) (\<lambda>mw.
         [POST ''/api/v1/alerts/webhook'' (mw (ih_Webhook h))])) @
       optional (mo_AuthHandler m) (\<lambda>ah.
         group ''/api/v1'' (\<lambda>h. h) (
           [POST ''/auth/login'' (ah_Login ah)] @
           optional (mo_AuthMiddleware m) (\<lambda>mw.
             group [] mw (
               [GET ''/users/me'' (ah_Me ah)] @
               optional (mo_AssetHandler m) asset_routes @
               optional (mo_ProbeHandler m) probe_routes @
               optional (mo_IncidentHandler m) incident_routes)))))"

section \<open>The server\<close>

record server =
  sv_env :: env
  sv_lib :: golib
  sv_http :: httplib
  sv_auth :: authlib
  sv_tokens :: TokenManager
  sv_webhook_token :: string
  sv_pings :: "(string \<times> (world \<Rightarrow> go_error option)) list"
  sv_metrics :: "gin_context \<Rightarrow> world \<Rightarrow> outcome"
  sv_gin_route :: "(string \<times> string) list \<Rightarrow> string \<Rightarrow> string \<Rightarrow> (nat \<times> string) option"
  sv_gin_no_route :: "gin_context \<Rightarrow> outcome"

definition ping_op :: "(world \<Rightarrow> go_error option) \<Rightarrow> (world, unit) op" where
  "ping_op ping w = (case ping w of None \<Rightarrow> Inr () | Some e \<Rightarrow> Inl e, tick w)"

definition api_checkers :: "server \<Rightarrow> checker list" where
  "api_checkers sv = map (\<lambda>(name, ping). (name, ping_op ping)) (sv_pings sv)"

definition api_health :: "server \<Rightarrow> health_handlers" where
  "api_health sv = \<lparr>hh_Health = Health_Health, hh_Ready = Health_Ready (api_checkers sv)\<rparr>"

definition api_modules :: "server \<Rightarrow> Modules" where
  "api_modules sv = (let E = sv_env sv; L = sv_lib sv; H = sv_http sv; A = sv_auth sv; m = sv_tokens sv in
   \<lparr>mo_AuthHandler = Some \<lparr>ah_Login = AuthHandler_Login E A m H, ah_Me = AuthHandler_Me E\<rparr>,
    mo_AuthMiddleware = Some (AuthMiddleware E A m),
    mo_AssetHandler = Some \<lparr>as_CreateHost = AssetHandler_CreateHost E H, as_ListHosts = AssetHandler_ListHosts E,
      as_GetHost = AssetHandler_GetHost E, as_UpdateHost = AssetHandler_UpdateHost E H,
      as_DisableHost = AssetHandler_DisableHost E, as_CreateService = AssetHandler_CreateService E L H,
      as_ListServices = AssetHandler_ListServices E, as_GetService = AssetHandler_GetService E,
      as_UpdateService = AssetHandler_UpdateService E L H, as_DisableService = AssetHandler_DisableService E\<rparr>,
    mo_ProbeHandler = Some \<lparr>ph_Create = ProbeHandler_Create E H, ph_List = ProbeHandler_List E,
      ph_Get = ProbeHandler_Get E, ph_Update = ProbeHandler_Update E H, ph_Disable = ProbeHandler_Disable E,
      ph_ListResults = ProbeHandler_ListResults E, ph_GetResult = ProbeHandler_GetResult E\<rparr>,
    mo_MetricsHandler = Some (\<lambda>c w. (sv_metrics sv c w, tick w)),
    mo_IncidentHandler = Some \<lparr>ih_Webhook = IncidentHandler_Webhook E L H, ih_List = IncidentHandler_List E,
      ih_Get = IncidentHandler_Get E, ih_Acknowledge = IncidentHandler_Acknowledge E,
      ih_Process = IncidentHandler_Process E, ih_Close = IncidentHandler_Close E\<rparr>,
    mo_MachineAuth = Some (MachineAuth (sv_webhook_token sv))\<rparr>)"

definition api_routes :: "server \<Rightarrow> route list" where
  "api_routes sv = NewRouter (api_health sv) (Some (api_modules sv))"

text \<open>The route that a request reaches, with the value of its path parameter.\<close>

definition matched :: "server \<Rightarrow> string \<Rightarrow> string \<Rightarrow> (route \<times> string) option" where
  "matched sv meth path =
     (case sv_gin_route sv (map (\<lambda>r. (ro_Method r, ro_Path r)) (api_routes sv)) meth path of
        None \<Rightarrow> None
      | Some (k, i) \<Rightarrow> if k < length (api_routes sv) then Some (api_routes sv ! k, i) else None)"

definition dispatch :: "server \<Rightarrow> string \<Rightarrow> string \<Rightarrow> handler" where
  "dispatch sv meth path c w =
     (case matched sv meth path of
        None \<Rightarrow> (sv_gin_no_route sv c, w)
      | Some (r, i) \<Rightarrow> ro_Handler r (c\<lparr>cx_Param_id := i\<rparr>) w)"

text \<open>
  The middlewares around every request. The access log and the request counters, which lie
  between them, only observe the reply.
\<close>

definition serve :: "server \<Rightarrow> string \<Rightarrow> string \<Rightarrow> handler" where
  "serve sv meth path = RequestID (newRequestID (sv_env sv)) (Recovery (dispatch sv meth path))"

text \<open>What the access log and the counters of requests record of a reply.\<close>

definition request_labels :: "string \<Rightarrow> string \<Rightarrow> reply \<Rightarrow> string list" where
  "request_labels meth fullPath p = [meth, if fullPath = [] then ''unmatched'' else fullPath, Itoa (rp_Status p)]"

section \<open>Facts\<close>

lemma group_mem: "r \<in> set (group pfx mw rs) \<longleftrightarrow> (\<exists>r'\<in>set rs. r = route (ro_Method r') (pfx @ ro_Path r') (mw (ro_Handler r')))"
  by (auto simp: group_def)

lemma route_fields [simp]:
  "ro_Method (route m p h) = m" "ro_Path (route m p h) = p" "ro_Handler (route m p h) = h"
  by (simp_all add: route_def)

text \<open>The routes of the API are the open ones, the webhook, and those behind a token.\<close>

definition open_routes :: "server \<Rightarrow> route list" where
  "open_routes sv =
     [GET ''/healthz'' (hh_Health (api_health sv)), GET ''/readyz'' (hh_Ready (api_health sv)),
      GET ''/metrics'' (\<lambda>c w. (sv_metrics sv c w, tick w)),
      POST ''/api/v1/auth/login'' (AuthHandler_Login (sv_env sv) (sv_auth sv) (sv_tokens sv) (sv_http sv))]"

definition token_routes :: "server \<Rightarrow> route list" where
  "token_routes sv =
     [GET ''/users/me'' (AuthHandler_Me (sv_env sv))] @
     asset_routes (the (mo_AssetHandler (api_modules sv))) @
     probe_routes (the (mo_ProbeHandler (api_modules sv))) @
     incident_routes (the (mo_IncidentHandler (api_modules sv)))"

lemma group_group: "group p f (group q g rs) = group (p @ q) (\<lambda>h. f (g h)) rs"
  by (simp add: group_def)

lemma group_append: "group p f (rs @ ss) = group p f rs @ group p f ss"
  by (simp add: group_def)

lemma api_routes_list:
  "api_routes sv = take 3 (open_routes sv) @
     [POST ''/api/v1/alerts/webhook'' (MachineAuth (sv_webhook_token sv)
        (IncidentHandler_Webhook (sv_env sv) (sv_lib sv) (sv_http sv)))] @
     drop 3 (open_routes sv) @
     group ''/api/v1'' (AuthMiddleware (sv_env sv) (sv_auth sv) (sv_tokens sv)) (token_routes sv)"
proof -
  have "group ''/api/v1'' (\<lambda>h. h) ([POST ''/auth/login'' h] @ rs) =
      POST ''/api/v1/auth/login'' h # group ''/api/v1'' (\<lambda>h. h) rs" for h rs
    by (simp add: group_def)
  then show ?thesis
    by (simp add: api_routes_def NewRouter_def api_modules_def Let_def open_routes_def token_routes_def group_group
        del: append.simps)
qed

lemma api_routes_cases:
  assumes "r \<in> set (api_routes sv)"
  shows "r \<in> set (open_routes sv) \<or>
    r = POST ''/api/v1/alerts/webhook'' (MachineAuth (sv_webhook_token sv)
          (IncidentHandler_Webhook (sv_env sv) (sv_lib sv) (sv_http sv))) \<or>
    (\<exists>r'\<in>set (token_routes sv). r = route (ro_Method r') (''/api/v1'' @ ro_Path r')
       (AuthMiddleware (sv_env sv) (sv_auth sv) (sv_tokens sv) (ro_Handler r')))"
  using assms unfolding api_routes_list
  by (simp only: set_append Un_iff group_mem) (auto dest: in_set_takeD in_set_dropD)

lemma token_routes_ok: "r \<in> set (token_routes sv) \<Longrightarrow> handler_ok (ro_Handler r)"
  by (auto simp: token_routes_def api_modules_def Let_def asset_routes_def probe_routes_def incident_routes_def
      AssetHandler_ok ProbeHandler_ok IncidentHandler_ok AuthHandler_ok)

end
