(* ===== verification/ServerSpec.thy ===== *)
theory ServerSpec
  imports Router
begin

text \<open>
  Properties of the API as a whole: every request keeps the invariants of all tables, every
  reply is well formed, and nothing behind the authentication happens without it.
\<close>

section \<open>What one request may do to the database\<close>

definition server_change :: "server \<Rightarrow> db \<Rightarrow> db \<Rightarrow> bool" where
  "server_change sv d d' \<longleftrightarrow> login_change d d' \<or>
     (\<exists>req w. w_db w = d \<and> d' = w_db (run_fleet (sv_env sv) (sv_lib sv) req w)) \<or>
     (\<exists>req w. w_db w = d \<and> d' = w_db (run_incident (sv_env sv) (sv_lib sv) req w))"

lemma server_change_refl: "server_change sv d d"
  by (simp add: server_change_def login_change_def)

lemma server_change_closed:
  "fleet_closed (sv_env sv) (sv_lib sv) (server_change sv)"
  "incident_closed (sv_env sv) (sv_lib sv) (server_change sv)"
  "login_change d d' \<Longrightarrow> server_change sv d d'"
  using server_change_refl by (auto simp: fleet_closed_def incident_closed_def server_change_def)

lemma matched_mem: "matched sv meth path = Some (r, i) \<Longrightarrow> r \<in> set (api_routes sv)"
  by (auto simp: matched_def split: option.splits if_splits)

lemma api_health_rel:
  assumes "\<And>d. R d d"
  shows "handler_rel R (hh_Health (api_health sv))" "handler_rel R (hh_Ready (api_health sv))"
proof -
  show "handler_rel R (hh_Health (api_health sv))"
    using assms by (simp add: api_health_def handler_rel_def Health_Health_def)
  have "w_db (snd (chk w)) = w_db w" if "(name, chk) \<in> set (api_checkers sv)" for name chk w
    using that by (auto simp: api_checkers_def ping_op_def)
  then have "w_db (snd (check_all (api_checkers sv) [] True w)) = w_db w" for w
    by (rule check_all_reads)
  then have chk: "check_all (api_checkers sv) [] True w = (x, w') \<Longrightarrow> w_db w' = w_db w" for x w w'
    by (metis snd_conv)
  show "handler_rel R (hh_Ready (api_health sv))"
    using assms by (auto simp: api_health_def handler_rel_def Health_Ready_def Let_def dest: chk split: prod.split)
qed

lemma token_routes_rel:
  assumes "r \<in> set (token_routes sv)"
  shows "handler_rel (server_change sv) (ro_Handler r)"
  using assms AssetHandler_rel [OF server_change_closed(1)] ProbeHandler_rel [OF server_change_closed(1)]
    IncidentHandler_rel [OF server_change_closed(2)]
    AuthHandler_rel [of "server_change sv", OF server_change_refl server_change_closed(3)]
  by (auto simp: token_routes_def api_modules_def Let_def asset_routes_def probe_routes_def incident_routes_def)

lemma open_routes_rel:
  assumes "r \<in> set (open_routes sv)"
  shows "handler_rel (server_change sv) (ro_Handler r)"
  using assms api_health_rel [of "server_change sv", OF server_change_refl]
    AuthHandler_rel [of "server_change sv", OF server_change_refl server_change_closed(3)]
  by (auto simp: open_routes_def handler_rel_def server_change_refl)

lemma api_routes_rel:
  assumes "r \<in> set (api_routes sv)"
  shows "handler_rel (server_change sv) (ro_Handler r)"
  using api_routes_cases [OF assms]
proof (elim disjE bexE)
  assume "r \<in> set (open_routes sv)"
  then show ?thesis by (rule open_routes_rel)
next
  assume "r = POST ''/api/v1/alerts/webhook'' (MachineAuth (sv_webhook_token sv)
          (IncidentHandler_Webhook (sv_env sv) (sv_lib sv) (sv_http sv)))"
  then show ?thesis
    using middlewares_rel(4) [of "server_change sv", OF IncidentHandler_rel(1) [OF server_change_closed(2)] server_change_refl]
    by simp
next
  fix r' assume "r' \<in> set (token_routes sv)"
    and "r = route (ro_Method r') (''/api/v1'' @ ro_Path r')
       (AuthMiddleware (sv_env sv) (sv_auth sv) (sv_tokens sv) (ro_Handler r'))"
  then show ?thesis
    using middlewares_rel(3) [of "server_change sv", OF token_routes_rel server_change_refl] by simp
qed

lemma dispatch_rel: "handler_rel (server_change sv) (dispatch sv meth path)"
  using api_routes_rel [OF matched_mem]
  by (auto simp: handler_rel_def dispatch_def server_change_refl split: option.split)

lemma serve_rel: "handler_rel (server_change sv) (serve sv meth path)"
  unfolding serve_def
  by (intro middlewares_rel dispatch_rel server_change_refl)

section \<open>The invariant of the database under requests\<close>

definition server_inv :: "server \<Rightarrow> db \<Rightarrow> bool" where
  "server_inv sv d \<longleftrightarrow> fleet_inv (env_coll (sv_env sv)) (sv_lib sv) d \<and> incidents_inv (sv_env sv) d"

lemma fleet_inv_same:
  "T_hosts d' = T_hosts d \<Longrightarrow> T_services d' = T_services d \<Longrightarrow> T_tasks d' = T_tasks d \<Longrightarrow>
     fleet_inv C L d' = fleet_inv C L d"
  by (simp add: fleet_inv_def keys_unique_def rows_ok_def services_supported_def tasks_supported_def)

lemma incidents_inv_same: "T_incidents d' = T_incidents d \<Longrightarrow> incidents_inv E d' = incidents_inv E d"
  by (simp add: incidents_inv_def)

lemma login_change_fields:
  assumes "login_change d d'"
  shows "T_hosts d' = T_hosts d \<and> T_services d' = T_services d \<and> T_tasks d' = T_tasks d \<and>
    T_results d' = T_results d \<and> T_incidents d' = T_incidents d \<and>
    map (\<lambda>u. (User_ID u, User_Username u, User_PasswordHash u, User_Status u)) (T_users d') =
    map (\<lambda>u. (User_ID u, User_Username u, User_PasswordHash u, User_Status u)) (T_users d)"
  using assms by (auto simp: login_change_def login_effect_def log_effect_def)

text \<open>Besides the invariants: the results of executions and the accounts of users are never
  touched by a request, and audit entries are only added.\<close>

definition server_frame :: "db \<Rightarrow> db \<Rightarrow> bool" where
  "server_frame d d' \<longleftrightarrow> T_results d' = T_results d \<and> prefix (T_audit_logs d) (T_audit_logs d') \<and>
    map (\<lambda>u. (User_ID u, User_Username u, User_PasswordHash u, User_Status u)) (T_users d') =
    map (\<lambda>u. (User_ID u, User_Username u, User_PasswordHash u, User_Status u)) (T_users d)"

lemma server_change_inv:
  assumes "server_change sv d d'" and "server_inv sv d"
  shows "server_inv sv d'"
  using assms(1) unfolding server_change_def
proof (elim disjE exE conjE)
  assume "login_change d d'"
  then show ?thesis
    using assms(2) login_change_fields [of d d'] fleet_inv_same [of d' d] incidents_inv_same [of d' d]
    by (simp add: server_inv_def)
next
  fix req w assume "w_db w = d" "d' = w_db (run_fleet (sv_env sv) (sv_lib sv) req w)"
  then show ?thesis
    using assms(2) run_fleet_inv [of "sv_env sv" "sv_lib sv" w req]
      run_fleet_audited [of w "sv_env sv" "sv_lib sv" req] incidents_inv_same [of d' d]
    by (simp add: server_inv_def audited_change_def)
next
  fix req w assume "w_db w = d" "d' = w_db (run_incident (sv_env sv) (sv_lib sv) req w)"
  then show ?thesis
    using assms(2) run_incident_good [of "sv_env sv" w "sv_lib sv" req] fleet_inv_same [of d' d]
    by (simp add: server_inv_def incident_good_def only_incidents_def)
qed

lemma server_change_frame:
  assumes "server_change sv d d'"
  shows "server_frame d d'"
  using assms unfolding server_change_def
proof (elim disjE exE conjE)
  assume "login_change d d'"
  then show ?thesis
    using login_change_fields [of d d'] by (auto simp: server_frame_def login_change_def login_effect_def log_effect_def)
next
  fix req w assume "w_db w = d" "d' = w_db (run_fleet (sv_env sv) (sv_lib sv) req w)"
  then show ?thesis
    using run_fleet_audited [of w "sv_env sv" "sv_lib sv" req] by (auto simp: server_frame_def audited_change_def)
next
  fix req w assume "w_db w = d" "d' = w_db (run_incident (sv_env sv) (sv_lib sv) req w)"
  then show ?thesis
    using run_incident_good [of "sv_env sv" w "sv_lib sv" req]
    by (simp add: server_frame_def incident_good_def only_incidents_def)
qed

text \<open>A sequence of requests: method, path and context of each.\<close>

definition serve_all :: "server \<Rightarrow> (string \<times> string \<times> gin_context) list \<Rightarrow> world \<Rightarrow> world" where
  "serve_all sv reqs w = fold (\<lambda>(meth, path, c) w. snd (serve sv meth path c w)) reqs w"

lemma serve_all_induct:
  assumes "I (w_db w)" and "\<And>d d'. server_change sv d d' \<Longrightarrow> I d \<Longrightarrow> I d'"
  shows "I (w_db (serve_all sv reqs w))"
  using assms(1)
proof (induction reqs arbitrary: w)
  case Nil
  then show ?case by (simp add: serve_all_def)
next
  case (Cons r reqs)
  obtain meth path c where r: "r = (meth, path, c)" by (metis surj_pair)
  have "server_change sv (w_db w) (w_db (snd (serve sv meth path c w)))"
    using serve_rel by (simp add: handler_rel_def)
  then show ?case
    using Cons.IH [of "snd (serve sv meth path c w)"] Cons.prems assms(2) r by (simp add: serve_all_def)
qed

lemma server_frame_refl: "server_frame d d"
  by (simp add: server_frame_def)

lemma server_frame_trans: "server_frame d1 d2 \<Longrightarrow> server_frame d2 d3 \<Longrightarrow> server_frame d1 d3"
  by (auto simp: server_frame_def)

lemma serve_all_frame: "server_frame (w_db w) (w_db (serve_all sv reqs w))"
  by (rule serve_all_induct [where I = "server_frame (w_db w)"])
     (auto intro: server_frame_refl server_frame_trans server_change_frame)

lemma serve_all_inv: "server_inv sv (w_db w) \<Longrightarrow> server_inv sv (w_db (serve_all sv reqs w))"
  by (rule serve_all_induct [where I = "server_inv sv"]) (auto intro: server_change_inv)

lemma serve_all_append: "serve_all sv (xs @ ys) w = serve_all sv ys (serve_all sv xs w)"
  by (simp add: serve_all_def)

text \<open>A database that holds nothing but users.\<close>

lemma server_inv_users: "server_inv sv (empty_db\<lparr>T_users := us\<rparr>)"
  using fleet_inv_empty [of "env_coll (sv_env sv)" "sv_lib sv"] incidents_inv_empty [of "sv_env sv"]
    fleet_inv_same [of "empty_db\<lparr>T_users := us\<rparr>" empty_db] incidents_inv_same [of "empty_db\<lparr>T_users := us\<rparr>" empty_db]
  by (simp add: server_inv_def)

section \<open>Authentication\<close>

definition bearer_accepted :: "server \<Rightarrow> gin_context \<Rightarrow> world \<Rightarrow> bool" where
  "bearer_accepted sv c w \<longleftrightarrow>
     (\<exists>scheme token p w'. split2 (CHR '' '') (cx_Header c ''Authorization'') = [scheme, token] \<and>
        equal_fold_ascii scheme ''Bearer'' \<and>
        TokenManager_Parse (sv_env sv) (sv_auth sv) (sv_tokens sv) (TrimSpace token) w = (Inr p, w'))"

definition machine_accepted :: "server \<Rightarrow> gin_context \<Rightarrow> bool" where
  "machine_accepted sv c \<longleftrightarrow> split2 (CHR '' '') (cx_Header c ''Authorization'') = [''Bearer'', sv_webhook_token sv]"

definition replied_success :: "outcome \<Rightarrow> bool" where
  "replied_success r \<longleftrightarrow> (case r of Panicked \<Rightarrow> False | Replied p \<Rightarrow> Env_Code (rp_Body p) = 0)"

lemma replied_success_simps [simp]:
  "\<not> replied_success unauthorized" "\<not> replied_success InternalError" "replied_success (with_request_id i r) = replied_success r"
  "replied_success (Error status code msg) \<longleftrightarrow> code = 0"
  by (auto simp: replied_success_def unauthorized_def InternalError_def Error_def with_request_id_def split: outcome.splits)

text \<open>A request had an effect when it got a success reply or changed the database.\<close>

definition effective :: "outcome \<times> world \<Rightarrow> world \<Rightarrow> bool" where
  "effective rw w \<longleftrightarrow> replied_success (fst rw) \<or> w_db (snd rw) \<noteq> w_db w"

lemma AuthMiddleware_effective:
  assumes "effective (AuthMiddleware (sv_env sv) (sv_auth sv) (sv_tokens sv) h c w) w"
  shows "bearer_accepted sv c w"
  using assms
  by (auto simp: effective_def AuthMiddleware_def bearer_accepted_def split: list.splits if_splits prod.splits sum.splits)
     (metis Parse_reads snd_conv)+

lemma MachineAuth_effective:
  "effective (MachineAuth (sv_webhook_token sv) h c w) w \<Longrightarrow> machine_accepted sv c"
  by (auto simp: effective_def MachineAuth_def machine_accepted_def split: list.splits if_splits)

lemma Recovery_effective:
  assumes "effective (Recovery h c w) w"
  shows "effective (h c w) w"
  using assms by (cases "h c w"; cases "fst (h c w)") (auto simp: effective_def Recovery_def)

lemma RequestID_effective:
  assumes "effective (RequestID (newRequestID E) h c w) w"
  shows "\<exists>i w1. w_db w1 = w_db w \<and> effective (h (c\<lparr>cx_RequestID := Some i\<rparr>) w1) w1"
proof -
  let ?i = "TrimSpace (cx_Header c RequestIDHeader)"
  show ?thesis
  proof (cases "?i = []")
    case False
    then show ?thesis
      using assms by (intro exI [of _ ?i] exI [of _ w]) (auto simp: effective_def RequestID_def Let_def split: prod.splits)
  next
    case True
    show ?thesis
    proof (cases "newRequestID E w")
      case (Pair r w1)
      have v: "w_db w1 = w_db w" by (rule newRequestID_reads [OF Pair])
      show ?thesis
      proof (cases r)
        case (Inl e)
        then show ?thesis using assms True Pair v by (simp add: effective_def RequestID_def)
      next
        case (Inr i)
        then show ?thesis
          using assms True Pair v
          by (intro exI [of _ i] exI [of _ w1]) (auto simp: effective_def RequestID_def Let_def split: prod.splits)
      qed
    qed
  qed
qed

definition open_paths :: "string set" where
  "open_paths = {''/healthz'', ''/readyz'', ''/metrics'', ''/api/v1/auth/login''}"

lemma open_routes_paths: "r \<in> set (open_routes sv) \<Longrightarrow> ro_Path r \<in> open_paths"
  by (auto simp: open_routes_def open_paths_def)

lemma serve_effective:
  assumes eff: "effective (serve sv meth path c w) w" and match: "matched sv meth path = Some (r, i)"
  shows "ro_Path r \<in> open_paths \<or>
    (ro_Path r = ''/api/v1/alerts/webhook'' \<and> machine_accepted sv c) \<or>
    (\<exists>w1. w_db w1 = w_db w \<and> bearer_accepted sv c w1)"
proof -
  obtain q w1 where w1: "w_db w1 = w_db w"
    and e: "effective (Recovery (dispatch sv meth path) (c\<lparr>cx_RequestID := Some q\<rparr>) w1) w1"
    using RequestID_effective [OF eff [unfolded serve_def]] by blast
  let ?c = "c\<lparr>cx_RequestID := Some q, cx_Param_id := i\<rparr>"
  have h: "effective (ro_Handler r ?c w1) w1"
    using Recovery_effective [OF e] match by (simp add: dispatch_def)
  have hd: "cx_Header ?c = cx_Header c" by simp
  from api_routes_cases [OF matched_mem [OF match]] show ?thesis
  proof (elim disjE bexE)
    assume r: "r = POST ''/api/v1/alerts/webhook'' (MachineAuth (sv_webhook_token sv)
          (IncidentHandler_Webhook (sv_env sv) (sv_lib sv) (sv_http sv)))"
    then have "machine_accepted sv ?c" using h MachineAuth_effective by simp
    then show ?thesis using r by (simp add: machine_accepted_def)
  next
    fix r' assume r: "r = route (ro_Method r') (''/api/v1'' @ ro_Path r')
       (AuthMiddleware (sv_env sv) (sv_auth sv) (sv_tokens sv) (ro_Handler r'))"
    then have "bearer_accepted sv ?c w1"
      using h AuthMiddleware_effective [of sv "ro_Handler r'" ?c w1] by simp
    then show ?thesis using w1 by (auto simp: bearer_accepted_def)
  qed (simp add: open_routes_paths)
qed

section \<open>Replies\<close>

lemma api_routes_ok:
  assumes "r \<in> set (api_routes sv)" and "ro_Path r \<noteq> ''/metrics''"
  shows "handler_ok (ro_Handler r)"
  using api_routes_cases [OF assms(1)]
proof (elim disjE bexE)
  assume "r \<in> set (open_routes sv)"
  then show ?thesis
    using assms(2) by (auto simp: open_routes_def api_health_def Health_ok AuthHandler_ok)
qed (auto simp: middlewares_ok IncidentHandler_ok token_routes_ok)

lemma serve_ok:
  assumes "matched sv meth path = Some (r, i)" and "ro_Path r \<noteq> ''/metrics''"
  shows "reply_ok (fst (serve sv meth path c w))"
proof -
  have "handler_ok (dispatch sv meth path)"
    using api_routes_ok [OF matched_mem [OF assms(1)] assms(2)] assms(1) by (simp add: handler_ok_def dispatch_def)
  then have "handler_ok (serve sv meth path)" unfolding serve_def by (intro middlewares_ok)
  then show ?thesis by (simp add: handler_ok_def)
qed

end
