(* ===== verification/System.thy ===== *)
theory System
  imports WorkerLoops ServerSpec
begin

text \<open>
  The whole program: the API server and the loops of the workers on one database and one
  stream, as sequences of actions. Every action is a sequence of steps of the pipeline, so
  that what is proved of the step relation holds in every state the program reaches.
\<close>

section \<open>Actions\<close>

datatype action =
    ActSchedule int "nat \<Rightarrow> go_error option"
  | ActRecover duration int "nat \<Rightarrow> go_error option"
  | ActRead string nat "nat option"
  | ActClaim string "nat list" "nat option"
  | ActWork "go_error option" nat
  | ActCrash nat
  | ActRequest string string gin_context
  | ActBootstrap string string

record workers =
  wk_idle :: duration
  wk_probes :: "world probes"
  wk_wait :: "world waiting"

text \<open>A worker that crashes loses the jobs in its memory.\<close>

definition drop_job :: "nat \<Rightarrow> pipeline \<Rightarrow> pipeline" where
  "drop_job n s = s\<lparr>pl_jobs := take n (pl_jobs s) @ drop (Suc n) (pl_jobs s)\<rparr>"

fun run_action :: "server \<Rightarrow> workers \<Rightarrow> action \<Rightarrow> pipeline \<Rightarrow> pipeline" where
  "run_action sv wk (ActSchedule batch pub) s = Scheduler_cycle (sv_env sv) (sv_lib sv) batch pub s"
| "run_action sv wk (ActRecover interval batch pub) s =
     RecoveryDispatcher_tick (sv_env sv) (sv_lib sv) interval batch pub s"
| "run_action sv wk (ActRead c n cancel) s = Consumer_read (sv_lib sv) c n cancel s"
| "run_action sv wk (ActClaim c claimed cancel) s = Consumer_claim (sv_lib sv) c claimed cancel s"
| "run_action sv wk (ActWork ackError n) s =
     Consumer_work (sv_env sv) (wk_idle wk) (wk_probes wk) (wk_wait wk) ackError n s"
| "run_action sv wk (ActCrash n) s = drop_job n s"
| "run_action sv wk (ActRequest meth path c) s = s\<lparr>pl_world := snd (serve sv meth path c (pl_world s))\<rparr>"
| "run_action sv wk (ActBootstrap username password) s =
     s\<lparr>pl_world := snd (Bootstrap (sv_auth sv) (auth_repository (sv_env sv)) username password (pl_world s))\<rparr>"

definition run_actions :: "server \<Rightarrow> workers \<Rightarrow> action list \<Rightarrow> pipeline \<Rightarrow> pipeline" where
  "run_actions sv wk acts s = fold (run_action sv wk) acts s"

text \<open>The probes and the timers of the workers do not touch the database.\<close>

definition probes_off_db :: "workers \<Rightarrow> bool" where
  "probes_off_db wk \<longleftrightarrow>
     (\<forall>tm tg w. w_db (snd (probe_http (wk_probes wk) tm tg w)) = w_db w) \<and>
     (\<forall>tm tg w. w_db (snd (probe_tcp (wk_probes wk) tm tg w)) = w_db w) \<and>
     (\<forall>dl w. w_db (snd (wk_wait wk dl w)) = w_db w)"

section \<open>Actions are steps\<close>

lemma request_steps:
  assumes "server_change sv (w_db (pl_world s)) (w_db w')"
  shows "(pipe_step (sv_env sv) (sv_lib sv) idle)\<^sup>*\<^sup>* s (s\<lparr>pl_world := w'\<rparr>)"
  using assms unfolding server_change_def
proof (elim disjE exE conjE)
  assume "login_change (w_db (pl_world s)) (w_db w')"
  then have "pipe_step (sv_env sv) (sv_lib sv) idle s (s\<lparr>pl_world := w'\<rparr>)"
    using login_change_fields by (intro pipe_step.elsewhere) auto
  then show ?thesis by (rule r_into_rtranclp)
next
  fix req w assume w: "w_db w = w_db (pl_world s)" "w_db w' = w_db (run_fleet (sv_env sv) (sv_lib sv) req w)"
  let ?r = "pipe_step (sv_env sv) (sv_lib sv) idle"
  have "?r s (s\<lparr>pl_world := w\<rparr>)" by (rule pipe_world) (rule w(1))
  moreover have "?r (s\<lparr>pl_world := w\<rparr>) (s\<lparr>pl_world := run_fleet (sv_env sv) (sv_lib sv) req w\<rparr>)"
    using pipe_step.fleet [of "sv_env sv" "sv_lib sv" idle "s\<lparr>pl_world := w\<rparr>" req] by simp
  moreover have "?r (s\<lparr>pl_world := run_fleet (sv_env sv) (sv_lib sv) req w\<rparr>) (s\<lparr>pl_world := w'\<rparr>)"
    using pipe_world [of w' "s\<lparr>pl_world := run_fleet (sv_env sv) (sv_lib sv) req w\<rparr>"] w(2) by simp
  ultimately show ?thesis by (meson r_into_rtranclp steps_then)
next
  fix req w assume w: "w_db w = w_db (pl_world s)" "w_db w' = w_db (run_incident (sv_env sv) (sv_lib sv) req w)"
  then have "pipe_step (sv_env sv) (sv_lib sv) idle s (s\<lparr>pl_world := w'\<rparr>)"
    using run_incident_good [of "sv_env sv" w "sv_lib sv" req]
    by (intro pipe_step.elsewhere) (simp_all add: incident_good_def only_incidents_def)
  then show ?thesis by (rule r_into_rtranclp)
qed

lemma drop_job_steps: "(pipe_step E L idle)\<^sup>*\<^sup>* s (drop_job n s)"
proof (cases "n < length (pl_jobs s)")
  case True
  then have "pl_jobs s = take n (pl_jobs s) @ pl_jobs s ! n # drop (Suc n) (pl_jobs s)" by (simp add: id_take_nth_drop)
  then have "pipe_step E L idle s (drop_job n s)" unfolding drop_job_def by (rule pipe_step.lose)
  then show ?thesis by (rule r_into_rtranclp)
next
  case False
  then show ?thesis by (simp add: drop_job_def)
qed

lemma run_action_steps:
  assumes "probes_off_db wk"
  shows "(pipe_step (sv_env sv) (sv_lib sv) (wk_idle wk))\<^sup>*\<^sup>* s (run_action sv wk act s)"
proof (cases act)
  case (ActWork ackError n)
  then show ?thesis using Consumer_work_steps [of "wk_probes wk" "wk_wait wk"] assms by (simp add: probes_off_db_def)
next
  case (ActRequest meth path c)
  have "server_change sv (w_db (pl_world s)) (w_db (snd (serve sv meth path c (pl_world s))))"
    using serve_rel by (simp add: handler_rel_def)
  then show ?thesis using request_steps ActRequest by simp
next
  case (ActBootstrap username password)
  obtain r w' where run: "Bootstrap (sv_auth sv) (auth_repository (sv_env sv)) username password (pl_world s) = (r, w')"
    by (metis surj_pair)
  have "pipe_step (sv_env sv) (sv_lib sv) (wk_idle wk) s (s\<lparr>pl_world := w'\<rparr>)"
    using auth_repo.Bootstrap_effect(1) [OF run] by (intro pipe_step.elsewhere) (auto simp: user_effect_def)
  then show ?thesis using run ActBootstrap by (simp add: r_into_rtranclp)
qed (simp_all add: Scheduler_cycle_steps RecoveryDispatcher_steps Consumer_read_steps Consumer_claim_steps drop_job_steps)

lemma run_actions_steps:
  assumes "probes_off_db wk"
  shows "(pipe_step (sv_env sv) (sv_lib sv) (wk_idle wk))\<^sup>*\<^sup>* s (run_actions sv wk acts s)"
  unfolding run_actions_def
proof (induction acts arbitrary: s)
  case Nil
  show ?case by simp
next
  case (Cons a acts)
  show ?case
    using rtranclp_trans [OF run_action_steps [OF assms] Cons] by simp
qed

lemma run_actions_inv:
  assumes "probes_off_db wk" and "w_db w = empty_db"
  shows "pipe_inv (sv_env sv) (sv_lib sv) (run_actions sv wk acts (pipe_start w))"
  by (rule pipe_steps_inv [OF run_actions_steps [OF assms(1)] pipe_inv_start [OF assms(2)]])

end
