(* ===== verification/Completion.thy ===== *)
theory Completion
  imports System
begin

text \<open>
  From every state that the program reaches, an execution that a dead worker left running can be
  completed: its message is still pending, one turn of a claimer and one of a worker take it over,
  make it final and acknowledge it. Here are the invariant that makes every execution
  processable and the effect of those two turns.
\<close>

section \<open>Executions can be processed\<close>

definition processable :: "db \<Rightarrow> Execution \<Rightarrow> bool" where
  "processable d x \<longleftrightarrow> (Exec_ProbeType x = TypeHTTP \<or> Exec_ProbeType x = TypeTCP) \<and>
     Exec_TaskID x \<in> Task_ID ` set (T_tasks d)"

definition all_processable :: "db \<Rightarrow> bool" where
  "all_processable d \<longleftrightarrow> (\<forall>x\<in>set (T_results d). processable d x)"

lemma processable_mono: "Task_ID ` set (T_tasks d) \<subseteq> Task_ID ` set (T_tasks d') \<Longrightarrow> processable d x \<Longrightarrow> processable d' x"
  by (auto simp: processable_def)

lemma all_processable_same:
  "T_results d' = T_results d \<Longrightarrow> Task_ID ` set (T_tasks d) \<subseteq> Task_ID ` set (T_tasks d') \<Longrightarrow>
     all_processable d \<Longrightarrow> all_processable d'"
  using processable_mono by (auto simp: all_processable_def)

lemma all_processable_map:
  assumes "d' = d\<lparr>T_results := map (\<lambda>x. if p x then f x else x) (T_results d)\<rparr>"
    and "\<And>x. Exec_ProbeType (f x) = Exec_ProbeType x \<and> Exec_TaskID (f x) = Exec_TaskID x"
    and "all_processable d"
  shows "all_processable d'"
  using assms by (auto simp: all_processable_def processable_def)

lemma validateTarget_kind: "validateTarget L kind target = None \<Longrightarrow> kind = TypeHTTP \<or> kind = TypeTCP"
  by (auto simp: validateTarget_def split: if_splits)

lemma schedule_processable:
  assumes "rows_inv E L (w_db w)" and "all_processable (w_db w)" and "ProbeRepo_ScheduleDue E batch now w = (r, w')"
  shows "all_processable (w_db w')"
proof -
  have w': "w' = snd (ProbeRepo_ScheduleDue E batch now w)" using assms(3) by simp
  have keys: "distinct (map Task_ID (T_tasks (w_db w)))" "distinct (map Svc_ID (T_services (w_db w)))"
    using rows_inv_keys [OF assms(1)] by auto
  show ?thesis
    unfolding w'
  proof (rule all_or_nothing_invariant [where I = all_processable, OF ScheduleDue_effect [OF keys] assms(2)])
    fix msgs d
    assume "\<exists>rows t. rows = due_rows E batch now t (w_db w) \<and> scheduled E now rows (w_db w) msgs d"
    then obtain t where eff: "scheduled E now (due_rows E batch now t (w_db w)) (w_db w) msgs d" by blast
    let ?rows = "due_rows E batch now t (w_db w)"
    obtain news ts where d: "d = (w_db w)\<lparr>T_tasks := ts, T_results := T_results (w_db w) @ news\<rparr>"
      and q: "list_all2 (\<lambda>(row, m) x. queued_for E row m x) (zip ?rows msgs) news"
      and adv: "list_all2 (task_advanced E now (due_ids ?rows)) (T_tasks (w_db w)) ts"
      using eff unfolding scheduled_def by blast
    have ids: "Task_ID ` set ts = Task_ID ` set (T_tasks (w_db w))"
      using arg_cong [OF task_advanced_ids [OF adv], of set] by simp
    have "processable d x" if x: "x \<in> set news" for x
    proof -
      obtain row m where row: "row \<in> set ?rows" and qx: "queued_for E row m x"
        using list_all2_mem2 [OF q x] by (auto dest: set_zip_leftD)
      have ok: "due_row_ok E now t (w_db w) row" by (rule due_rows_ok [OF row])
      then obtain s where s: "s \<in> set (T_services (w_db w))" "due_ServiceType row = Svc_Type s"
        by (auto simp: due_row_ok_def)
      then have "service_ok L s" using assms(1) by (simp add: rows_inv_def fleet_inv_def rows_ok_def)
      then have "due_ServiceType row = TypeHTTP \<or> due_ServiceType row = TypeTCP"
        using validateTarget_kind s(2) by (auto simp: service_ok_def)
      moreover have "Exec_ProbeType x = due_ServiceType row" "Exec_TaskID x = Task_ID (due_Task row)"
        using qx by (auto simp: queued_for_def results_table_def new_execution_def)
      ultimately show ?thesis using ok ids by (auto simp: processable_def d due_row_ok_def)
    qed
    moreover have "processable d x" if "x \<in> set (T_results (w_db w))" for x
      using assms(2) that ids by (auto simp: all_processable_def processable_def d)
    ultimately show "all_processable d" by (auto simp: all_processable_def d)
  qed
qed

lemma take_processable:
  assumes "process_take E idle i c w = (r, w')" and "all_processable (w_db w)"
  shows "all_processable (w_db w')"
proof -
  have "all_processable (w_db (snd (process_take E idle i c w)))"
  proof (rule all_or_nothing_invariant [where I = all_processable, OF process_take_effect assms(2)])
    fix d assume "\<exists>started u before. d = (w_db w)\<lparr>T_results := map (\<lambda>x. if acquirable E i before x
          then acquired_row E c started u x else x) (T_results (w_db w))\<rparr>"
    then show "all_processable d"
      by (elim exE) (erule all_processable_map, simp_all add: acquired_row_def assms(2))
  qed
  then show ?thesis using assms(1) by simp
qed

lemma settle_processable:
  assumes "process_settle E i c started result attempts w = (r, w')" and "all_processable (w_db w)"
  shows "all_processable (w_db w')"
proof -
  have "all_processable (w_db (snd (process_settle E i c started result attempts w)))"
  proof (rule all_or_nothing_invariant [where I = all_processable, OF process_settle_effect assms(2)])
    fix d assume "\<exists>finished duration u. d = (w_db w)\<lparr>T_results := map (\<lambda>x. if finishable E i c x
          then finished_row E finished duration result attempts u x else x) (T_results (w_db w))\<rparr>"
    then show "all_processable d"
      by (elim exE) (erule all_processable_map, simp_all add: finished_row_def assms(2))
  qed
  then show ?thesis using assms(1) by simp
qed

lemma pipe_step_processable:
  assumes "pipe_step E L idle s s'" and inv: "pipe_inv E L s" and ok: "all_processable (pl_db s)"
  shows "all_processable (pl_db s')"
  using assms(1)
proof cases
  case (schedule batch now r w' new)
  then show ?thesis using schedule_processable [OF _ ok] inv by (auto simp: pipe_inv_def)
next
  case (recover before n r w' new)
  then show ?thesis using QueuedBefore_db [OF recover(2)] ok by simp
next
  case (look js j js' r w')
  then show ?thesis using look_db [OF look(4)] ok by simp
next
  case (look_fails js j js' e w')
  then show ?thesis using look_db [OF look_fails(4)] ok by simp
next
  case (take js j js' work w')
  then show ?thesis using take_processable [OF take(4) ok] by simp
next
  case (take_fails js j js' work e w')
  then show ?thesis using take_processable [OF take_fails(4) ok] by simp
next
  case (settle js j js' result attempts started w')
  then show ?thesis using settle_processable [OF settle(4) ok] by simp
next
  case (settle_fails js j js' result attempts started e w')
  then show ?thesis using settle_processable [OF settle_fails(4) ok] by simp
next
  case (fleet req)
  have "T_results (w_db (run_fleet E L req (pl_world s))) = T_results (pl_db s)"
    using run_fleet_audited [of "pl_world s" E L req] by (simp add: audited_change_def)
  then show ?thesis using all_processable_same [OF _ run_fleet_tasks ok] fleet by simp
next
  case (elsewhere w')
  then show ?thesis using ok by (auto intro: all_processable_same)
qed (use ok in simp_all)

lemma pipe_steps_processable:
  assumes "(pipe_step E L idle)\<^sup>*\<^sup>* s s'" and "pipe_inv E L s" and "all_processable (pl_db s)"
  shows "pipe_inv E L s' \<and> all_processable (pl_db s')"
  using assms
proof (induction rule: rtranclp_induct)
  case base
  then show ?case by simp
next
  case (step y z)
  then show ?case using pipe_step_processable pipe_step_inv by blast
qed

lemma reachable_processable:
  assumes "(pipe_step E L idle)\<^sup>*\<^sup>* (pipe_start w) s" and "w_db w = empty_db"
  shows "pipe_inv E L s \<and> all_processable (pl_db s)"
  by (rule pipe_steps_processable [OF assms(1) pipe_inv_start [OF assms(2)]])
     (simp add: all_processable_def pipe_start_def assms(2) empty_db_def)

text \<open>Then processing the message of any execution that can be taken makes it final.\<close>

lemma reachable_finishes:
  assumes ok: "\<And>t. env_fault E t = None" and inv: "pipe_inv E L s" and proc: "all_processable (pl_db s)"
    and x: "x \<in> set (T_results (pl_db s))" "has_execution_id E (Msg_ExecutionID m) x"
      "takeable E idleTimeout (w_tick (pl_world s)) x"
    and off: "\<And>tm tg w. w_db (snd (probe_http ps tm tg w)) = w_db w"
      "\<And>tm tg w. w_db (snd (probe_tcp ps tm tg w)) = w_db w" "\<And>dl w. w_db (snd (waitFor dl w)) = w_db w"
  shows "\<exists>w. Processor_Process E idleTimeout ps waitFor m c (pl_world s) = (Inr (), w) \<and>
    settled E (w_db w) (Msg_ExecutionID m)"
proof -
  have uniq: "unique_by (execution_uk (env_coll E)) (T_results (pl_db s))"
    and limits: "\<forall>t\<in>set (T_tasks (pl_db s)). task_ok t"
    using inv by (auto simp: pipe_inv_def rows_inv_def fleet_inv_def rows_ok_def)
  have kind: "Exec_ProbeType x = TypeHTTP \<or> Exec_ProbeType x = TypeTCP"
    and mem: "Exec_TaskID x \<in> Task_ID ` set (T_tasks (pl_db s))"
    using proc x(1) by (auto simp: all_processable_def processable_def)
  from mem have task: "\<exists>t\<in>set (T_tasks (pl_db s)). Task_ID t = Exec_TaskID x" by auto
  show ?thesis
    using Process_finishes [where ps = ps and waitFor = waitFor and consumer = c,
        OF ok uniq x kind task limits off] Process_settles by blast
qed

section \<open>Claiming and working\<close>

text \<open>Claiming one pending entry puts its message first in the memory of the worker.\<close>

lemma claim_one:
  assumes "i \<in> set (pl_pending s)" and "decode L (pl_stream s ! i) = Inr m"
  shows "Consumer_claim L c [i] None s = s\<lparr>pl_jobs := new_job i c m # pl_jobs s\<rparr>"
  using assms by (simp add: Consumer_claim_def)

lemma work_first:
  assumes "pl_jobs s = new_job i c m # js" and "Processor_Process E idle ps waitFor m c (pl_world s) = (Inr (), w)"
  shows "Consumer_work E idle ps waitFor None 0 s =
    s\<lparr>pl_world := w, pl_pending := removeAll i (pl_pending s), pl_jobs := js\<rparr>"
  using assms by (simp add: Consumer_work_def new_job_def)

text \<open>The two turns complete an execution that can be taken and whose message is pending.\<close>

lemma claim_and_work:
  assumes off: "probes_off_db wk" and ok: "\<And>t. env_fault (sv_env sv) t = None"
    and inv: "pipe_inv (sv_env sv) (sv_lib sv) s" and proc: "all_processable (pl_db s)"
    and x: "x \<in> set (T_results (pl_db s))" "takeable (sv_env sv) (wk_idle wk) (w_tick (pl_world s)) x"
    and i: "i \<in> set (pl_pending s)" "entry_for (sv_env sv) (sv_lib sv) s i x"
  shows "let s' = run_actions sv wk [ActClaim c [i] None, ActWork None 0] s
    in settled (sv_env sv) (pl_db s') (Exec_ExecutionID x) \<and> i \<notin> set (pl_pending s') \<and> pl_jobs s' = pl_jobs s"
proof -
  let ?E = "sv_env sv" and ?L = "sv_lib sv"
  obtain m where m: "decode ?L (pl_stream s ! i) = Inr m" "has_execution_id ?E (Msg_ExecutionID m) x"
    using i(2) by (auto simp: entry_for_def)
  obtain w where w: "Processor_Process ?E (wk_idle wk) (wk_probes wk) (wk_wait wk) m c (pl_world s) = (Inr (), w)"
    and fin: "settled ?E (w_db w) (Msg_ExecutionID m)"
    using reachable_finishes [where ps = "wk_probes wk" and waitFor = "wk_wait wk" and c = c,
        OF ok inv proc x(1) m(2) x(2)] off
    by (auto simp: probes_off_db_def)
  have settled: "settled ?E (w_db w) (Exec_ExecutionID x)"
    using fin m(2) by (auto simp: settled_def has_execution_id_def)
  have "run_actions sv wk [ActClaim c [i] None, ActWork None 0] s =
      s\<lparr>pl_world := w, pl_pending := removeAll i (pl_pending s)\<rparr>"
    using claim_one [OF i(1) m(1), of c]
      work_first [of "s\<lparr>pl_jobs := new_job i c m # pl_jobs s\<rparr>" i c m "pl_jobs s" ?E "wk_idle wk" "wk_probes wk" "wk_wait wk" w] w
    by (simp add: run_actions_def)
  then show ?thesis using settled by simp
qed

section \<open>Executions whose message was not published\<close>

lemma publish_each_all: "publish_each L (\<lambda>_. None) k ms stream = stream @ map (publish_fields L) ms"
  by (induction ms arbitrary: k stream) simp_all

definition overdue :: "time \<Rightarrow> db \<Rightarrow> Execution list" where
  "overdue before d = filter (\<lambda>x. Exec_Status x = ExecutionQueued \<and> Exec_ScheduledAt x < before) (T_results d)"

lemma QueuedBefore_all:
  assumes "\<And>t. env_fault E t = None" and "0 \<le> n" and "length (overdue before (w_db w)) \<le> nat n"
  shows "ProbeRepo_QueuedBefore E before n w =
    (Inr (map message_of (sort_key Exec_ScheduledAt (overdue before (w_db w)))), tick w)"
  using assms by (simp add: ProbeRepo_QueuedBefore_def db_query_def db_stmt_def op_bind_def limit_rows_def overdue_def tick_def)

text \<open>A tick of the dispatcher publishes a message for every overdue execution, when they fit its
  batch and Redis takes them.\<close>

lemma dispatcher_publishes:
  assumes ok: "\<And>t. env_fault E t = None" and n: "0 \<le> batch"
    and x: "x \<in> set (overdue (env_clock E (w_tick (pl_world s)) + wrap64 (- 2 * interval)) (pl_db s))"
    and fits: "length (overdue (env_clock E (w_tick (pl_world s)) + wrap64 (- 2 * interval)) (pl_db s)) \<le> nat batch"
    and time: "lib_parse_time L (lib_format_time L (Exec_ScheduledAt x)) = Some (Exec_ScheduledAt x)"
    and i: "Exec_ExecutionID x \<noteq> []"
  shows "let s' = RecoveryDispatcher_tick E L interval batch (\<lambda>_. None) s
    in \<exists>k\<ge>length (pl_stream s). k < length (pl_stream s') \<and> entry_for E L s' k x \<and> pl_db s' = pl_db s"
proof -
  let ?before = "env_clock E (w_tick (pl_world s)) + wrap64 (- 2 * interval)"
  let ?ms = "map message_of (sort_key Exec_ScheduledAt (overdue ?before (pl_db s)))"
  let ?s = "RecoveryDispatcher_tick E L interval batch (\<lambda>_. None) s"
  have s': "pl_stream ?s = pl_stream s @ map (publish_fields L) ?ms" "pl_db ?s = pl_db s"
    using QueuedBefore_all [OF ok n, of ?before "tick (pl_world s)"] fits
    by (simp_all add: RecoveryDispatcher_tick_def op_bind_def publish_each_all)
  obtain k where k: "k < length ?ms" "?ms ! k = message_of x"
  proof -
    have "message_of x \<in> set ?ms" using x by simp
    then show ?thesis using that unfolding in_set_conv_nth by blast
  qed
  have "decode L (publish_fields L (message_of x)) = Inr (message_of x)"
    by (rule decode_publish) (use time i in \<open>simp_all add: message_of_def\<close>)
  then have "entry_for E L ?s (length (pl_stream s) + k) x"
    using k by (simp add: entry_for_def s' nth_append message_of_def has_execution_id_def del: map_map)
  then show ?thesis using k s' by (auto simp: Let_def intro!: exI [of _ "length (pl_stream s) + k"])
qed

end
