(* ===== verification/Config.thy ===== *)
theory Config
  imports GoStrings
begin

text \<open>
  \<open>internal/platform/config/config.go\<close>: the configuration read from the environment
  variables of the process, a map from names to values. \<open>time.ParseDuration\<close> is modelled,
  except for the floating-point product that gives the fraction of a unit, which is the
  parameter \<open>F\<close> of the digits, their number and the unit.
\<close>

section \<open>time.ParseDuration\<close>

type_synonym fraction = "int \<Rightarrow> nat \<Rightarrow> int \<Rightarrow> int"

definition two63 :: int where "two63 = 9223372036854775808"
definition two64 :: int where "two64 = 18446744073709551616"

text \<open>The leading digits and the rest; \<open>None\<close> is an overflow.\<close>

fun leading_int :: "int \<Rightarrow> string \<Rightarrow> (int \<times> string) option" where
  "leading_int x [] = Some (x, [])"
| "leading_int x (c # s) =
     (if \<not> is_digit c then Some (x, c # s)
      else if x > two63 div 10 then None
      else if 10 * x + digit_val c > two63 then None
      else leading_int (10 * x + digit_val c) s)"

text \<open>The digits of a fraction: further digits are dropped once they do not fit.\<close>

fun leading_fraction :: "bool \<Rightarrow> int \<Rightarrow> nat \<Rightarrow> string \<Rightarrow> int \<times> nat \<times> string" where
  "leading_fraction over x scale [] = (x, scale, [])"
| "leading_fraction over x scale (c # s) =
     (if \<not> is_digit c then (x, scale, c # s)
      else if over \<or> x > (two63 - 1) div 10 \<or> 10 * x + digit_val c > two63
      then leading_fraction True x scale s
      else leading_fraction False (10 * x + digit_val c) (Suc scale) s)"

definition unit_of :: "string \<Rightarrow> int option" where
  "unit_of u = map_of [(''ns'', nanosecond), (''us'', 1000), ([CHR 0xC2, CHR 0xB5, CHR ''s''], 1000),
     ([CHR 0xCE, CHR 0xBC, CHR ''s''], 1000), (''ms'', millisecond), (''s'', second), (''m'', minute), (''h'', hour)] u"

definition unit_char :: "char \<Rightarrow> bool" where
  "unit_char c \<longleftrightarrow> c \<noteq> CHR ''.'' \<and> \<not> is_digit c"

text \<open>The fraction after the digits, if there is a point: its digits, how many, what follows, and
  whether there were any.\<close>

definition fraction_part :: "string \<Rightarrow> int \<times> nat \<times> string \<times> bool" where
  "fraction_part s1 =
     (if s1 \<noteq> [] \<and> hd s1 = CHR ''.''
      then (case leading_fraction False 0 0 (tl s1) of
              (f, scale, s2) \<Rightarrow> (f, scale, s2, length s2 \<noteq> length (tl s1)))
      else (0, 0, s1, False))"

text \<open>One term, a number and a unit: its value and what follows it.\<close>

definition duration_term :: "fraction \<Rightarrow> string \<Rightarrow> (int \<times> string) option" where
  "duration_term F s =
     (if s = [] \<or> \<not> (hd s = CHR ''.'' \<or> is_digit (hd s)) then None
      else case leading_int 0 s of
             None \<Rightarrow> None
           | Some (v, s1) \<Rightarrow>
              (case fraction_part s1 of (f, scale, s2, post) \<Rightarrow>
                if length s1 = length s \<and> \<not> post \<or> takeWhile unit_char s2 = [] then None
                else case unit_of (takeWhile unit_char s2) of
                       None \<Rightarrow> None
                     | Some unit \<Rightarrow>
                         if v > two63 div unit then None
                         else let w = (v * unit + (if f > 0 then F f scale unit else 0)) mod two64
                           in if f > 0 \<and> w > two63 then None else Some (w, dropWhile unit_char s2)))"

lemma leading_int_length: "leading_int x s = Some (y, r) \<Longrightarrow> length r \<le> length s"
  by (induction x s rule: leading_int.induct) (auto split: if_splits)

lemma leading_fraction_length: "leading_fraction over x k s = (y, j, r) \<Longrightarrow> length r \<le> length s"
  by (induction over x k s rule: leading_fraction.induct) (auto split: if_splits)

lemma dropWhile_shorter: "takeWhile p s \<noteq> [] \<Longrightarrow> length (dropWhile p s) < length s"
proof -
  assume "takeWhile p s \<noteq> []"
  then have "0 < length (takeWhile p s)" by simp
  moreover have "length (takeWhile p s) + length (dropWhile p s) = length s"
    by (metis length_append takeWhile_dropWhile_id)
  ultimately show ?thesis by arith
qed

lemma fraction_part_length: "fraction_part s = (f, k, r, post) \<Longrightarrow> length r \<le> length s"
  using leading_fraction_length [of False 0 0 "tl s"]
  by (fastforce simp: fraction_part_def split: if_splits prod.splits)

lemma duration_term_shorter:
  assumes "duration_term F s = Some (v, rest)"
  shows "length rest < length s"
proof -
  obtain v1 s1 where 1: "leading_int 0 s = Some (v1, s1)"
    using assms by (auto simp: duration_term_def split: if_splits option.splits)
  obtain f k s2 post where 2: "fraction_part s1 = (f, k, s2, post)" by (metis surj_pair)
  have "takeWhile unit_char s2 \<noteq> []" "rest = dropWhile unit_char s2"
    using assms 1 2 by (auto simp: duration_term_def Let_def split: if_splits option.splits)
  then show ?thesis
    using dropWhile_shorter [of unit_char s2] leading_int_length [OF 1] fraction_part_length [OF 2] by simp
qed

function duration_terms :: "fraction \<Rightarrow> int \<Rightarrow> string \<Rightarrow> int option" where
  "duration_terms F d s =
     (if s = [] then Some d
      else case duration_term F s of
             None \<Rightarrow> None
           | Some (v, rest) \<Rightarrow>
               let d' = (d + v) mod two64 in if d' > two63 then None else duration_terms F d' rest)"
  by pat_completeness auto
termination
  by (relation "measure (\<lambda>(F, d, s). length s)") (auto dest: duration_term_shorter)

declare duration_terms.simps [simp del]

definition ParseDuration :: "fraction \<Rightarrow> string \<Rightarrow> duration option" where
  "ParseDuration F s0 =
     (let neg = begins_with ''-'' s0;
          s = (if neg \<or> begins_with ''+'' s0 then tl s0 else s0)
      in if s = ''0'' then Some 0
         else if s = [] then None
         else case duration_terms F 0 s of
                None \<Rightarrow> None
              | Some d \<Rightarrow> if neg then Some (- d) else if d > two63 - 1 then None else Some d)"

text \<open>A parsed duration fits its type.\<close>

lemma duration_terms_bounds:
  "duration_terms F d s = Some x \<Longrightarrow> 0 \<le> d \<Longrightarrow> d \<le> two63 \<Longrightarrow> 0 \<le> x \<and> x \<le> two63"
proof (induction F d s rule: duration_terms.induct)
  case (1 F d s)
  show ?case
  proof (cases "s = []")
    case True
    then show ?thesis using 1 by (simp add: duration_terms.simps)
  next
    case False
    then obtain v rest where t: "duration_term F s = Some (v, rest)"
      using "1.prems"(1) by (subst (asm) duration_terms.simps) (auto split: option.splits)
    let ?d = "(d + v) mod two64"
    have d: "0 \<le> ?d" by (simp add: two64_def)
    have "\<not> ?d > two63" "duration_terms F ?d rest = Some x"
      using "1.prems"(1) False t by (subst (asm) duration_terms.simps, simp add: Let_def split: if_splits)+
    then show ?thesis using "1.IH" [OF False t refl refl] d by simp
  qed
qed

lemma ParseDuration_bounds: "ParseDuration F s = Some d \<Longrightarrow> min_int64 \<le> d \<and> d \<le> max_int64"
  by (auto simp: ParseDuration_def Let_def two63_def min_int64_def max_int64_def dest!: duration_terms_bounds
      split: if_splits option.splits)

text \<open>A number of whole units reads back as that many units.\<close>

lemma foldl_digits_ge: "list_all is_digit s \<Longrightarrow> 0 \<le> x \<Longrightarrow> x \<le> foldl (\<lambda>a c. 10 * a + digit_val c) x s"
proof (induction s arbitrary: x)
  case (Cons c s)
  have d: "0 \<le> digit_val c" using Cons.prems(1) digit_val_nonneg by simp
  have "10 * x + digit_val c \<le> foldl (\<lambda>a c. 10 * a + digit_val c) (10 * x + digit_val c) s"
    using Cons.prems d by (intro Cons.IH) auto
  then show ?case using Cons.prems(2) d by simp
qed simp

lemma leading_int_digits:
  "list_all is_digit s \<Longrightarrow> u = [] \<or> \<not> is_digit (hd u) \<Longrightarrow> 0 \<le> x \<Longrightarrow>
     foldl (\<lambda>a c. 10 * a + digit_val c) x s \<le> two63 \<Longrightarrow>
     leading_int x (s @ u) = Some (foldl (\<lambda>a c. 10 * a + digit_val c) x s, u)"
proof (induction s arbitrary: x)
  case Nil
  then show ?case by (cases u) auto
next
  case (Cons c s)
  have d: "0 \<le> digit_val c" using Cons.prems(1) digit_val_nonneg by simp
  have le: "10 * x + digit_val c \<le> two63"
    using foldl_digits_ge [of s "10 * x + digit_val c"] Cons.prems d by simp
  then have "\<not> x > two63 div 10" using d by (simp add: two63_def)
  then show ?case using Cons le d by simp
qed

lemma leading_int_dec:
  assumes "0 \<le> n" and "n \<le> two63" and "u = [] \<or> \<not> is_digit (hd u)"
  shows "leading_int 0 (dec n @ u) = Some (n, u)"
  using leading_int_digits [OF dec_digits [OF assms(1)] assms(3), of 0] digits_val_dec [OF assms(1)] assms(2)
  by (simp add: digits_val_def)

lemma unit_of_chars: "unit_of u = Some k \<Longrightarrow> u \<noteq> [] \<and> list_all unit_char u \<and> 0 < k"
  by (auto simp: unit_of_def unit_char_def is_digit_def duration_defs split: if_splits)

lemma duration_term_units:
  assumes "0 \<le> n" and "unit_of u = Some k" and "n * k \<le> max_int64" and "rest = [] \<or> \<not> unit_char (hd rest)"
  shows "duration_term F (dec n @ u @ rest) = Some (n * k, rest)"
proof -
  have u: "u \<noteq> []" "list_all unit_char u" "0 < k" using unit_of_chars [OF assms(2)] by auto
  have hd_u: "\<not> is_digit (hd u)" "hd u \<noteq> CHR ''.''" using u by (cases u; simp add: unit_char_def)+
  obtain c s where cs: "dec n = c # s" "is_digit c"
    using dec_digits [OF assms(1)] dec_nonempty [of n] by (cases "dec n") auto
  have k: "n \<le> n * k" using assms(1) u(3) by (simp add: mult_le_cancel_left1)
  have n: "n \<le> two63" "n * k < two64" "n * k \<le> two63" "0 \<le> n * k"
    using assms(1,3) k u(3) by (simp_all add: two63_def two64_def max_int64_def)
  have div: "n \<le> two63 div k" using zdiv_mono1 [OF n(3) u(3)] u(3) by simp
  have while: "takeWhile unit_char (u @ rest) = u" "dropWhile unit_char (u @ rest) = rest"
    using u(2) assms(4) by (cases rest; auto simp: list_all_iff)+
  have lead: "leading_int 0 (c # s @ u @ rest) = Some (n, u @ rest)"
    using leading_int_dec [OF assms(1) n(1), of "u @ rest"] hd_u u(1) cs(1) by simp
  show ?thesis
    using u(1) hd_u div n
    by (simp add: duration_term_def fraction_part_def Let_def cs lead while assms(2) del: leading_int.simps)
qed

lemma duration_terms_units:
  assumes "0 \<le> n" and "unit_of u = Some k" and "rest = [] \<or> \<not> unit_char (hd rest)"
    and "0 \<le> d" and "d + n * k \<le> max_int64"
  shows "duration_terms F d (dec n @ u @ rest) = duration_terms F (d + n * k) rest"
proof -
  have k: "0 \<le> n * k" using unit_of_chars [OF assms(2)] assms(1) by simp
  then have "duration_term F (dec n @ u @ rest) = Some (n * k, rest)"
    using duration_term_units [OF assms(1,2) _ assms(3)] assms(4,5) by simp
  moreover have "(d + n * k) mod two64 = d + n * k" "d + n * k \<le> two63"
    using assms(4,5) k by (simp_all add: two63_def two64_def max_int64_def)
  ultimately show ?thesis using dec_nonempty [of n] by (simp add: duration_terms.simps [of F d] Let_def)
qed

lemma ParseDuration_of_terms:
  assumes "s \<noteq> []" and "is_digit (hd s)" and "s \<noteq> ''0''" and "duration_terms F 0 s = Some d" and "d \<le> max_int64"
  shows "ParseDuration F s = Some d"
proof -
  have "hd s \<noteq> CHR ''-''" "hd s \<noteq> CHR ''+''" using assms(2) by (auto simp: is_digit_def)
  then show ?thesis
    using assms by (cases s) (auto simp: ParseDuration_def begins_with_def two63_def max_int64_def)
qed

lemma dec_append_text:
  "0 \<le> n \<Longrightarrow> u \<noteq> [] \<Longrightarrow> dec n @ u \<noteq> [] \<and> is_digit (hd (dec n @ u)) \<and> dec n @ u \<noteq> ''0''"
  using dec_digits [of n] dec_nonempty [of n] by (cases "dec n"; cases u; cases "tl (dec n)") auto

lemma ParseDuration_units:
  assumes "0 \<le> n" and "unit_of u = Some k" and "n * k \<le> max_int64"
  shows "ParseDuration F (dec n @ u) = Some (n * k)"
proof -
  have "duration_terms F 0 (dec n @ u @ []) = duration_terms F (0 + n * k) []"
    by (rule duration_terms_units) (use assms in simp_all)
  moreover have "u \<noteq> []" using unit_of_chars [OF assms(2)] by simp
  ultimately show ?thesis
    using dec_append_text [OF assms(1), of u] assms(3)
    by (intro ParseDuration_of_terms) (simp_all add: duration_terms.simps [of F "n * k"])
qed

section \<open>Settings\<close>

record AppConfig =
  App_Name :: string
  App_Environment :: string

record ServerConfig =
  Srv_Host :: string
  Srv_Port :: int
  Srv_ReadHeaderTimeout :: duration
  Srv_ReadTimeout :: duration
  Srv_WriteTimeout :: duration
  Srv_IdleTimeout :: duration
  Srv_ShutdownTimeout :: duration

record DatabaseConfig =
  DB_Host :: string
  DB_Port :: int
  DB_Name :: string
  DB_User :: string
  DB_Password :: string
  DB_MaxOpenConns :: int
  DB_MaxIdleConns :: int
  DB_ConnMaxLifetime :: duration
  DB_ConnMaxIdleTime :: duration
  DB_ConnectTimeout :: duration
  DB_PingTimeout :: duration
  DB_TLSEnabled :: bool

record RedisConfig =
  Redis_Host :: string
  Redis_Port :: int
  Redis_Password :: string
  Redis_DB :: int
  Redis_PoolSize :: int
  Redis_MinIdleConns :: int
  Redis_DialTimeout :: duration
  Redis_ReadTimeout :: duration
  Redis_WriteTimeout :: duration
  Redis_PingTimeout :: duration
  Redis_TLSEnabled :: bool

record JWTConfig =
  JWT_Secret :: string
  JWT_Issuer :: string
  JWT_ExpiresIn :: duration

record BootstrapConfig =
  Boot_Username :: string
  Boot_Password :: string

record ProbeConfig =
  Prb_SchedulerInterval :: duration
  Prb_SchedulerBatchSize :: int
  Prb_WorkerCount :: int
  Prb_QueueCapacity :: int
  Prb_StreamKey :: string
  Prb_ConsumerGroup :: string
  Prb_StreamReadCount :: int
  Prb_StreamBlockTimeout :: duration
  Prb_MessageIdleTimeout :: duration
  Prb_PendingScanPeriod :: duration
  Prb_ShutdownTimeout :: duration
  Prb_AllowPrivate :: bool
  Prb_AllowLoopback :: bool

record Config =
  Cfg_App :: AppConfig
  Cfg_Server :: ServerConfig
  Cfg_LogLevel :: string
  Cfg_Database :: DatabaseConfig
  Cfg_Redis :: RedisConfig
  Cfg_JWT :: JWTConfig
  Cfg_Bootstrap :: BootstrapConfig
  Cfg_Probe :: ProbeConfig
  Cfg_WorkerAddress :: string
  Cfg_WebhookToken :: string

section \<open>Load\<close>

type_synonym environ = "string \<Rightarrow> string option"

definition Getenv :: "environ \<Rightarrow> string \<Rightarrow> string" where
  "Getenv V key = (case V key of None \<Rightarrow> [] | Some v \<Rightarrow> v)"

text \<open>\<open>value\<close>: a variable that is set to the empty string does not fall back.\<close>

definition env_value :: "environ \<Rightarrow> string \<Rightarrow> string \<Rightarrow> string" where
  "env_value V key fallback = (case V key of None \<Rightarrow> fallback | Some raw \<Rightarrow> raw)"

definition setting_error :: "string \<Rightarrow> string \<Rightarrow> go_error" where
  "setting_error key what = New (''configuration '' @ key @ '': invalid '' @ what)"

definition env_integer :: "environ \<Rightarrow> string \<Rightarrow> int \<Rightarrow> go_error + int" where
  "env_integer V key fallback =
     (case Atoi (env_value V key (Itoa fallback)) of
        None \<Rightarrow> Inl (setting_error key ''integer'') | Some i \<Rightarrow> Inr i)"

definition env_duration :: "fraction \<Rightarrow> environ \<Rightarrow> string \<Rightarrow> string \<Rightarrow> go_error + duration" where
  "env_duration F V key fallback =
     (case ParseDuration F (env_value V key fallback) of
        None \<Rightarrow> Inl (setting_error key ''duration'') | Some d \<Rightarrow> Inr d)"

definition env_boolean :: "environ \<Rightarrow> string \<Rightarrow> bool \<Rightarrow> go_error + bool" where
  "env_boolean V key fallback =
     (case ParseBool (env_value V key (FormatBool fallback)) of
        None \<Rightarrow> Inl (setting_error key ''boolean'') | Some b \<Rightarrow> Inr b)"

text \<open>\<open>if x, err = m; err != nil { return Config{}, err }\<close>.\<close>

definition res_bind :: "go_error + 'a \<Rightarrow> ('a \<Rightarrow> go_error + 'b) \<Rightarrow> go_error + 'b" where
  "res_bind m f = (case m of Inl e \<Rightarrow> Inl e | Inr x \<Rightarrow> f x)"

definition Load_Server :: "fraction \<Rightarrow> environ \<Rightarrow> go_error + ServerConfig" where
  "Load_Server F V =
     res_bind (env_integer V ''SERVER_PORT'' 8080) (\<lambda>port.
     res_bind (env_duration F V ''SERVER_READ_HEADER_TIMEOUT'' ''5s'') (\<lambda>readHeader.
     res_bind (env_duration F V ''SERVER_READ_TIMEOUT'' ''10s'') (\<lambda>readTimeout.
     res_bind (env_duration F V ''SERVER_WRITE_TIMEOUT'' ''15s'') (\<lambda>writeTimeout.
     res_bind (env_duration F V ''SERVER_IDLE_TIMEOUT'' ''60s'') (\<lambda>idleTimeout.
     res_bind (env_duration F V ''SERVER_SHUTDOWN_TIMEOUT'' ''10s'') (\<lambda>shutdown.
     Inr \<lparr>Srv_Host = env_value V ''SERVER_HOST'' ''0.0.0.0'', Srv_Port = port,
       Srv_ReadHeaderTimeout = readHeader, Srv_ReadTimeout = readTimeout, Srv_WriteTimeout = writeTimeout,
       Srv_IdleTimeout = idleTimeout, Srv_ShutdownTimeout = shutdown\<rparr>))))))"

definition Load_Database :: "fraction \<Rightarrow> environ \<Rightarrow> go_error + DatabaseConfig" where
  "Load_Database F V =
     res_bind (env_integer V ''MYSQL_PORT'' 3306) (\<lambda>port.
     res_bind (env_integer V ''MYSQL_MAX_OPEN_CONNS'' 20) (\<lambda>maxOpen.
     res_bind (env_integer V ''MYSQL_MAX_IDLE_CONNS'' 10) (\<lambda>maxIdle.
     res_bind (env_duration F V ''MYSQL_CONN_MAX_LIFETIME'' ''30m'') (\<lambda>lifetime.
     res_bind (env_duration F V ''MYSQL_CONN_MAX_IDLE_TIME'' ''5m'') (\<lambda>idleTime.
     res_bind (env_duration F V ''MYSQL_CONNECT_TIMEOUT'' ''5s'') (\<lambda>connect.
     res_bind (env_duration F V ''MYSQL_PING_TIMEOUT'' ''3s'') (\<lambda>ping.
     res_bind (env_boolean V ''MYSQL_TLS_ENABLED'' False) (\<lambda>tls.
     Inr \<lparr>DB_Host = env_value V ''MYSQL_HOST'' ''mysql'', DB_Port = port,
       DB_Name = env_value V ''MYSQL_DATABASE'' ''cloudsentinel'',
       DB_User = env_value V ''MYSQL_USER'' ''cloudsentinel'',
       DB_Password = Getenv V ''MYSQL_PASSWORD'', DB_MaxOpenConns = maxOpen, DB_MaxIdleConns = maxIdle,
       DB_ConnMaxLifetime = lifetime, DB_ConnMaxIdleTime = idleTime, DB_ConnectTimeout = connect,
       DB_PingTimeout = ping, DB_TLSEnabled = tls\<rparr>))))))))"

definition Load_Redis :: "fraction \<Rightarrow> environ \<Rightarrow> go_error + RedisConfig" where
  "Load_Redis F V =
     res_bind (env_integer V ''REDIS_PORT'' 6379) (\<lambda>port.
     res_bind (env_integer V ''REDIS_DB'' 0) (\<lambda>db.
     res_bind (env_integer V ''REDIS_POOL_SIZE'' 20) (\<lambda>pool.
     res_bind (env_integer V ''REDIS_MIN_IDLE_CONNS'' 2) (\<lambda>minIdle.
     res_bind (env_duration F V ''REDIS_DIAL_TIMEOUT'' ''5s'') (\<lambda>dial.
     res_bind (env_duration F V ''REDIS_READ_TIMEOUT'' ''3s'') (\<lambda>readTimeout.
     res_bind (env_duration F V ''REDIS_WRITE_TIMEOUT'' ''3s'') (\<lambda>writeTimeout.
     res_bind (env_duration F V ''REDIS_PING_TIMEOUT'' ''3s'') (\<lambda>ping.
     res_bind (env_boolean V ''REDIS_TLS_ENABLED'' False) (\<lambda>tls.
     Inr \<lparr>Redis_Host = env_value V ''REDIS_HOST'' ''redis'', Redis_Port = port,
       Redis_Password = Getenv V ''REDIS_PASSWORD'', Redis_DB = db, Redis_PoolSize = pool,
       Redis_MinIdleConns = minIdle, Redis_DialTimeout = dial, Redis_ReadTimeout = readTimeout,
       Redis_WriteTimeout = writeTimeout, Redis_PingTimeout = ping, Redis_TLSEnabled = tls\<rparr>)))))))))"

definition Load_Probe :: "fraction \<Rightarrow> environ \<Rightarrow> go_error + ProbeConfig" where
  "Load_Probe F V =
     res_bind (env_duration F V ''PROBE_SCHEDULER_INTERVAL'' ''5s'') (\<lambda>interval.
     res_bind (env_integer V ''PROBE_SCHEDULER_BATCH_SIZE'' 100) (\<lambda>batch.
     res_bind (env_integer V ''PROBE_WORKER_COUNT'' 4) (\<lambda>workers.
     res_bind (env_integer V ''PROBE_QUEUE_CAPACITY'' 100) (\<lambda>capacity.
     res_bind (env_integer V ''PROBE_STREAM_READ_COUNT'' 10) (\<lambda>readCount.
     res_bind (env_duration F V ''PROBE_STREAM_BLOCK_TIMEOUT'' ''5s'') (\<lambda>block.
     res_bind (env_duration F V ''PROBE_MESSAGE_IDLE_TIMEOUT'' ''30m'') (\<lambda>idle.
     res_bind (env_duration F V ''PROBE_PENDING_SCAN_INTERVAL'' ''30s'') (\<lambda>scan.
     res_bind (env_duration F V ''PROBE_SHUTDOWN_TIMEOUT'' ''30s'') (\<lambda>shutdown.
     res_bind (env_boolean V ''PROBE_ALLOW_PRIVATE_NETWORKS'' True) (\<lambda>private.
     res_bind (env_boolean V ''PROBE_ALLOW_LOOPBACK'' False) (\<lambda>loopback.
     Inr \<lparr>Prb_SchedulerInterval = interval, Prb_SchedulerBatchSize = batch, Prb_WorkerCount = workers,
       Prb_QueueCapacity = capacity,
       Prb_StreamKey = env_value V ''PROBE_STREAM_KEY'' ''cloudsentinel:probe:executions'',
       Prb_ConsumerGroup = env_value V ''PROBE_CONSUMER_GROUP'' ''cloudsentinel-probe-workers'',
       Prb_StreamReadCount = readCount, Prb_StreamBlockTimeout = block, Prb_MessageIdleTimeout = idle,
       Prb_PendingScanPeriod = scan, Prb_ShutdownTimeout = shutdown, Prb_AllowPrivate = private,
       Prb_AllowLoopback = loopback\<rparr>)))))))))))"

text \<open>The parts are read in the order of the source; the first invalid variable ends the load.\<close>

definition Load :: "fraction \<Rightarrow> environ \<Rightarrow> go_error + Config" where
  "Load F V =
     res_bind (Load_Server F V) (\<lambda>server.
     res_bind (Load_Database F V) (\<lambda>database.
     res_bind (Load_Redis F V) (\<lambda>redis.
     res_bind (env_duration F V ''JWT_EXPIRES_IN'' ''2h'') (\<lambda>expiresIn.
     res_bind (Load_Probe F V) (\<lambda>probe.
     Inr \<lparr>Cfg_App = \<lparr>App_Name = env_value V ''APP_NAME'' ''cloudsentinel-api'',
         App_Environment = env_value V ''APP_ENV'' ''development''\<rparr>,
       Cfg_Server = server, Cfg_LogLevel = env_value V ''LOG_LEVEL'' ''info'', Cfg_Database = database,
       Cfg_Redis = redis,
       Cfg_JWT = \<lparr>JWT_Secret = Getenv V ''JWT_SECRET'', JWT_Issuer = env_value V ''JWT_ISSUER'' ''cloudsentinel-api'',
         JWT_ExpiresIn = expiresIn\<rparr>,
       Cfg_Bootstrap = \<lparr>Boot_Username = Getenv V ''BOOTSTRAP_USER_USERNAME'',
         Boot_Password = Getenv V ''BOOTSTRAP_USER_PASSWORD''\<rparr>,
       Cfg_Probe = probe, Cfg_WorkerAddress = env_value V ''WORKER_METRICS_ADDRESS'' '':9091'',
       Cfg_WebhookToken = Getenv V ''ALERTMANAGER_WEBHOOK_TOKEN''\<rparr>)))))"
end
