(* ===== verification/Startup.thy ===== *)
theory Startup
  imports Config AuthSpec
begin

text \<open>
  What loading the configuration decides, and the checks that \<open>cmd/api\<close> makes with it before
  it serves: the token manager, the bootstrap user and the webhook token. Also the name a worker
  gives to its consumer.
\<close>

section \<open>The settings that can be invalid, in the order they are read\<close>

datatype setting = IntegerSetting string int | DurationSetting string string | BooleanSetting string bool

definition server_settings :: "setting list" where
  "server_settings =
    [IntegerSetting ''SERVER_PORT'' 8080, DurationSetting ''SERVER_READ_HEADER_TIMEOUT'' ''5s'',
     DurationSetting ''SERVER_READ_TIMEOUT'' ''10s'', DurationSetting ''SERVER_WRITE_TIMEOUT'' ''15s'',
     DurationSetting ''SERVER_IDLE_TIMEOUT'' ''60s'', DurationSetting ''SERVER_SHUTDOWN_TIMEOUT'' ''10s'']"

definition database_settings :: "setting list" where
  "database_settings =
    [IntegerSetting ''MYSQL_PORT'' 3306, IntegerSetting ''MYSQL_MAX_OPEN_CONNS'' 20,
     IntegerSetting ''MYSQL_MAX_IDLE_CONNS'' 10, DurationSetting ''MYSQL_CONN_MAX_LIFETIME'' ''30m'',
     DurationSetting ''MYSQL_CONN_MAX_IDLE_TIME'' ''5m'', DurationSetting ''MYSQL_CONNECT_TIMEOUT'' ''5s'',
     DurationSetting ''MYSQL_PING_TIMEOUT'' ''3s'', BooleanSetting ''MYSQL_TLS_ENABLED'' False]"

definition redis_settings :: "setting list" where
  "redis_settings =
    [IntegerSetting ''REDIS_PORT'' 6379, IntegerSetting ''REDIS_DB'' 0, IntegerSetting ''REDIS_POOL_SIZE'' 20,
     IntegerSetting ''REDIS_MIN_IDLE_CONNS'' 2, DurationSetting ''REDIS_DIAL_TIMEOUT'' ''5s'',
     DurationSetting ''REDIS_READ_TIMEOUT'' ''3s'', DurationSetting ''REDIS_WRITE_TIMEOUT'' ''3s'',
     DurationSetting ''REDIS_PING_TIMEOUT'' ''3s'', BooleanSetting ''REDIS_TLS_ENABLED'' False]"

definition probe_settings :: "setting list" where
  "probe_settings =
    [DurationSetting ''PROBE_SCHEDULER_INTERVAL'' ''5s'', IntegerSetting ''PROBE_SCHEDULER_BATCH_SIZE'' 100,
     IntegerSetting ''PROBE_WORKER_COUNT'' 4, IntegerSetting ''PROBE_QUEUE_CAPACITY'' 100,
     IntegerSetting ''PROBE_STREAM_READ_COUNT'' 10, DurationSetting ''PROBE_STREAM_BLOCK_TIMEOUT'' ''5s'',
     DurationSetting ''PROBE_MESSAGE_IDLE_TIMEOUT'' ''30m'', DurationSetting ''PROBE_PENDING_SCAN_INTERVAL'' ''30s'',
     DurationSetting ''PROBE_SHUTDOWN_TIMEOUT'' ''30s'', BooleanSetting ''PROBE_ALLOW_PRIVATE_NETWORKS'' True,
     BooleanSetting ''PROBE_ALLOW_LOOPBACK'' False]"

definition settings :: "setting list" where
  "settings = server_settings @ database_settings @ redis_settings @
     DurationSetting ''JWT_EXPIRES_IN'' ''2h'' # probe_settings"

fun setting_valid :: "fraction \<Rightarrow> environ \<Rightarrow> setting \<Rightarrow> bool" where
  "setting_valid F V (IntegerSetting k d) \<longleftrightarrow> Atoi (env_value V k (Itoa d)) \<noteq> None"
| "setting_valid F V (DurationSetting k d) \<longleftrightarrow> ParseDuration F (env_value V k d) \<noteq> None"
| "setting_valid F V (BooleanSetting k d) \<longleftrightarrow> ParseBool (env_value V k (FormatBool d)) \<noteq> None"

fun setting_message :: "setting \<Rightarrow> go_error" where
  "setting_message (IntegerSetting k d) = setting_error k ''integer''"
| "setting_message (DurationSetting k d) = setting_error k ''duration''"
| "setting_message (BooleanSetting k d) = setting_error k ''boolean''"

text \<open>A result fails exactly with the message of the first invalid of some settings.\<close>

definition fails_as :: "fraction \<Rightarrow> environ \<Rightarrow> setting list \<Rightarrow> go_error + 'a \<Rightarrow> bool" where
  "fails_as F V ss r \<longleftrightarrow>
     (case find (\<lambda>s. \<not> setting_valid F V s) ss of
        Some s \<Rightarrow> r = Inl (setting_message s) | None \<Rightarrow> \<exists>x. r = Inr x)"

lemma fails_as_done: "fails_as F V [] (Inr x)"
  by (simp add: fails_as_def)

lemma fails_as_setting:
  "fails_as F V [IntegerSetting k i] (env_integer V k i)" "fails_as F V [DurationSetting k d] (env_duration F V k d)"
  "fails_as F V [BooleanSetting k b] (env_boolean V k b)"
  by (auto simp: fails_as_def env_integer_def env_duration_def env_boolean_def split: option.split)

lemma fails_as_bind:
  assumes "fails_as F V ss m" and "\<And>x. fails_as F V ss' (f x)"
  shows "fails_as F V (ss @ ss') (res_bind m f)"
  using assms by (cases m) (auto simp: fails_as_def res_bind_def find_append split: option.splits)

lemmas fails_as_step = fails_as_setting [THEN fails_as_bind, simplified append_Cons append_Nil]

lemmas fails_as_intros = fails_as_step fails_as_done

lemma Load_parts_fail:
  "fails_as F V server_settings (Load_Server F V)" "fails_as F V database_settings (Load_Database F V)"
  "fails_as F V redis_settings (Load_Redis F V)" "fails_as F V probe_settings (Load_Probe F V)"
  unfolding server_settings_def Load_Server_def database_settings_def Load_Database_def
    redis_settings_def Load_Redis_def probe_settings_def Load_Probe_def
  by (intro fails_as_intros)+

lemma Load_fails_first: "fails_as F V settings (Load F V)"
proof -
  have "fails_as F V (server_settings @ database_settings @ redis_settings @
      DurationSetting ''JWT_EXPIRES_IN'' ''2h'' # probe_settings @ []) (Load F V)"
    unfolding Load_def by (intro fails_as_bind Load_parts_fail fails_as_intros)
  then show ?thesis by (simp add: settings_def)
qed

section \<open>The checks of cmd/api\<close>

text \<open>From the token manager to the webhook token, in the order of \<open>run\<close>.\<close>

definition api_startup :: "env \<Rightarrow> authlib \<Rightarrow> Config \<Rightarrow> (world, TokenManager) op" where
  "api_startup E A cfg w =
     (case NewTokenManager (JWT_Secret (Cfg_JWT cfg)) (JWT_Issuer (Cfg_JWT cfg)) (JWT_ExpiresIn (Cfg_JWT cfg)) of
        Inl err \<Rightarrow> (Inl err, w)
      | Inr tokenManager \<Rightarrow>
          op_bind (Bootstrap A (auth_repository E) (Boot_Username (Cfg_Bootstrap cfg)) (Boot_Password (Cfg_Bootstrap cfg))) (\<lambda>_.
          op_bind (op_when_fail (Cfg_WebhookToken cfg = []) (New ''configuration ALERTMANAGER_WEBHOOK_TOKEN: required'')) (\<lambda>_.
          op_bind (op_when_fail (Cfg_WebhookToken cfg = JWT_Secret (Cfg_JWT cfg))
            (New ''configuration ALERTMANAGER_WEBHOOK_TOKEN: must differ from JWT_SECRET'')) (\<lambda>_.
          op_return tokenManager))) w)"

lemma NewTokenManager_Inr:
  "NewTokenManager secret issuer expiresIn = Inr m \<longleftrightarrow> secret \<noteq> [] \<and> issuer \<noteq> [] \<and> 0 < expiresIn \<and>
     m = \<lparr>tm_secret = secret, tm_issuer = issuer, tm_expiresIn = expiresIn\<rparr>"
  by (auto simp: NewTokenManager_def)

lemma api_startup_Inr:
  assumes "api_startup E A cfg w = (Inr m, w')"
  shows "tm_secret m \<noteq> [] \<and> tm_issuer m \<noteq> [] \<and> 0 < tm_expiresIn m \<and>
    Cfg_WebhookToken cfg \<noteq> [] \<and> Cfg_WebhookToken cfg \<noteq> tm_secret m"
    and "Boot_Username (Cfg_Bootstrap cfg) \<noteq> [] \<Longrightarrow>
      \<exists>u\<in>set (T_users (w_db w')). env_coll E (User_Username u) = env_coll E (Boot_Username (Cfg_Bootstrap cfg))"
proof -
  obtain m0 where tm: "NewTokenManager (JWT_Secret (Cfg_JWT cfg)) (JWT_Issuer (Cfg_JWT cfg)) (JWT_ExpiresIn (Cfg_JWT cfg)) = Inr m0"
    using assms by (auto simp: api_startup_def split: sum.splits)
  then obtain u where boot: "Bootstrap A (auth_repository E) (Boot_Username (Cfg_Bootstrap cfg))
        (Boot_Password (Cfg_Bootstrap cfg)) w = (Inr u, w')"
    and rest: "m = m0" "Cfg_WebhookToken cfg \<noteq> []" "Cfg_WebhookToken cfg \<noteq> JWT_Secret (Cfg_JWT cfg)"
    using assms by (auto simp: api_startup_def elim!: op_bind_Inr)
  show "tm_secret m \<noteq> [] \<and> tm_issuer m \<noteq> [] \<and> 0 < tm_expiresIn m \<and>
    Cfg_WebhookToken cfg \<noteq> [] \<and> Cfg_WebhookToken cfg \<noteq> tm_secret m"
    using tm rest by (simp add: NewTokenManager_Inr)
  show "\<exists>u\<in>set (T_users (w_db w')). env_coll E (User_Username u) = env_coll E (Boot_Username (Cfg_Bootstrap cfg))"
    if "Boot_Username (Cfg_Bootstrap cfg) \<noteq> []"
    by (rule auth_repo.Bootstrap_effect(2) [OF boot]) (simp_all add: that)
qed

section \<open>The consumer name of a worker\<close>

definition consumerName :: "env \<Rightarrow> string \<Rightarrow> world \<Rightarrow> string \<times> world" where
  "consumerName E host w =
     (case rand_read E 4 w of
        (Inl err, w') \<Rightarrow> (host @ ''-'' @ Itoa (env_clock E (w_tick w')), tick w')
      | (Inr buffer, w') \<Rightarrow> (host @ ''-'' @ hex_encode buffer, w'))"

end
