(* ===== verification/Metrics.thy ===== *)
theory Metrics
  imports ServerSpec ProbeProcessor
begin

text \<open>
  What the program tells about itself: the observer of the probe processor and the gauges of
  the worker, the access log and the request counters of the API, and the two collectors that
  read the shared database. Observation is state beside the world; that it never changes what
  the program does is proved here, and what its numbers mean.
\<close>

section \<open>Operations beside which something is observed\<close>

definition on_world :: "(world, 'a) op \<Rightarrow> (world \<times> 'm, 'a) op" where
  "on_world f s = (let (r, w) = f (fst s) in (r, (w, snd s)))"

definition observing :: "(world \<Rightarrow> 'm \<Rightarrow> 'm) \<Rightarrow> (world \<times> 'm, unit) op" where
  "observing g s = (Inr (), (fst s, g (fst s) (snd s)))"

text \<open>A deferred call: it runs when the rest of the function has returned, with or without error.\<close>

definition deferring :: "('m \<Rightarrow> 'm) \<Rightarrow> (world \<times> 'm, 'a) op \<Rightarrow> (world \<times> 'm, 'a) op" where
  "deferring g f s = (let (r, (w, m)) = f s in (r, (w, g m)))"

definition transparent :: "(world \<times> 'm, 'a) op \<Rightarrow> (world, 'a) op \<Rightarrow> bool" where
  "transparent f' f \<longleftrightarrow> (\<forall>w m. map_prod id fst (f' (w, m)) = f w)"

lemma transparentD: "transparent f' f \<Longrightarrow> f' (w, m) = (r, (w', m')) \<Longrightarrow> f w = (r, w')"
  by (metis transparent_def map_prod_simp id_apply fst_conv)

lemma transparent_bind:
  assumes "transparent f' f" and "\<And>x. transparent (k' x) (k x)"
  shows "transparent (op_bind f' k') (op_bind f k)"
  unfolding transparent_def
proof (intro allI)
  fix w m
  obtain r w1 m1 where f': "f' (w, m) = (r, (w1, m1))" by (metis surj_pair)
  then have f: "f w = (r, w1)" by (rule transparentD [OF assms(1)])
  show "map_prod id fst (op_bind f' k' (w, m)) = op_bind f k w"
    using assms(2) f f' by (cases r) (simp_all add: op_bind_def transparent_def)
qed

lemma transparent_simple:
  "transparent (on_world f) f" "transparent (op_return x) (op_return x)" "transparent (op_fail e) (op_fail e)"
  by (simp_all add: transparent_def on_world_def Let_def split: prod.split)

lemma transparent_deferring: "transparent f' f \<Longrightarrow> transparent (deferring g f') f"
  by (simp add: transparent_def deferring_def map_prod_def Let_def case_prod_beta)

lemma transparent_observing: "transparent f' f \<Longrightarrow> transparent (op_bind (observing h) (\<lambda>_. f')) f"
  by (simp add: transparent_def observing_def op_bind_def)

lemma transparent_option:
  "transparent a' a \<Longrightarrow> (\<And>x. transparent (k' x) (k x)) \<Longrightarrow>
     transparent (case y of None \<Rightarrow> a' | Some x \<Rightarrow> k' x) (case y of None \<Rightarrow> a | Some x \<Rightarrow> k x)"
  by (cases y) simp_all

lemmas transparent_intros = transparent_option transparent_observing transparent_deferring transparent_simple transparent_bind

section \<open>The observer of the processor\<close>

record worker_metrics =
  wm_total :: "string \<times> string \<Rightarrow> nat"
  wm_duration :: "string \<Rightarrow> duration list"
  wm_active :: int
  wm_queue :: int

definition Worker_ActiveInc :: "worker_metrics \<Rightarrow> worker_metrics" where
  "Worker_ActiveInc m = m\<lparr>wm_active := wm_active m + 1\<rparr>"

definition Worker_ActiveDec :: "worker_metrics \<Rightarrow> worker_metrics" where
  "Worker_ActiveDec m = m\<lparr>wm_active := wm_active m - 1\<rparr>"

definition Worker_SetQueueLength :: "int \<Rightarrow> worker_metrics \<Rightarrow> worker_metrics" where
  "Worker_SetQueueLength value m = m\<lparr>wm_queue := value\<rparr>"

definition Worker_Observe :: "ExecutionWork \<Rightarrow> Result \<Rightarrow> duration \<Rightarrow> worker_metrics \<Rightarrow> worker_metrics" where
  "Worker_Observe work result d m =
     (let outcome = (if Res_Success result then ''success'' else ''failure'');
          probeType = Exec_ProbeType (Work_Execution work)
      in m\<lparr>wm_total := (wm_total m)((probeType, outcome) := wm_total m (probeType, outcome) + 1),
           wm_duration := (wm_duration m)(probeType := wm_duration m probeType @ [d])\<rparr>)"

text \<open>
  \<open>Process\<close> with its observer: the gauge of active workers is raised around the probe, and
  one observation is made after it.
\<close>

definition observed_probe ::
  "env \<Rightarrow> world probe \<Rightarrow> world waiting \<Rightarrow> ExecutionWork \<Rightarrow> string \<Rightarrow> string \<Rightarrow> time \<Rightarrow> (world \<times> worker_metrics, unit) op" where
  "observed_probe E implementation waitFor work i consumer started =
     op_bind (on_world (process_probe implementation waitFor work)) (\<lambda>(result, attempts).
     op_bind (on_world (time_now E)) (\<lambda>finished.
     op_bind (observing (\<lambda>w. Worker_Observe work result (env_clock E (w_tick w) - started))) (\<lambda>_.
     op_bind (on_world (time_now E)) (\<lambda>t.
     on_world (ProbeRepo_MarkFinal E i consumer finished (go_quot (t - started) millisecond) result attempts)))))"

definition Process_observed ::
  "env \<Rightarrow> duration \<Rightarrow> world probes \<Rightarrow> world waiting \<Rightarrow> ExecutionMessage \<Rightarrow> string \<Rightarrow> (world \<times> worker_metrics, unit) op" where
  "Process_observed E idleTimeout ps waitFor message consumer =
     op_bind (on_world (process_look E (Msg_ExecutionID message))) (\<lambda>look.
     case look of
       None \<Rightarrow> op_return ()
     | Some work \<Rightarrow>
         op_bind (on_world (process_take E idleTimeout (Msg_ExecutionID message) consumer)) (\<lambda>_.
         case probe_of ps (Exec_ProbeType (Work_Execution work)) of
           None \<Rightarrow> op_fail (New ''unsupported probe type'')
         | Some implementation \<Rightarrow>
             op_bind (on_world (time_now E)) (\<lambda>started.
             op_bind (observing (\<lambda>w. Worker_ActiveInc)) (\<lambda>_.
             deferring Worker_ActiveDec
               (observed_probe E implementation waitFor work (Msg_ExecutionID message) consumer started)))))"

text \<open>Observation is transparent: result and world are those of \<open>Process\<close>.\<close>

lemma observed_probe_transparent:
  "transparent (observed_probe E implementation waitFor work i consumer started)
     (op_bind (process_probe implementation waitFor work) (\<lambda>(result, attempts).
        process_settle E i consumer started result attempts))"
  unfolding observed_probe_def process_settle_def split_beta by (intro transparent_intros)

lemma Process_observed_transparent:
  "transparent (Process_observed E idleTimeout ps waitFor message consumer)
     (Processor_Process E idleTimeout ps waitFor message consumer)"
  unfolding Process_observed_def Processor_Process_def
  by (intro transparent_intros observed_probe_transparent)

text \<open>
  What the observer sees: nothing when the execution was not probed, and otherwise exactly one
  observation; the gauge of active workers is back where it was. When \<open>Process\<close>
  succeeds, the outcome that was counted is the status that was stored.
\<close>

definition counted_as :: "Result \<Rightarrow> string" where
  "counted_as result = (if Res_Success result then ExecutionSuccess else ExecutionFailed)"

lemma process_probe_total: "\<exists>result attempts w'. process_probe implementation waitFor work w = (Inr (result, attempts), w')"
  by (simp add: process_probe_def case_prod_beta surj_pair)

lemma observed_probe_effect:
  assumes "observed_probe E implementation waitFor work i consumer started (w, m) = (r, (w', m'))"
  shows "\<exists>result d. m' = Worker_Observe work result d m \<and>
    (r = Inr () \<longrightarrow> (\<exists>x\<in>set (T_results (w_db w')). has_execution_id E i x \<and> Exec_Status x = counted_as result))"
proof -
  obtain result attempts w1 where p: "process_probe implementation waitFor work w = (Inr (result, attempts), w1)"
    using process_probe_total by blast
  obtain d finished duration w2 where m': "m' = Worker_Observe work result d m"
    and final: "ProbeRepo_MarkFinal E i consumer finished duration result attempts w2 = (r, w')"
    using assms p
    by (auto simp: observed_probe_def op_bind_def on_world_def observing_def Let_def split: prod.splits)
  have "\<exists>x\<in>set (T_results (w_db w')). has_execution_id E i x \<and> Exec_Status x = counted_as result" if r: "r = Inr ()"
  proof -
    obtain x now where "finishable E i consumer x"
      and row: "finished_row E finished duration result attempts now x \<in> set (T_results (w_db w'))"
      using MarkFinal_row final r by metis
    then have "has_execution_id E i (finished_row E finished duration result attempts now x)"
      by (simp add: finishable_def has_execution_id_def finished_row_def)
    then show ?thesis using row by (intro bexI [OF _ row]) (simp add: finished_row_def counted_as_def)
  qed
  then show ?thesis using m' by blast
qed

lemma Process_observed_effect:
  assumes "Process_observed E idleTimeout ps waitFor message consumer (w, m) = (r, (w', m'))"
  shows "(m' = m \<and> (r = Inr () \<longrightarrow> settled E (w_db w) (Msg_ExecutionID message))) \<or>
    (\<exists>work result d. m' = Worker_Observe work result d m \<and>
      (r = Inr () \<longrightarrow> (\<exists>x\<in>set (T_results (w_db w')). has_execution_id E (Msg_ExecutionID message) x \<and>
         Exec_Status x = counted_as result)))"
proof -
  obtain look w1 where look: "process_look E (Msg_ExecutionID message) w = (look, w1)" by (metis surj_pair)
  consider (quiet) "m' = m" "r = Inr () \<longrightarrow> look = Inr None"
    | (probed) work implementation w2 started m1 where "m' = Worker_ActiveDec m1"
        "observed_probe E implementation waitFor work (Msg_ExecutionID message) consumer started
           (w2, Worker_ActiveInc m) = (r, (w', m1))"
    using assms look
    by (auto simp: Process_observed_def op_bind_def on_world_def observing_def deferring_def Let_def
        split: prod.splits sum.splits option.splits)
  then show ?thesis
  proof cases
    case quiet
    then show ?thesis using process_look_None look by (metis (no_types, lifting))
  next
    case probed
    obtain result d where "m1 = Worker_Observe work result d (Worker_ActiveInc m)"
      and "r = Inr () \<longrightarrow> (\<exists>x\<in>set (T_results (w_db w')). has_execution_id E (Msg_ExecutionID message) x \<and>
         Exec_Status x = counted_as result)"
      using observed_probe_effect [OF probed(2)] by blast
    moreover from this(1) have "m' = Worker_Observe work result d m"
      using probed(1) by (simp add: Worker_Observe_def Worker_ActiveInc_def Worker_ActiveDec_def Let_def)
    ultimately show ?thesis by blast
  qed
qed

section \<open>Observers of requests\<close>

text \<open>
  The access log, the request counter and the histogram of durations, of which the observations
  themselves are kept, in order. Reading the clock does not advance the program.
\<close>

record access =
  ac_RequestID :: string
  ac_Method :: string
  ac_Route :: string
  ac_Status :: string
  ac_Duration :: duration

record requests_seen =
  rs_requests :: "string list \<Rightarrow> nat"
  rs_duration :: "string list \<Rightarrow> duration list"
  rs_log :: "access list"

definition route_label :: "string \<Rightarrow> string" where
  "route_label fullPath = (if fullPath = [] then ''unmatched'' else fullPath)"

definition counted_request :: "string list \<Rightarrow> duration \<Rightarrow> requests_seen \<Rightarrow> requests_seen" where
  "counted_request labels d m = m\<lparr>rs_requests := (rs_requests m)(labels := rs_requests m labels + 1),
     rs_duration := (rs_duration m)(labels := rs_duration m labels @ [d])\<rparr>"

text \<open>\<open>time.Since\<close> of a reading of the clock in one world, in a later one.\<close>

definition elapsed :: "env \<Rightarrow> world \<Rightarrow> world \<Rightarrow> duration" where
  "elapsed E w w' = env_clock E (w_tick w') - env_clock E (w_tick w)"

text \<open>What follows \<open>c.Next()\<close> is not reached when the rest of the chain panics.\<close>

definition API_Middleware :: "env \<Rightarrow> string \<Rightarrow> string \<Rightarrow> (world \<times> requests_seen) handling \<Rightarrow> (world \<times> requests_seen) handling" where
  "API_Middleware E meth fullPath next c s =
     (case next c s of
        (Panicked, s') \<Rightarrow> (Panicked, s')
      | (Replied p, (w, m)) \<Rightarrow>
          (Replied p, (w, counted_request [meth, route_label fullPath, Itoa (rp_Status p)] (elapsed E (fst s) w) m)))"

definition AccessLog :: "env \<Rightarrow> string \<Rightarrow> string \<Rightarrow> (world \<times> requests_seen) handling \<Rightarrow> (world \<times> requests_seen) handling" where
  "AccessLog E meth fullPath next c s =
     (case next c s of
        (Panicked, s') \<Rightarrow> (Panicked, s')
      | (Replied p, (w, m)) \<Rightarrow>
          (Replied p, (w, m\<lparr>rs_log := rs_log m @ [\<lparr>ac_RequestID = GetRequestID c, ac_Method = meth,
             ac_Route = route_label fullPath, ac_Status = Itoa (rp_Status p), ac_Duration = elapsed E (fst s) w\<rparr>]\<rparr>)))"

definition unobserved :: "handler \<Rightarrow> (world \<times> requests_seen) handling" where
  "unobserved h c s = (let (r, w) = h c (fst s) in (r, (w, snd s)))"

definition full_path :: "server \<Rightarrow> string \<Rightarrow> string \<Rightarrow> string" where
  "full_path sv meth path = (case matched sv meth path of None \<Rightarrow> [] | Some (r, i) \<Rightarrow> ro_Path r)"

definition observed_chain :: "server \<Rightarrow> string \<Rightarrow> string \<Rightarrow> (world \<times> requests_seen) handling" where
  "observed_chain sv meth path =
     AccessLog (sv_env sv) meth (full_path sv meth path) (Recovery
       (API_Middleware (sv_env sv) meth (full_path sv meth path) (unobserved (dispatch sv meth path))))"

definition serve_observed :: "server \<Rightarrow> string \<Rightarrow> string \<Rightarrow> (world \<times> requests_seen) handling" where
  "serve_observed sv meth path =
     RequestID (on_world (newRequestID (sv_env sv))) (observed_chain sv meth path)"

definition transparent_handler :: "(world \<times> 'm) handling \<Rightarrow> handler \<Rightarrow> bool" where
  "transparent_handler h' h \<longleftrightarrow> (\<forall>c. \<forall>w m. map_prod id fst (h' c (w, m)) = h c w)"

lemma transparent_handlerD: "transparent_handler h' h \<Longrightarrow> h' c (w, m) = (r, (w', m')) \<Longrightarrow> h c w = (r, w')"
  by (metis transparent_handler_def map_prod_simp id_apply fst_conv)

lemma transparent_handler_base: "transparent_handler (unobserved h) h"
  by (simp add: transparent_handler_def unobserved_def split: prod.split)

lemma transparent_middleware:
  assumes "transparent_handler h' h"
  shows "transparent_handler (API_Middleware E meth fp h') h" and "transparent_handler (AccessLog E meth fp h') h"
    and "transparent_handler (Recovery h') (Recovery h)"
  using transparent_handlerD [OF assms]
  by (auto simp: transparent_handler_def API_Middleware_def AccessLog_def Recovery_def
      split: prod.split outcome.split)

lemma transparent_RequestID:
  assumes "transparent_handler h' h" and "transparent g' g"
  shows "transparent_handler (RequestID g' h') (RequestID g h)"
proof -
  note g = transparentD [OF assms(2)]
  show ?thesis
    using transparent_handlerD [OF assms(1)]
    by (auto simp: transparent_handler_def RequestID_def Let_def dest!: g split: prod.split sum.split)
qed

lemma serve_observed_transparent: "transparent_handler (serve_observed sv meth path) (serve sv meth path)"
  unfolding serve_observed_def observed_chain_def serve_def
  by (intro transparent_RequestID transparent_middleware transparent_handler_base transparent_simple)

text \<open>The line of the access log and the counter that a request is to be found under.\<close>

definition access_line :: "server \<Rightarrow> string \<Rightarrow> string \<Rightarrow> gin_context \<Rightarrow> int \<Rightarrow> duration \<Rightarrow> access" where
  "access_line sv meth path c status d = \<lparr>ac_RequestID = GetRequestID c, ac_Method = meth,
     ac_Route = route_label (full_path sv meth path), ac_Status = Itoa status, ac_Duration = d\<rparr>"

definition request_key :: "server \<Rightarrow> string \<Rightarrow> string \<Rightarrow> reply \<Rightarrow> string list" where
  "request_key sv meth path p = [meth, route_label (full_path sv meth path), Itoa (rp_Status p)]"

text \<open>A request adds one line to the access log, with the status of its reply and how long it took.\<close>

lemma chain_logs:
  "case observed_chain sv meth path c (w, m) of (r, (w', m')) \<Rightarrow>
     \<exists>p. r = Replied p \<and>
       rs_log m' = rs_log m @ [access_line sv meth path c (rp_Status p) (elapsed (sv_env sv) w w')]"
  by (auto simp: observed_chain_def AccessLog_def Recovery_def API_Middleware_def unobserved_def
      InternalError_def counted_request_def access_line_def split: prod.split outcome.split)

text \<open>It is counted once, under the status of its reply, unless the handler panicked.\<close>

lemma chain_counts:
  "case observed_chain sv meth path c (w, m) of (r, (w', m')) \<Rightarrow>
     (case fst (dispatch sv meth path c w) of
        Panicked \<Rightarrow> r = InternalError \<and> rs_requests m' = rs_requests m \<and> rs_duration m' = rs_duration m
      | Replied p \<Rightarrow> r = Replied p \<and>
          rs_requests m' = (rs_requests m)(request_key sv meth path p := rs_requests m (request_key sv meth path p) + 1) \<and>
          rs_duration m' = (rs_duration m)(request_key sv meth path p :=
            rs_duration m (request_key sv meth path p) @ [elapsed (sv_env sv) w w']))"
  by (auto simp: observed_chain_def AccessLog_def Recovery_def API_Middleware_def unobserved_def
      counted_request_def InternalError_def request_key_def split: prod.split outcome.split)

section \<open>What is registered\<close>

text \<open>
  The metrics by name and labels, beside those of the Go runtime and of the process. The
  library panics when two metrics of a registry have the same name, and when an observation has
  not one value for every label.
\<close>

record metric =
  mt_Name :: string
  mt_Labels :: "string list"

definition NewAPI :: "metric list" where
  "NewAPI =
     [\<lparr>mt_Name = ''cloudsentinel_http_requests_total'', mt_Labels = [''method'', ''route'', ''status'']\<rparr>,
      \<lparr>mt_Name = ''cloudsentinel_http_request_duration_seconds'', mt_Labels = [''method'', ''route'', ''status'']\<rparr>]"

definition NewActiveIncidentCollector :: metric where
  "NewActiveIncidentCollector = \<lparr>mt_Name = ''cloudsentinel_active_incidents'', mt_Labels = []\<rparr>"

definition newLatestProbeCollector :: metric where
  "newLatestProbeCollector =
     \<lparr>mt_Name = ''cloudsentinel_probe_status'', mt_Labels = [''service_id'', ''task_id'', ''probe_type'']\<rparr>"

definition NewWorker :: "metric list" where
  "NewWorker =
     [\<lparr>mt_Name = ''cloudsentinel_probe_total'', mt_Labels = [''probe_type'', ''outcome'']\<rparr>,
      \<lparr>mt_Name = ''cloudsentinel_probe_duration_seconds'', mt_Labels = [''probe_type'']\<rparr>,
      \<lparr>mt_Name = ''cloudsentinel_worker_active'', mt_Labels = []\<rparr>,
      \<lparr>mt_Name = ''cloudsentinel_worker_queue_length'', mt_Labels = []\<rparr>,
      newLatestProbeCollector]"

record sample =
  sa_value :: int
  sa_ServiceID :: string
  sa_TaskID :: string
  sa_ProbeType :: string

definition sample_labels :: "sample \<Rightarrow> string list" where
  "sample_labels x = [sa_ServiceID x, sa_TaskID x, sa_ProbeType x]"

lemma registries_distinct:
  "distinct (map mt_Name (NewAPI @ [NewActiveIncidentCollector]))" "distinct (map mt_Name NewWorker)"
  by code_simp+

lemma request_key_labels: "\<forall>mt\<in>set NewAPI. length (request_key sv meth path p) = length (mt_Labels mt)"
  by (simp add: NewAPI_def request_key_def)

lemma sample_labels_length: "length (sample_labels x) = length (mt_Labels newLatestProbeCollector)"
  by (simp add: newLatestProbeCollector_def sample_labels_def)

text \<open>Every count is the number of the durations observed with it.\<close>

definition durations_counted :: "requests_seen \<Rightarrow> bool" where
  "durations_counted m \<longleftrightarrow> (\<forall>labels. length (rs_duration m labels) = rs_requests m labels)"

lemma chain_durations_counted:
  assumes "durations_counted m"
  shows "case observed_chain sv meth path c (w, m) of (r, (w', m')) \<Rightarrow> durations_counted m'"
  using chain_counts [where sv = sv and meth = meth and path = path and c = c and w = w and m = m] assms
  by (auto simp: durations_counted_def split: prod.splits outcome.splits)

lemma Worker_Observe_durations:
  assumes "length (wm_duration m t) = wm_total m (t, ''success'') + wm_total m (t, ''failure'')"
  shows "length (wm_duration (Worker_Observe work result d m) t) =
    wm_total (Worker_Observe work result d m) (t, ''success'') + wm_total (Worker_Observe work result d m) (t, ''failure'')"
  using assms by (cases "Res_Success result") (auto simp: Worker_Observe_def Let_def)

section \<open>The collectors on the database\<close>

text \<open>
  The gauge of active incidents, and the latest status of every task: the rows joined with the
  greatest identifier of the final executions of each task.
\<close>

definition incident_active :: "Incident \<Rightarrow> bool" where
  "incident_active x \<longleftrightarrow> Inc_Status x \<in> set [IncFiring, IncAcknowledged, IncProcessing]"

definition ActiveIncidents_Collect :: "env \<Rightarrow> world \<Rightarrow> int option \<times> world" where
  "ActiveIncidents_Collect E w =
     (case db_query E (\<lambda>d. Inr (int (length (filter incident_active (T_incidents d))))) w of
        (Inl err, w') \<Rightarrow> (None, w')
      | (Inr count, w') \<Rightarrow> (Some count, w'))"

definition final_rows :: "db \<Rightarrow> Execution list" where
  "final_rows d = filter (\<lambda>x. Exec_Status x \<in> set [ExecutionSuccess, ExecutionFailed]) (T_results d)"

definition latest_id :: "db \<Rightarrow> u64 \<Rightarrow> u64" where
  "latest_id d task = fold max (map Exec_ID (filter (\<lambda>x. Exec_TaskID x = task) (final_rows d))) 0"

definition latest_ids :: "db \<Rightarrow> u64 list" where
  "latest_ids d = map (latest_id d) (remdups (map Exec_TaskID (final_rows d)))"

definition latest_rows :: "db \<Rightarrow> Execution list" where
  "latest_rows d = filter (\<lambda>pr. Exec_ID pr \<in> set (latest_ids d)) (T_results d)"

text \<open>A success column that is NULL scans as false.\<close>

definition latest_sample :: "Execution \<Rightarrow> sample" where
  "latest_sample x = \<lparr>sa_value = (if Exec_Success x = Some True then 1 else 0),
     sa_ServiceID = FormatUint (Exec_ServiceID x), sa_TaskID = FormatUint (Exec_TaskID x),
     sa_ProbeType = Exec_ProbeType x\<rparr>"

definition LatestProbe_Collect :: "env \<Rightarrow> world \<Rightarrow> sample list \<times> world" where
  "LatestProbe_Collect E w =
     (case db_query E (\<lambda>d. Inr (latest_rows d)) w of
        (Inl err, w') \<Rightarrow> ([], w')
      | (Inr rows, w') \<Rightarrow> (map latest_sample rows, w'))"

text \<open>The active incidents are those neither resolved nor closed.\<close>

lemma active_incidents_open:
  assumes "incidents_inv E d" and "x \<in> set (T_incidents d)"
  shows "incident_active x \<longleftrightarrow> Inc_ResolvedAt x = None"
  using assms by (auto simp: incidents_inv_def incident_active_def incident_ok_def)

lemma active_incidents_card:
  assumes "incidents_inv E d"
  shows "length (filter incident_active (T_incidents d)) =
    card {i \<in> Inc_ID ` set (T_incidents d). \<exists>x\<in>set (T_incidents d). Inc_ID x = i \<and> Inc_ResolvedAt x = None}"
proof -
  let ?open = "filter incident_active (T_incidents d)"
  have "distinct (map Inc_ID ?open)" using assms by (simp add: incidents_inv_def distinct_map_filter)
  then have "length ?open = card (Inc_ID ` set ?open)" by (metis distinct_card length_map set_map)
  also have "Inc_ID ` set ?open = {i \<in> Inc_ID ` set (T_incidents d). \<exists>x\<in>set (T_incidents d). Inc_ID x = i \<and> Inc_ResolvedAt x = None}"
    using active_incidents_open [OF assms] by (force simp: image_iff)
  finally show ?thesis .
qed

lemma fold_max_ge: "(a :: u64) \<le> fold max xs a" "x \<in> set xs \<Longrightarrow> x \<le> fold max xs (a :: u64)"
proof (induction xs arbitrary: a)
  case (Cons y ys)
  { case 1 show ?case using Cons.IH(1) [of "max y a"] by simp
  next
    case 2 then show ?case using Cons.IH(1) [of "max y a"] Cons.IH(2) [of "max y a"] by auto }
qed simp_all

lemma fold_max_mem: "fold max xs (a :: u64) \<in> insert a (set xs)"
proof (induction xs arbitrary: a)
  case (Cons y ys)
  show ?case using Cons [of "max y a"] by (auto simp: max_def split: if_splits)
qed simp

text \<open>
  The row of a task that is shown is its newest final execution, where identifiers are unique
  and not zero, as the primary key makes them.
\<close>

lemma latest_id_mem:
  assumes "x \<in> set (final_rows d)" and "\<forall>x\<in>set (T_results d). Exec_ID x \<noteq> 0"
  shows "\<exists>y\<in>set (final_rows d). Exec_TaskID y = Exec_TaskID x \<and> Exec_ID y = latest_id d (Exec_TaskID x)"
proof -
  let ?ids = "map Exec_ID (filter (\<lambda>y. Exec_TaskID y = Exec_TaskID x) (final_rows d))"
  have "Exec_ID x \<le> fold max ?ids 0" using assms(1) by (intro fold_max_ge(2)) simp
  moreover have "Exec_ID x \<noteq> 0" using assms by (auto simp: final_rows_def)
  ultimately have "fold max ?ids 0 \<noteq> 0" by auto
  then show ?thesis using fold_max_mem [of ?ids 0] by (auto simp: latest_id_def)
qed

lemma latest_rows_newest:
  assumes "distinct (map Exec_ID (T_results d))" and "\<forall>x\<in>set (T_results d). Exec_ID x \<noteq> 0"
  shows "set (latest_rows d) = {x \<in> set (final_rows d).
    \<forall>y\<in>set (final_rows d). Exec_TaskID y = Exec_TaskID x \<longrightarrow> Exec_ID y \<le> Exec_ID x}"
proof -
  have same: "x = y" if "x \<in> set (T_results d)" "y \<in> set (T_results d)" "Exec_ID x = Exec_ID y" for x y
    using distinct_map_unique [OF assms(1) that] .
  have newest: "Exec_ID y \<le> latest_id d (Exec_TaskID x)"
    if "y \<in> set (final_rows d)" "Exec_TaskID y = Exec_TaskID x" for x y
    unfolding latest_id_def by (rule fold_max_ge(2)) (use that in auto)
  have sub: "x \<in> set (T_results d)" if "x \<in> set (final_rows d)" for x using that by (simp add: final_rows_def)
  show ?thesis
  proof (intro set_eqI iffI)
    fix x assume "x \<in> set (latest_rows d)"
    then obtain z where x: "x \<in> set (T_results d)" and z: "z \<in> set (final_rows d)"
      and id: "Exec_ID x = latest_id d (Exec_TaskID z)"
      by (auto simp: latest_rows_def latest_ids_def)
    obtain y where "y \<in> set (final_rows d)" "Exec_TaskID y = Exec_TaskID z" "Exec_ID y = latest_id d (Exec_TaskID z)"
      using latest_id_mem [OF z assms(2)] by blast
    moreover from this have "x = y" using same x sub id by simp
    ultimately show "x \<in> {x \<in> set (final_rows d).
        \<forall>y\<in>set (final_rows d). Exec_TaskID y = Exec_TaskID x \<longrightarrow> Exec_ID y \<le> Exec_ID x}"
      using newest by auto
  next
    fix x assume "x \<in> {x \<in> set (final_rows d).
        \<forall>y\<in>set (final_rows d). Exec_TaskID y = Exec_TaskID x \<longrightarrow> Exec_ID y \<le> Exec_ID x}"
    then have x: "x \<in> set (final_rows d)"
      and max: "\<And>y. y \<in> set (final_rows d) \<Longrightarrow> Exec_TaskID y = Exec_TaskID x \<Longrightarrow> Exec_ID y \<le> Exec_ID x" by auto
    obtain y where "y \<in> set (final_rows d)" "Exec_TaskID y = Exec_TaskID x" "Exec_ID y = latest_id d (Exec_TaskID x)"
      using latest_id_mem [OF x assms(2)] by blast
    then have "Exec_ID x = latest_id d (Exec_TaskID x)" using max newest [OF x refl] by (metis order_antisym)
    then show "x \<in> set (latest_rows d)" using x sub by (auto simp: latest_rows_def latest_ids_def)
  qed
qed

end
