(* ===== verification/Platform.thy ===== *)
theory Platform
  imports Startup Metrics
begin

text \<open>
  How the configuration reaches the parts of the two processes: the options of the Redis client
  and of the connection pool (\<open>internal/platform\<close>), the dependency checks, the wiring of the
  worker (\<open>cmd/worker\<close>) and of the API server (\<open>cmd/api\<close>).
\<close>

section \<open>Redis and MySQL\<close>

record tls_config =
  tls_MinVersion :: int
  tls_ServerName :: string

abbreviation "VersionTLS12 \<equiv> (0x0303 :: int)"

record redis_options =
  ro_Addr :: string
  ro_Password :: string
  ro_DB :: int
  ro_PoolSize :: int
  ro_MinIdleConns :: int
  ro_DialTimeout :: duration
  ro_ReadTimeout :: duration
  ro_WriteTimeout :: duration
  ro_TLSConfig :: "tls_config option"

definition NewRedis :: "RedisConfig \<Rightarrow> redis_options" where
  "NewRedis cfg = \<lparr>ro_Addr = JoinHostPort (Redis_Host cfg) (Itoa (Redis_Port cfg)),
     ro_Password = Redis_Password cfg, ro_DB = Redis_DB cfg, ro_PoolSize = Redis_PoolSize cfg,
     ro_MinIdleConns = Redis_MinIdleConns cfg, ro_DialTimeout = Redis_DialTimeout cfg,
     ro_ReadTimeout = Redis_ReadTimeout cfg, ro_WriteTimeout = Redis_WriteTimeout cfg,
     ro_TLSConfig = (if Redis_TLSEnabled cfg
       then Some \<lparr>tls_MinVersion = VersionTLS12, tls_ServerName = Redis_Host cfg\<rparr> else None)\<rparr>"

record pool_settings =
  po_MaxOpenConns :: int
  po_MaxIdleConns :: int
  po_ConnMaxLifetime :: duration
  po_ConnMaxIdleTime :: duration

definition pool_of :: "DatabaseConfig \<Rightarrow> pool_settings" where
  "pool_of cfg = \<lparr>po_MaxOpenConns = DB_MaxOpenConns cfg, po_MaxIdleConns = DB_MaxIdleConns cfg,
     po_ConnMaxLifetime = DB_ConnMaxLifetime cfg, po_ConnMaxIdleTime = DB_ConnMaxIdleTime cfg\<rparr>"

text \<open>A ping is what the driver answers at a point in time, by its deadline.\<close>

type_synonym ping = "duration \<Rightarrow> world \<Rightarrow> go_error option"

definition Redis_Check :: "RedisConfig \<Rightarrow> ping \<Rightarrow> world \<Rightarrow> go_error option" where
  "Redis_Check cfg ping w = map_option (Wrap ''ping Redis: '') (ping (Redis_PingTimeout cfg) w)"

definition Database_Check :: "DatabaseConfig \<Rightarrow> ping \<Rightarrow> world \<Rightarrow> go_error option" where
  "Database_Check cfg ping w = ping (DB_PingTimeout cfg) w"

definition dependencies :: "Config \<Rightarrow> ping \<Rightarrow> ping \<Rightarrow> (string \<times> (world \<Rightarrow> go_error option)) list" where
  "dependencies cfg mysql_ping redis_ping =
     [(''mysql'', Database_Check (Cfg_Database cfg) mysql_ping),
      (''redis'', Redis_Check (Cfg_Redis cfg) redis_ping)]"

section \<open>The worker\<close>

record worker_setup =
  ws_interval :: duration         \<comment> \<open>of the scheduler and of the recovery dispatcher\<close>
  ws_batch :: int
  ws_policy :: NetworkPolicy
  ws_idle :: duration             \<comment> \<open>of the processor and of XAUTOCLAIM\<close>
  ws_stream :: string
  ws_group :: string
  ws_readCount :: int
  ws_block :: duration
  ws_claimInterval :: duration
  ws_workers :: int
  ws_capacity :: int

definition worker_setup_of :: "Config \<Rightarrow> worker_setup" where
  "worker_setup_of cfg = (let p = Cfg_Probe cfg in
     \<lparr>ws_interval = Prb_SchedulerInterval p, ws_batch = Prb_SchedulerBatchSize p,
      ws_policy = \<lparr>AllowPrivate = Prb_AllowPrivate p, AllowLoopback = Prb_AllowLoopback p\<rparr>,
      ws_idle = Prb_MessageIdleTimeout p, ws_stream = Prb_StreamKey p, ws_group = Prb_ConsumerGroup p,
      ws_readCount = Prb_StreamReadCount p, ws_block = Prb_StreamBlockTimeout p,
      ws_claimInterval = Prb_PendingScanPeriod p, ws_workers = Prb_WorkerCount p,
      ws_capacity = Prb_QueueCapacity p\<rparr>)"

text \<open>
  What the goroutines need of these numbers not to panic when they start: \<open>time.NewTicker\<close>
  wants a positive period and \<open>make\<close> a capacity that is not negative.
\<close>

definition worker_starts :: "worker_setup \<Rightarrow> bool" where
  "worker_starts s \<longleftrightarrow> 0 < ws_interval s \<and> 0 < ws_claimInterval s \<and> 0 \<le> ws_capacity s"

section \<open>The API server\<close>

definition api_server ::
  "env \<Rightarrow> golib \<Rightarrow> httplib \<Rightarrow> authlib \<Rightarrow> ping \<Rightarrow> ping \<Rightarrow> (gin_context \<Rightarrow> world \<Rightarrow> outcome) \<Rightarrow>
     ((string \<times> string) list \<Rightarrow> string \<Rightarrow> string \<Rightarrow> (nat \<times> string) option) \<Rightarrow> (gin_context \<Rightarrow> outcome) \<Rightarrow>
     Config \<Rightarrow> TokenManager \<Rightarrow> server" where
  "api_server E L H A mysql_ping redis_ping metrics gin_route gin_no_route cfg tokenManager =
     \<lparr>sv_env = E, sv_lib = L, sv_http = H, sv_auth = A, sv_tokens = tokenManager,
      sv_webhook_token = Cfg_WebhookToken cfg, sv_pings = dependencies cfg mysql_ping redis_ping,
      sv_metrics = metrics, sv_gin_route = gin_route, sv_gin_no_route = gin_no_route\<rparr>"

text \<open>The environment in which no variable is set.\<close>

definition default_probe :: "fraction \<Rightarrow> (string \<Rightarrow> string option) \<Rightarrow> worker_setup option" where
  "default_probe F V = (case Load F V of Inl err \<Rightarrow> None | Inr cfg \<Rightarrow> Some (worker_setup_of cfg))"

end
