(* ===== verification/DataSource.thy ===== *)
theory DataSource
  imports Platform
begin

text \<open>
  How the processes open MySQL (\<open>Open\<close> of \<open>internal/platform/database\<close>): the data source name
  with its parameters, as \<open>url.Values\<close> and \<open>time.Duration\<close> print them, and the connection pool.
  The driver is a parameter. Also the logger of the processes (\<open>internal/platform/logger\<close>).
\<close>

section \<open>time.Duration as text\<close>

definition zero_padded :: "nat \<Rightarrow> int \<Rightarrow> string" where
  "zero_padded k n = replicate (k - length (dec n)) (CHR ''0'') @ dec n"

text \<open>The fraction of \<open>u\<close> in units of \<open>10 ^ prec\<close>, without trailing zeros, and no point without digits.\<close>

definition fmtFrac :: "nat \<Rightarrow> int \<Rightarrow> string" where
  "fmtFrac prec u =
     (let s = rev (dropWhile (\<lambda>c. c = CHR ''0'') (rev (zero_padded prec (u mod 10 ^ prec))))
      in if s = [] then [] else CHR ''.'' # s)"

definition format_seconds :: "int \<Rightarrow> string \<Rightarrow> string" where
  "format_seconds sec frac =
     (if 60 \<le> sec
      then (if 3600 \<le> sec then dec (sec div 3600) @ ''h'' else []) @ dec (sec div 60 mod 60) @ ''m''
      else []) @ dec (sec mod 60) @ frac @ ''s''"

definition format_duration :: "int \<Rightarrow> string" where
  "format_duration u =
     (if u = 0 then ''0s''
      else if u < 1000 then dec u @ ''ns''
      else if u < millisecond then dec (u div 1000) @ fmtFrac 3 u @ [CHR 0xC2, CHR 0xB5, CHR ''s'']
      else if u < second then dec (u div millisecond) @ fmtFrac 6 u @ ''ms''
      else format_seconds (u div second) (fmtFrac 9 u))"

definition Duration_String :: "duration \<Rightarrow> string" where
  "Duration_String d = (if d < 0 then ''-'' @ format_duration (- d) else format_duration d)"

text \<open>Whole seconds read back.\<close>

lemma hours_minutes_seconds: "(sec::int) div 3600 * 3600 + sec div 60 mod 60 * 60 + sec mod 60 = sec"
proof -
  have "sec div 60 div 60 = sec div 3600" by (simp add: zdiv_zmult2_eq [symmetric])
  moreover have "sec div 60 div 60 * 60 + sec div 60 mod 60 = sec div 60" by (rule div_mult_mod_eq)
  moreover have "sec div 60 * 60 + sec mod 60 = sec" by (rule div_mult_mod_eq)
  ultimately show ?thesis by linarith
qed

lemma format_seconds_reads_back:
  assumes "0 \<le> sec" and "sec * second \<le> max_int64"
  shows "ParseDuration F (format_seconds sec []) = Some (sec * second)"
proof -
  have units: "unit_of ''s'' = Some second" "unit_of ''m'' = Some minute" "unit_of ''h'' = Some hour"
    by (simp_all add: unit_of_def)
  have digit: "0 \<le> n \<Longrightarrow> \<not> unit_char (hd (dec n @ r))" for n r
    using dec_digits [of n] dec_nonempty [of n] by (cases "dec n") (auto simp: unit_char_def)
  let ?h = "sec div 3600" and ?m = "sec div 60 mod 60" and ?s = "sec mod 60"
  have "?h * 3600 + ?m * 60 + ?s = sec" by (rule hours_minutes_seconds)
  then have "(?h * 3600 + ?m * 60 + ?s) * second = sec * second" by (rule arg_cong)
  then have total: "?h * hour + ?m * minute + ?s * second = sec * second"
    by (simp add: duration_defs distrib_right)
  have nonneg: "0 \<le> ?h" "0 \<le> ?m" "0 \<le> ?s" using assms(1) by simp_all
  have pos: "0 \<le> ?h * hour" "0 \<le> ?m * minute" "0 \<le> ?s * second" using nonneg by (simp_all add: duration_defs)
  have s: "0 \<le> d \<Longrightarrow> d + ?s * second \<le> max_int64 \<Longrightarrow>
      duration_terms F d (dec ?s @ ''s'') = Some (d + ?s * second)" for d
    using duration_terms_units [OF nonneg(3) units(1), of "[]" d F] by (simp add: duration_terms.simps [of F "d + _"])
  have m: "0 \<le> d \<Longrightarrow> d + ?m * minute + ?s * second \<le> max_int64 \<Longrightarrow>
      duration_terms F d (dec ?m @ ''m'' @ dec ?s @ ''s'') = Some (d + ?m * minute + ?s * second)" for d
    using duration_terms_units [OF nonneg(2) units(2), of "dec ?s @ ''s''" d F] digit [OF nonneg(3)]
      s [of "d + ?m * minute"] pos by simp
  have h: "duration_terms F 0 (dec ?h @ ''h'' @ dec ?m @ ''m'' @ dec ?s @ ''s'') = Some (sec * second)"
    using duration_terms_units [OF nonneg(1) units(3), of "dec ?m @ ''m'' @ dec ?s @ ''s''" 0 F] digit [OF nonneg(2)]
      m [of "?h * hour"] pos total assms(2) by (simp add: add.assoc)
  consider "3600 \<le> sec" | "60 \<le> sec" "sec < 3600" | "sec < 60" by linarith
  then have "duration_terms F 0 (format_seconds sec []) = Some (sec * second)"
  proof cases
    case 1
    then show ?thesis using h by (simp add: format_seconds_def)
  next
    case 2
    then have "?h = 0" by simp
    then show ?thesis using 2 m [of 0] total assms(2) by (simp add: format_seconds_def)
  next
    case 3
    then have "?h = 0" "?m = 0" using assms(1) by simp_all
    then show ?thesis using 3 s [of 0] total assms(2) by (simp add: format_seconds_def)
  qed
  moreover have hd: "0 \<le> n \<Longrightarrow> is_digit (hd (dec n))" for n
    using dec_digits [of n] dec_nonempty [of n] by (cases "dec n") auto
  have "format_seconds sec [] \<noteq> [] \<and> is_digit (hd (format_seconds sec [])) \<and> format_seconds sec [] \<noteq> ''0''"
    using hd [OF nonneg(1)] hd [of "sec div 60"] hd [OF nonneg(2)] hd [OF nonneg(3)] assms(1)
    by (auto simp: format_seconds_def append_eq_Cons_conv)
  ultimately show ?thesis using assms(2) by (intro ParseDuration_of_terms) auto
qed

lemma dec_zero: "dec 0 = ''0''"
  by code_simp

lemma fmtFrac_whole: "u mod 10 ^ prec = 0 \<Longrightarrow> fmtFrac prec u = []"
  by (auto simp: fmtFrac_def zero_padded_def dropWhile_eq_Nil_conv dec_zero)

lemma Duration_String_reads_back:
  assumes "0 \<le> d" and "d \<le> max_int64" and "d mod second = 0"
  shows "ParseDuration F (Duration_String d) = Some d"
proof (cases "d = 0")
  case True
  then show ?thesis using ParseDuration_units [of 0 "''s''" second F]
    by (simp add: Duration_String_def format_duration_def unit_of_def max_int64_def dec_zero)
next
  case False
  have d: "d = d div second * second" using assms(3) by (simp add: dvd_div_mult_self mod_eq_0_iff_dvd)
  have "second \<le> d" using False assms(1,3) by (smt (verit) mod_pos_pos_trivial)
  moreover have "fmtFrac 9 d = []" using assms(3) by (intro fmtFrac_whole) (simp add: duration_defs)
  ultimately have "Duration_String d = format_seconds (d div second) []"
    by (simp add: Duration_String_def format_duration_def duration_defs)
  then show ?thesis
    using format_seconds_reads_back [of "d div second" F] d assms(1,2) by (simp add: duration_defs)
qed

section \<open>url.Values\<close>

definition upper_hex :: "nat \<Rightarrow> char" where
  "upper_hex d = (if d < 10 then char_of (48 + d) else char_of (55 + d))"

definition query_unreserved :: "char \<Rightarrow> bool" where
  "query_unreserved c \<longleftrightarrow>
     (let n = of_char c :: nat
      in (97 \<le> n \<and> n \<le> 122) \<or> (65 \<le> n \<and> n \<le> 90) \<or> (48 \<le> n \<and> n \<le> 57)) \<or> c \<in> set ''-_.~''"

definition QueryEscape :: "string \<Rightarrow> string" where
  "QueryEscape s = concat (map (\<lambda>c.
     if query_unreserved c then [c] else if c = CHR '' '' then ''+''
     else [CHR ''%'', upper_hex (of_char c div 16), upper_hex (of_char c mod 16)]) s)"

text \<open>The values of a query, in the order of their keys, in which \<open>Encode\<close> writes them.\<close>

fun bytes_less :: "string \<Rightarrow> string \<Rightarrow> bool" where
  "bytes_less _ [] = False"
| "bytes_less [] (d # t) = True"
| "bytes_less (c # s) (d # t) =
     ((of_char c :: nat) < of_char d \<or> (c = d \<and> bytes_less s t))"

fun values_Set :: "string \<Rightarrow> string \<Rightarrow> (string \<times> string) list \<Rightarrow> (string \<times> string) list" where
  "values_Set k v [] = [(k, v)]"
| "values_Set k v ((k', v') # vs) =
     (if k = k' then (k, v) # vs
      else if bytes_less k k' then (k, v) # (k', v') # vs
      else (k', v') # values_Set k v vs)"

fun join :: "string \<Rightarrow> string list \<Rightarrow> string" where
  "join sep [] = []"
| "join sep [s] = s"
| "join sep (s # ss) = s @ sep @ join sep ss"

definition values_Encode :: "(string \<times> string) list \<Rightarrow> string" where
  "values_Encode vs = join ''&'' (map (\<lambda>(k, v). QueryEscape k @ ''='' @ QueryEscape v) vs)"

section \<open>Opening the database\<close>

definition dsn_parameters :: "DatabaseConfig \<Rightarrow> (string \<times> string) list" where
  "dsn_parameters cfg =
     (let parameters =
        values_Set ''timeout'' (Duration_String (DB_ConnectTimeout cfg))
          (values_Set ''loc'' ''UTC'' (values_Set ''parseTime'' ''true'' (values_Set ''charset'' ''utf8mb4'' [])))
      in if DB_TLSEnabled cfg then values_Set ''tls'' ''true'' parameters else parameters)"

definition data_source_name :: "DatabaseConfig \<Rightarrow> string" where
  "data_source_name cfg =
     DB_User cfg @ '':'' @ DB_Password cfg @ ''@tcp('' @ JoinHostPort (DB_Host cfg) (Itoa (DB_Port cfg)) @
     '')/'' @ DB_Name cfg @ ''?'' @ values_Encode (dsn_parameters cfg)"

record Database =
  Dbs_DSN :: string
  Dbs_Pool :: pool_settings
  Dbs_PingTimeout :: duration

text \<open>The driver: the error of opening a data source, and that of obtaining its pool.\<close>

record driver =
  gorm_Open :: "string \<Rightarrow> go_error option"
  gorm_DB :: "string \<Rightarrow> go_error option"

definition Database_Open :: "driver \<Rightarrow> DatabaseConfig \<Rightarrow> go_error + Database" where
  "Database_Open G cfg =
     (let dsn = data_source_name cfg
      in case gorm_Open G dsn of
           Some err \<Rightarrow> Inl (Wrap ''open MySQL: '' err)
         | None \<Rightarrow>
             (case gorm_DB G dsn of
                Some err \<Rightarrow> Inl (Wrap ''obtain MySQL connection pool: '' err)
              | None \<Rightarrow> Inr \<lparr>Dbs_DSN = dsn, Dbs_Pool = pool_of cfg, Dbs_PingTimeout = DB_PingTimeout cfg\<rparr>))"

text \<open>The parameters of the data source: always UTC and parsed times, TLS exactly when it is
  configured, and a timeout that the driver reads back.\<close>

lemma dsn_parameters_of:
  "dsn_parameters cfg =
     [(''charset'', ''utf8mb4''), (''loc'', ''UTC''), (''parseTime'', ''true''),
      (''timeout'', Duration_String (DB_ConnectTimeout cfg))] @
     (if DB_TLSEnabled cfg then [(''tls'', ''true'')] else [])"
  by (simp add: dsn_parameters_def Let_def)

section \<open>The logger\<close>

text \<open>Parsing of a level by the standard library: a name, then a signed offset. The tables of
  letters and the quoting of a text in a message are parameters.\<close>

record loglib =
  ll_ToUpper :: "string \<Rightarrow> string"
  ll_Quote :: "string \<Rightarrow> string"

definition level_names :: "(string \<times> int) list" where
  "level_names = [(''DEBUG'', -4), (''INFO'', 0), (''WARN'', 4), (''ERROR'', 8)]"

definition parse_level :: "loglib \<Rightarrow> string \<Rightarrow> go_error + int" where
  "parse_level U s =
     (let name = takeWhile (\<lambda>c. c \<notin> set ''+-'') s; rest = dropWhile (\<lambda>c. c \<notin> set ''+-'') s;
          failed = Wrap (''slog: level string '' @ ll_Quote U s @ '': '')
      in case (if rest = [] then Some 0 else Atoi rest) of
           None \<Rightarrow> Inl (failed (Foreign (plain_foreign (''strconv.Atoi: parsing '' @ ll_Quote U rest))))
         | Some offset \<Rightarrow>
             (case map_of level_names (ll_ToUpper U name) of
                None \<Rightarrow> Inl (failed (New ''unknown name''))
              | Some base \<Rightarrow> Inr (wrap64 (base + offset))))"

datatype log_handler = TextHandler int | JSONHandler int

definition Logger_New :: "golib \<Rightarrow> loglib \<Rightarrow> string \<Rightarrow> string \<Rightarrow> go_error + log_handler" where
  "Logger_New L U environment level =
     (case parse_level U (lib_ToLower L level) of
        Inl err \<Rightarrow> Inl (Wrap ''configuration LOG_LEVEL: '' err)
      | Inr parsed \<Rightarrow> Inr (if environment = ''development'' then TextHandler parsed else JSONHandler parsed))"

end
