(* ===== verification/Processes.thy ===== *)
theory Processes
  imports DataSource System
begin

text \<open>
  The two processes from their start to their end: \<open>run\<close> of \<open>cmd/api\<close> and of \<open>cmd/worker\<close>, and
  \<open>Run\<close> of the consumer (\<open>internal/probe/consumer.go\<close>). What a process opens and closes and
  whether it listens is a list of events; the requests it serves and the turns of its loops are
  those of the server and of the pipeline. How it ends (a signal, or its listener) is an input.
\<close>

section \<open>Events\<close>

record http_server =
  hs_Addr :: string
  hs_ReadHeaderTimeout :: duration
  hs_ReadTimeout :: duration
  hs_WriteTimeout :: duration
  hs_IdleTimeout :: duration

definition api_http_server :: "ServerConfig \<Rightarrow> http_server" where
  "api_http_server cfg = \<lparr>hs_Addr = Srv_Host cfg @ '':'' @ Itoa (Srv_Port cfg),
     hs_ReadHeaderTimeout = Srv_ReadHeaderTimeout cfg, hs_ReadTimeout = Srv_ReadTimeout cfg,
     hs_WriteTimeout = Srv_WriteTimeout cfg, hs_IdleTimeout = Srv_IdleTimeout cfg\<rparr>"

text \<open>The listener of the worker's metrics sets one timeout only; zero is no timeout.\<close>

definition worker_http_server :: "string \<Rightarrow> http_server" where
  "worker_http_server addr = \<lparr>hs_Addr = addr, hs_ReadHeaderTimeout = 5 * second,
     hs_ReadTimeout = 0, hs_WriteTimeout = 0, hs_IdleTimeout = 0\<rparr>"

datatype event =
    OpenedMySQL Database
  | OpenedRedis redis_options
  | Listening http_server
  | ShuttingDown duration
  | ClosedRedis
  | ClosedMySQL

text \<open>How serving ends: \<open>ListenAndServe\<close> returned, with \<open>ErrServerClosed\<close> (\<open>None\<close>) or another
  error, or a signal came, and \<open>Shutdown\<close> returned.\<close>

datatype ending = Returned "go_error option" | Signalled "go_error option"

definition end_of_serving :: "duration \<Rightarrow> ending \<Rightarrow> go_error option \<times> event list" where
  "end_of_serving shutdownTimeout e =
     (case e of
        Returned None \<Rightarrow> (None, [])
      | Returned (Some err) \<Rightarrow> (Some (Wrap ''serve HTTP: '' err), [])
      | Signalled None \<Rightarrow> (None, [ShuttingDown shutdownTimeout])
      | Signalled (Some err) \<Rightarrow> (Some (Wrap ''graceful shutdown: '' err), [ShuttingDown shutdownTimeout]))"

text \<open>The deferred closings of both processes, last opened first.\<close>

definition with_clients :: "Database \<Rightarrow> redis_options \<Rightarrow> event list \<Rightarrow> event list" where
  "with_clients db redis events = [OpenedMySQL db, OpenedRedis redis] @ events @ [ClosedRedis, ClosedMySQL]"

section \<open>cmd/api\<close>

record platform =
  pf_env :: env
  pf_lib :: golib
  pf_http :: httplib
  pf_auth :: authlib
  pf_log :: loglib
  pf_driver :: driver
  pf_fraction :: fraction
  pf_environ :: environ
  pf_mysql_ping :: ping
  pf_redis_ping :: ping
  pf_metrics :: "gin_context \<Rightarrow> world \<Rightarrow> outcome"
  pf_gin_route :: "(string \<times> string) list \<Rightarrow> string \<Rightarrow> string \<Rightarrow> (nat \<times> string) option"
  pf_gin_no_route :: "gin_context \<Rightarrow> outcome"
  pf_net :: "world net"
  pf_client_Do :: "duration \<Rightarrow> string \<Rightarrow> http_run"
  pf_wait :: "world waiting"

definition process_server :: "platform \<Rightarrow> Config \<Rightarrow> TokenManager \<Rightarrow> server" where
  "process_server P cfg tokenManager =
     api_server (pf_env P) (pf_lib P) (pf_http P) (pf_auth P) (pf_mysql_ping P) (pf_redis_ping P)
       (pf_metrics P) (pf_gin_route P) (pf_gin_no_route P) cfg tokenManager"

text \<open>What both processes do first: the configuration, the logger and the clients.\<close>

definition process_opens :: "platform \<Rightarrow> go_error + Config \<times> Database \<times> redis_options" where
  "process_opens P =
     res_bind (Load (pf_fraction P) (pf_environ P)) (\<lambda>cfg.
     res_bind (Logger_New (pf_lib P) (pf_log P) (App_Environment (Cfg_App cfg)) (Cfg_LogLevel cfg)) (\<lambda>_.
     res_bind (Database_Open (pf_driver P) (Cfg_Database cfg)) (\<lambda>db.
     Inr (cfg, db, NewRedis (Cfg_Redis cfg)))))"

definition api_run ::
  "platform \<Rightarrow> (string \<times> string \<times> gin_context) list \<Rightarrow> ending \<Rightarrow> world \<Rightarrow> (go_error option \<times> event list) \<times> world" where
  "api_run P reqs e w =
     (case process_opens P of
        Inl err \<Rightarrow> ((Some err, []), w)
      | Inr (cfg, db, redis) \<Rightarrow>
          (case api_startup (pf_env P) (pf_auth P) cfg w of
             (Inl err, w') \<Rightarrow> ((Some err, with_clients db redis []), w')
           | (Inr tokenManager, w') \<Rightarrow>
               (case end_of_serving (Srv_ShutdownTimeout (Cfg_Server cfg)) e of
                  (r, events) \<Rightarrow>
                    ((r, with_clients db redis (Listening (api_http_server (Cfg_Server cfg)) # events)),
                     serve_all (process_server P cfg tokenManager) reqs w'))))"

definition api_exit_status :: "go_error option \<Rightarrow> int" where
  "api_exit_status err = (case err of None \<Rightarrow> 0 | Some _ \<Rightarrow> 1)"

lemma api_exit_status_0 [simp]: "api_exit_status err = 0 \<longleftrightarrow> err = None"
  by (simp add: api_exit_status_def split: option.split)

lemma process_opens_Inr:
  "process_opens P = Inr (cfg, db, redis) \<Longrightarrow> Load (pf_fraction P) (pf_environ P) = Inr cfg \<and>
     Dbs_DSN db = data_source_name (Cfg_Database cfg) \<and> redis = NewRedis (Cfg_Redis cfg)"
  by (auto simp: process_opens_def res_bind_def Database_Open_def Let_def split: sum.splits option.splits)

text \<open>The startup keeps the invariants of the tables: it may add a user, and nothing else.\<close>

lemma api_startup_db:
  assumes "api_startup E A cfg w = (r, w')"
  shows "w_db w' = w_db w \<or> (\<exists>u. user_effect u (w_db w) (w_db w'))"
proof -
  have "w_db w' = w_db w \<or> (\<exists>u. user_effect u (w_db w) (w_db w'))"
    if "Bootstrap A (auth_repository E) username password w = (r', w')" for username password r'
    using auth_repo.Bootstrap_effect(1) [OF that] by blast
  then show ?thesis
    using assms by (auto simp: api_startup_def op_bind_def op_when_fail_def split: sum.splits prod.splits if_splits)
qed

lemma user_effect_inv: "user_effect u d d' \<Longrightarrow> server_inv sv d \<Longrightarrow> server_inv sv d'"
  using fleet_inv_same [of d' d] incidents_inv_same [of d' d]
  by (auto simp: server_inv_def user_effect_def)

lemma server_inv_cong: "sv_env sv = sv_env sv' \<Longrightarrow> sv_lib sv = sv_lib sv' \<Longrightarrow> server_inv sv d = server_inv sv' d"
  by (simp add: server_inv_def)

lemma api_run_inv:
  assumes "sv_env sv = pf_env P" and "sv_lib sv = pf_lib P" and "server_inv sv (w_db w)"
  shows "server_inv sv (w_db (snd (api_run P reqs e w)))"
proof -
  have started: "server_inv sv (w_db w')" if "api_startup (pf_env P) (pf_auth P) cfg w = (r, w')" for cfg r w'
    using api_startup_db [OF that] user_effect_inv assms(3) by metis
  have "server_inv sv (w_db (serve_all (process_server P cfg m) reqs w'))"
    if "api_startup (pf_env P) (pf_auth P) cfg w = (Inr m, w')" for cfg m w'
  proof -
    have same: "server_inv sv d = server_inv (process_server P cfg m) d" for d
      by (rule server_inv_cong) (simp_all add: assms process_server_def api_server_def)
    show ?thesis using serve_all_inv [of "process_server P cfg m" w' reqs] started [OF that] same by simp
  qed
  then show ?thesis
    using started assms(3) by (auto simp: api_run_def split: sum.splits prod.splits)
qed

text \<open>A run of the API server closes what it opened, and listens only when its secrets are set.\<close>

definition secrets_configured :: "Config \<Rightarrow> bool" where
  "secrets_configured cfg \<longleftrightarrow>
     JWT_Secret (Cfg_JWT cfg) \<noteq> [] \<and> JWT_Issuer (Cfg_JWT cfg) \<noteq> [] \<and> 0 < JWT_ExpiresIn (Cfg_JWT cfg) \<and>
     Cfg_WebhookToken cfg \<noteq> [] \<and> Cfg_WebhookToken cfg \<noteq> JWT_Secret (Cfg_JWT cfg)"

lemma api_startup_configured:
  assumes "api_startup E A cfg w = (Inr m, w')"
  shows "secrets_configured cfg"
  using api_startup_Inr(1) [OF assms] assms
  by (auto simp: secrets_configured_def api_startup_def NewTokenManager_Inr elim!: op_bind_Inr split: sum.splits)

lemma api_run_cases:
  assumes "api_run P reqs e w = ((err, events), w')"
  obtains (unopened) er where "err = Some er" "events = []" "w' = w"
  | (unstarted) er db redis where "err = Some er" "events = with_clients db redis []"
  | (served) cfg db redis more_events where "Load (pf_fraction P) (pf_environ P) = Inr cfg" "secrets_configured cfg"
      "Dbs_DSN db = data_source_name (Cfg_Database cfg)" "redis = NewRedis (Cfg_Redis cfg)"
      "events = with_clients db redis (Listening (api_http_server (Cfg_Server cfg)) # more_events)"
      "end_of_serving (Srv_ShutdownTimeout (Cfg_Server cfg)) e = (err, more_events)"
proof (cases "process_opens P")
  case (Inl er)
  then show ?thesis using assms by (intro unopened [of er]) (simp_all add: api_run_def)
next
  case (Inr opened)
  obtain cfg db redis where o: "opened = (cfg, db, redis)" by (cases opened)
  obtain r w1 where start: "api_startup (pf_env P) (pf_auth P) cfg w = (r, w1)" by (metis surj_pair)
  obtain r2 events2 where ending: "end_of_serving (Srv_ShutdownTimeout (Cfg_Server cfg)) e = (r2, events2)"
    by (metis surj_pair)
  show ?thesis
  proof (cases r)
    case (Inl er)
    then show ?thesis
      using assms \<open>process_opens P = Inr opened\<close> o start
      by (intro unstarted [of er db redis]) (simp_all add: api_run_def)
  next
    case (Inr m)
    then show ?thesis
      using assms \<open>process_opens P = Inr opened\<close> o start ending api_startup_configured [of "pf_env P" "pf_auth P" cfg w m w1]
        process_opens_Inr [of P cfg db redis] served [of cfg db redis events2] by (simp add: api_run_def)
  qed
qed

section \<open>The consumer\<close>

text \<open>
  \<open>Run\<close>: the consumer group is created, or exists (\<open>g\<close> is the answer of Redis); its loops take
  their turns, with those of the other processes (\<open>acts\<close>); when the context has ended the readers
  return, and the workers, if there are any, process what is left in the queue, oldest first (the
  goroutines themselves are in \<open>ConsumerPool\<close>). A negative capacity
  or a period that is not positive makes a goroutine panic.
\<close>

datatype process_exit = Exited "go_error option" | Crashed

definition next_job :: "string \<Rightarrow> job list \<Rightarrow> nat option" where
  "next_job c js =
     (case filter (\<lambda>i. job_consumer (js ! i) = c) [0..<length js] of [] \<Rightarrow> None | is \<Rightarrow> Some (last is))"

fun drain_jobs ::
  "env \<Rightarrow> workers \<Rightarrow> string \<Rightarrow> (nat \<Rightarrow> go_error option) \<Rightarrow> nat \<Rightarrow> pipeline \<Rightarrow> pipeline" where
  "drain_jobs E wk c acks 0 s = s"
| "drain_jobs E wk c acks (Suc n) s =
     (case next_job c (pl_jobs s) of
        None \<Rightarrow> s
      | Some i \<Rightarrow> drain_jobs E wk c acks n
          (Consumer_work E (wk_idle wk) (wk_probes wk) (wk_wait wk) (acks n) i s))"

definition group_error :: "go_error option \<Rightarrow> go_error option" where
  "group_error g =
     (case g of None \<Rightarrow> None
      | Some err \<Rightarrow> if contains ''BUSYGROUP'' (err_text err) then None
                    else Some (Wrap ''create Redis consumer group: '' err))"

definition Consumer_Run ::
  "server \<Rightarrow> workers \<Rightarrow> worker_setup \<Rightarrow> string \<Rightarrow> go_error option \<Rightarrow> action list \<Rightarrow>
     (nat \<Rightarrow> go_error option) \<Rightarrow> pipeline \<Rightarrow> process_exit \<times> pipeline" where
  "Consumer_Run sv wk conf c g acts acks s =
     (case group_error g of
        Some err \<Rightarrow> (Exited (Some err), s)
      | None \<Rightarrow>
          if \<not> worker_starts conf then (Crashed, s)
          else let s' = run_actions sv wk acts s
               in (Exited None,
                   if 0 < ws_workers conf then drain_jobs (sv_env sv) wk c acks (length (pl_jobs s')) s' else s'))"

section \<open>cmd/worker\<close>

definition worker_of :: "platform \<Rightarrow> worker_setup \<Rightarrow> workers" where
  "worker_of P conf = \<lparr>wk_idle = ws_idle conf,
     wk_probes = \<lparr>probe_http = HTTPProbe_Execute (pf_lib P) (ws_policy conf) (pf_net P) (pf_client_Do P),
       probe_tcp = TCPProbe_Execute (pf_lib P) (ws_policy conf) (pf_net P)\<rparr>,
     wk_wait = pf_wait P\<rparr>"

definition worker_mux :: "platform \<Rightarrow> Config \<Rightarrow> (string \<times> handler) list" where
  "worker_mux P cfg =
     (let checkers = map (\<lambda>(name, ping). (name, ping_op ping)) (dependencies cfg (pf_mysql_ping P) (pf_redis_ping P))
      in [(''/healthz'', WorkerHealth_Health), (''/readyz'', WorkerHealth_Ready checkers),
          (''/metrics'', \<lambda>c w. (pf_metrics P c w, tick w))])"

text \<open>The deferred closings run when \<open>run\<close> returns, or when it panics itself, for a negative
  capacity; a panic of another goroutine ends the process without them.\<close>

definition worker_events :: "worker_setup \<Rightarrow> process_exit \<Rightarrow> Database \<Rightarrow> redis_options \<Rightarrow> http_server \<Rightarrow> event list" where
  "worker_events conf r db redis listener =
     (if r = Crashed \<and> 0 \<le> ws_capacity conf then [OpenedMySQL db, OpenedRedis redis, Listening listener]
      else with_clients db redis [Listening listener])"

definition worker_run ::
  "platform \<Rightarrow> server \<Rightarrow> string \<Rightarrow> go_error option \<Rightarrow> action list \<Rightarrow> (nat \<Rightarrow> go_error option) \<Rightarrow>
     pipeline \<Rightarrow> (process_exit \<times> event list) \<times> pipeline" where
  "worker_run P sv host g acts acks s =
     (case process_opens P of
        Inl err \<Rightarrow> ((Exited (Some err), []), s)
      | Inr (cfg, db, redis) \<Rightarrow>
          (case consumerName (pf_env P) host (pl_world s) of
             (c, w) \<Rightarrow>
               (case Consumer_Run sv (worker_of P (worker_setup_of cfg)) (worker_setup_of cfg) c g acts acks
                      (s\<lparr>pl_world := w\<rparr>) of
                  (r, s') \<Rightarrow>
                    ((r, worker_events (worker_setup_of cfg) r db redis
                          (worker_http_server (Cfg_WorkerAddress cfg))), s'))))"

text \<open>The status with which the process exits; an unrecovered panic exits with 2.\<close>

definition worker_exit_status :: "process_exit \<Rightarrow> int" where
  "worker_exit_status r = (case r of Exited None \<Rightarrow> 0 | Exited (Some err) \<Rightarrow> 1 | Crashed \<Rightarrow> 2)"

lemma worker_exit_status_0 [simp]: "worker_exit_status r = 0 \<longleftrightarrow> r = Exited None"
  by (auto simp: worker_exit_status_def split: process_exit.split option.split)

section \<open>Shutdown\<close>

text \<open>Between the turns of the loops every job in memory is still to be processed.\<close>

definition jobs_waiting :: "pipeline \<Rightarrow> bool" where
  "jobs_waiting s \<longleftrightarrow> (\<forall>j\<in>set (pl_jobs s). job_phase j = Received)"

lemma enqueue_entries_waiting: "jobs_waiting s \<Longrightarrow> jobs_waiting (enqueue_entries L c cancel is s)"
  by (induction L c cancel "is" s rule: enqueue_entries.induct)
     (auto simp: jobs_waiting_def new_job_def split: sum.splits option.splits nat.splits)

lemma without_nth_subset: "set (take n js @ drop (Suc n) js) \<subseteq> set js"
  by (auto dest: in_set_takeD in_set_dropD)

lemma Consumer_work_jobs:
  assumes "jobs_waiting s" and "n < length (pl_jobs s)"
  shows "pl_jobs (Consumer_work E idle ps waitFor ackError n s) = take n (pl_jobs s) @ drop (Suc n) (pl_jobs s)"
  using assms by (auto simp: jobs_waiting_def Consumer_work_def Let_def split: prod.splits sum.splits option.splits)

lemma Consumer_work_waiting: "jobs_waiting s \<Longrightarrow> jobs_waiting (Consumer_work E idle ps waitFor ackError n s)"
  using Consumer_work_jobs [of s n E idle ps waitFor ackError] without_nth_subset [of n "pl_jobs s"]
  by (cases "n < length (pl_jobs s)") (auto simp: jobs_waiting_def Consumer_work_def)

lemma run_action_waiting: "jobs_waiting s \<Longrightarrow> jobs_waiting (run_action sv wk act s)"
proof (cases act)
  case (ActCrash n)
  assume "jobs_waiting s"
  then show ?thesis using ActCrash without_nth_subset [of n "pl_jobs s"] by (auto simp: jobs_waiting_def drop_job_def)
qed (auto simp: Consumer_read_def Consumer_claim_def Let_def Consumer_work_waiting Scheduler_cycle_def
      RecoveryDispatcher_tick_def jobs_waiting_def [of "_\<lparr>pl_world := _\<rparr>"] jobs_waiting_def [of "_\<lparr>pl_stream := _\<rparr>"]
      jobs_waiting_def [of "_\<lparr>pl_cursor := _\<rparr>"] jobs_waiting_def [of "_\<lparr>pl_pending := _\<rparr>"]
      jobs_waiting_def [of s] intro!: enqueue_entries_waiting split: prod.splits sum.splits)

lemma run_actions_waiting: "jobs_waiting s \<Longrightarrow> jobs_waiting (run_actions sv wk acts s)"
  unfolding run_actions_def by (induction acts arbitrary: s) (simp_all add: run_action_waiting)

lemma next_job_None: "next_job c js = None \<Longrightarrow> j \<in> set js \<Longrightarrow> job_consumer j \<noteq> c"
  by (auto simp: next_job_def filter_empty_conv in_set_conv_nth split: list.splits)

lemma next_job_Some: "next_job c js = Some i \<Longrightarrow> i < length js \<and> job_consumer (js ! i) = c"
  using last_in_set [of "filter (\<lambda>i. job_consumer (js ! i) = c) [0..<length js]"]
  by (auto simp: next_job_def split: list.splits)

text \<open>Draining ends with no job of the consumer, and leaves the jobs of others.\<close>

lemma drain_jobs_empties:
  "jobs_waiting s \<Longrightarrow> length (pl_jobs s) \<le> n \<Longrightarrow> j \<in> set (pl_jobs (drain_jobs E wk c acks n s)) \<Longrightarrow> job_consumer j \<noteq> c"
proof (induction n arbitrary: s)
  case 0
  then show ?case by simp
next
  case (Suc n)
  show ?case
  proof (cases "next_job c (pl_jobs s)")
    case None
    then show ?thesis using next_job_None [OF None] Suc.prems by simp
  next
    case (Some i)
    let ?s = "Consumer_work E (wk_idle wk) (wk_probes wk) (wk_wait wk) (acks n) i s"
    have i: "i < length (pl_jobs s)" using next_job_Some [OF Some] by simp
    then have "length (pl_jobs ?s) \<le> n" using Consumer_work_jobs [OF Suc.prems(1) i] Suc.prems(2) by simp
    then show ?thesis
      using Suc.IH [of ?s] Consumer_work_waiting [OF Suc.prems(1)] Suc.prems(3) Some by simp
  qed
qed

lemma drain_jobs_steps:
  assumes "probes_off_db wk"
  shows "(pipe_step E L (wk_idle wk))\<^sup>*\<^sup>* s (drain_jobs E wk c acks n s)"
proof (induction n arbitrary: s)
  case 0
  show ?case by simp
next
  case (Suc n)
  show ?case
  proof (cases "next_job c (pl_jobs s)")
    case None
    then show ?thesis by simp
  next
    case (Some i)
    let ?s = "Consumer_work E (wk_idle wk) (wk_probes wk) (wk_wait wk) (acks n) i s"
    have "(pipe_step E L (wk_idle wk))\<^sup>*\<^sup>* s ?s"
      using Consumer_work_steps [of "wk_probes wk" "wk_wait wk"] assms by (simp add: probes_off_db_def)
    then show ?thesis using rtranclp_trans [OF _ Suc.IH [of ?s]] Some by simp
  qed
qed

text \<open>The probes do not touch the database when the network they use does not.\<close>

definition net_off_db :: "world net \<Rightarrow> bool" where
  "net_off_db N \<longleftrightarrow> (\<forall>h w. w_db (snd (net_LookupIP N h w)) = w_db w) \<and>
     (\<forall>n a w. w_db (snd (net_DialContext N n a w)) = w_db w) \<and> (\<forall>w. w_db (snd (net_Close N w)) = w_db w)"

lemma Resolve_off_db: "net_off_db N \<Longrightarrow> w_db (snd (Resolve p N host w)) = w_db w"
  by (auto simp: Resolve_def net_off_db_def op_bind_def op_fail_def op_return_def
      split: option.splits prod.splits sum.splits intro: sndI) (metis snd_conv)+

lemma dial_each_off_db: "net_off_db N \<Longrightarrow> w_db (snd (dial_each N network port as e w)) = w_db w"
proof (induction N network port as e w rule: dial_each.induct)
  case (2 N network port a as lastErr w)
  obtain r w' where run: "net_DialContext N network (JoinHostPort (net_ip_String N a) port) w = (r, w')"
    by (metis surj_pair)
  then have "w_db w' = w_db w" using 2(2) by (metis net_off_db_def snd_conv)
  then show ?case using 2 run by (cases r) simp_all
qed simp

lemma off_db_steps:
  "Resolve p N host w = (r, w') \<Longrightarrow> net_off_db N \<Longrightarrow> w_db w' = w_db w"
  "dial_each N network port as e w = (r', w') \<Longrightarrow> net_off_db N \<Longrightarrow> w_db w' = w_db w"
  "net_Close N w = (r'', w') \<Longrightarrow> net_off_db N \<Longrightarrow> w_db w' = w_db w"
  using Resolve_off_db [of N p host w] dial_each_off_db [of N network port as e w] by (auto simp: net_off_db_def dest: spec [of _ w])

lemma TCPProbe_off_db: "net_off_db N \<Longrightarrow> w_db (snd (TCPProbe_Execute L p N timeout target w)) = w_db w"
  by (auto simp: TCPProbe_Execute_def split: option.splits prod.splits sum.splits)
    (metis off_db_steps)+

lemma http_DialContext_off_db: "net_off_db N \<Longrightarrow> w_db (snd (http_DialContext p N network address w)) = w_db w"
  by (auto simp: http_DialContext_def split: option.splits prod.splits sum.splits)
    (metis off_db_steps)+

lemma CheckRedirect_off_db: "net_off_db N \<Longrightarrow> w_db (snd (CheckRedirect p N via host w)) = w_db w"
  by (auto simp: CheckRedirect_def split: option.splits prod.splits sum.splits)
    (metis off_db_steps)+

lemma http_steps_off_db:
  "http_DialContext p N network address w = (r, w') \<Longrightarrow> net_off_db N \<Longrightarrow> w_db w' = w_db w"
  "CheckRedirect p N via host w = (r', w') \<Longrightarrow> net_off_db N \<Longrightarrow> w_db w' = w_db w"
  using http_DialContext_off_db [of N p network address w] CheckRedirect_off_db [of N p via host w] by auto

lemma run_http_off_db: "run_http p N h w = (r, w') \<Longrightarrow> net_off_db N \<Longrightarrow> w_db w' = w_db w"
proof (induction h arbitrary: w)
  case (HttpDial network address k)
  then show ?case by (auto split: prod.splits) (metis http_steps_off_db rangeI)
next
  case (HttpRedirect via host k)
  then show ?case by (auto split: prod.splits) (metis http_steps_off_db rangeI)
qed simp_all

lemma HTTPProbe_off_db: "net_off_db N \<Longrightarrow> w_db (snd (HTTPProbe_Execute L p N client_Do timeout target w)) = w_db w"
  by (auto simp: HTTPProbe_Execute_def Let_def split: option.splits prod.splits sum.splits)
    (metis off_db_steps run_http_off_db)+

definition platform_off_db :: "platform \<Rightarrow> bool" where
  "platform_off_db P \<longleftrightarrow> net_off_db (pf_net P) \<and> (\<forall>d w. w_db (snd (pf_wait P d w)) = w_db w)"

lemma worker_of_off_db: "platform_off_db P \<Longrightarrow> probes_off_db (worker_of P conf)"
  by (simp add: platform_off_db_def probes_off_db_def worker_of_def HTTPProbe_off_db TCPProbe_off_db)

section \<open>A run of the worker\<close>

lemma rand_read_db: "w_db (snd (rand_read E n w)) = w_db w"
  by (simp add: rand_read_def split: option.split)

lemma consumerName_db: "consumerName E host w = (c, w') \<Longrightarrow> w_db w' = w_db w"
  using rand_read_db [of E 4 w] by (auto simp: consumerName_def split: prod.splits sum.splits)

lemma Consumer_Run_steps:
  assumes "probes_off_db wk" and "Consumer_Run sv wk conf c g acts acks s = (r, s')"
  shows "(pipe_step (sv_env sv) (sv_lib sv) (wk_idle wk))\<^sup>*\<^sup>* s s'"
  using assms(2) run_actions_steps [OF assms(1)]
    rtranclp_trans [OF run_actions_steps [OF assms(1)] drain_jobs_steps [OF assms(1)]]
  by (auto simp: Consumer_Run_def Let_def split: option.splits if_splits)

lemma Consumer_Run_done:
  assumes "Consumer_Run sv wk conf c g acts acks s = (Exited None, s')" and "jobs_waiting s" and "j \<in> set (pl_jobs s')"
    and "0 < ws_workers conf"
  shows "job_consumer j \<noteq> c"
proof -
  let ?s = "run_actions sv wk acts s"
  have "s' = drain_jobs (sv_env sv) wk c acks (length (pl_jobs ?s)) ?s"
    using assms(1,4) by (simp add: Consumer_Run_def Let_def split: option.splits if_splits)
  then show ?thesis
    using drain_jobs_empties [OF run_actions_waiting [OF assms(2)] order_refl] assms(3) by blast
qed

lemma Consumer_Run_exit:
  "Consumer_Run sv wk conf c g acts acks s = (r, s') \<Longrightarrow>
     r = (case group_error g of Some err \<Rightarrow> Exited (Some err)
          | None \<Rightarrow> if worker_starts conf then Exited None else Crashed)"
  by (auto simp: Consumer_Run_def Let_def split: option.splits if_splits)

text \<open>What a run of the worker leaves: the invariant of the pipeline, and when it ended without
  error and had workers, no job of its consumer in memory.\<close>

lemma worker_run_result:
  assumes "platform_off_db P" and same: "sv_env sv = pf_env P" "sv_lib sv = pf_lib P" and "w_db w = empty_db"
    and run: "worker_run P sv host g acts acks (pipe_start w) = ((r, events), s)"
  shows "pipe_inv (pf_env P) (pf_lib P) s \<and>
    (\<forall>cfg db redis. r = Exited None \<and> process_opens P = Inr (cfg, db, redis) \<and> 0 < ws_workers (worker_setup_of cfg) \<longrightarrow>
       (\<forall>j\<in>set (pl_jobs s). job_consumer j \<noteq> fst (consumerName (pf_env P) host w)))"
proof (cases "process_opens P")
  case (Inl err)
  then show ?thesis using run pipe_inv_start [OF assms(4)] by (auto simp: worker_run_def)
next
  case (Inr opened)
  obtain cfg db redis where o: "opened = (cfg, db, redis)" by (cases opened)
  obtain c w1 where name: "consumerName (pf_env P) host w = (c, w1)" by (metis surj_pair)
  let ?conf = "worker_setup_of cfg" and ?s = "(pipe_start w)\<lparr>pl_world := w1\<rparr>"
  have start: "?s = pipe_start w1" by (simp add: pipe_start_def)
  have cr: "Consumer_Run sv (worker_of P ?conf) ?conf c g acts acks ?s = (r, s)"
    using run Inr o name by (auto simp: worker_run_def pipe_start_def split: prod.splits)
  have "w_db w1 = empty_db" using consumerName_db [OF name] assms(4) by simp
  then have "pipe_inv (pf_env P) (pf_lib P) s"
    using pipe_steps_inv [OF Consumer_Run_steps [OF worker_of_off_db [OF assms(1)] cr] ] pipe_inv_start start same
    by simp
  moreover have "jobs_waiting ?s" by (simp add: jobs_waiting_def pipe_start_def)
  then have "\<forall>j\<in>set (pl_jobs s). job_consumer j \<noteq> c" if "r = Exited None" "0 < ws_workers ?conf"
    using Consumer_Run_done [OF cr [unfolded that(1)]] that(2) by blast
  ultimately show ?thesis using name Inr o by simp
qed

text \<open>How it ended.\<close>

lemma worker_run_exit:
  assumes "worker_run P sv host g acts acks s = ((r, events), s')" and "process_opens P = Inr (cfg, db, redis)"
  shows "r = (case group_error g of Some err \<Rightarrow> Exited (Some err)
    | None \<Rightarrow> if worker_starts (worker_setup_of cfg) then Exited None else Crashed)"
  using assms by (auto simp: worker_run_def split: prod.splits dest: Consumer_Run_exit)

end
