(* ===== verification/DemoTarget.thy ===== *)
theory DemoTarget
  imports Processes
begin

text \<open>
  \<open>cmd/demo-target\<close>: the server that the demonstration setup probes. It answers every path but
  one at once, and \<open>/delay\<close> after the duration in its query.
\<close>

definition demo_ok :: string where "demo_ok = ''CloudSentinel MVP target is healthy'' @ newline"
definition demo_delayed :: string where "demo_delayed = ''delayed response completed'' @ newline"
definition demo_refused :: string where "demo_refused = ''duration must be between 0s and 1m'' @ newline"

text \<open>What the client is sent, a status and a body, and after how long; nothing when it left before.\<close>

type_synonym demo_answer = "(int \<times> string) option \<times> duration"

definition demo_root :: demo_answer where
  "demo_root = (Some (200, demo_ok), 0)"

text \<open>A query without the key reads as the empty string. \<open>left\<close> is when the client's context ended.\<close>

definition demo_delay :: "fraction \<Rightarrow> (string \<Rightarrow> string option) \<Rightarrow> duration option \<Rightarrow> demo_answer" where
  "demo_delay F query left =
     (case ParseDuration F (case query ''duration'' of None \<Rightarrow> [] | Some v \<Rightarrow> v) of
        None \<Rightarrow> (Some (400, demo_refused), 0)
      | Some delay \<Rightarrow>
          if delay < 0 \<or> delay > minute then (Some (400, demo_refused), 0)
          else (case left of
                  None \<Rightarrow> (Some (200, demo_delayed), delay)
                | Some t \<Rightarrow> if t < delay then (None, t) else (Some (200, demo_delayed), delay)))"

definition demo_mux :: "fraction \<Rightarrow> string \<Rightarrow> (string \<Rightarrow> string option) \<Rightarrow> duration option \<Rightarrow> demo_answer" where
  "demo_mux F path query left = (if path = ''/delay'' then demo_delay F query left else demo_root)"

definition demo_server :: http_server where
  "demo_server = \<lparr>hs_Addr = '':8080'', hs_ReadHeaderTimeout = 5 * second, hs_ReadTimeout = 65 * second,
     hs_WriteTimeout = 65 * second, hs_IdleTimeout = 60 * second\<rparr>"

lemmas demo_defs = demo_mux_def demo_delay_def demo_root_def

text \<open>Every answer is given before the server's timeouts, which a delay could otherwise exceed.\<close>

lemma demo_within_timeouts:
  assumes "demo_mux F path query left = (a, d)" and "\<forall>t. left = Some t \<longrightarrow> 0 \<le> t"
  shows "0 \<le> d \<and> d < hs_WriteTimeout demo_server \<and> d < hs_ReadTimeout demo_server"
  using assms by (auto simp: demo_defs demo_server_def duration_defs split: if_splits option.splits)

text \<open>A client that waits is answered, with success exactly when the duration is one the check accepts.\<close>

lemma demo_delay_answers:
  "\<exists>status body d. demo_delay F query None = (Some (status, body), d) \<and>
     (status = 200 \<longleftrightarrow> (\<exists>v delay. query ''duration'' = Some v \<and> ParseDuration F v = Some delay \<and> 0 \<le> delay \<and> delay \<le> minute))"
proof -
  have "ParseDuration F [] = None" by (simp add: ParseDuration_def begins_with_def)
  then show ?thesis by (auto simp: demo_delay_def split: option.split)
qed

end
