(* ===== verification/ConsumerPool.thy ===== *)
theory ConsumerPool
  imports Platform System
begin

text \<open>
  One consumer at the level of its goroutines (\<open>internal/probe/consumer.go\<close>): \<open>readLoop\<close> and
  \<open>claimLoop\<close> send jobs into the bounded channel, the workers receive from it, and \<open>Run\<close> closes the
  channel when both loops have returned. The goroutines take their steps in any order, among the
  steps of the other processes on the shared database and stream; a \<open>select\<close> with several
  branches ready takes any of them. Every step is simulated by steps of the pipeline.
\<close>

section \<open>A call of \<open>Process\<close>, step by step\<close>

text \<open>
  What one step of \<open>Process\<close> makes of a job and of the world: the job goes on, or \<open>None\<close> when the
  call returned an error. The probe runs beside the world.
\<close>

inductive process_turn :: "env \<Rightarrow> workers \<Rightarrow> job \<Rightarrow> world \<Rightarrow> job option \<Rightarrow> world \<Rightarrow> bool" for E wk where
  look: "job_phase j = Received \<Longrightarrow> process_look E (Msg_ExecutionID (job_message j)) w = (Inr r, w') \<Longrightarrow>
     process_turn E wk j w (Some (j\<lparr>job_phase := (case r of None \<Rightarrow> Settled | Some work \<Rightarrow> Looked work)\<rparr>)) w'"
| look_fails: "job_phase j = Received \<Longrightarrow> process_look E (Msg_ExecutionID (job_message j)) w = (Inl e, w') \<Longrightarrow>
     process_turn E wk j w None w'"
| take: "job_phase j = Looked work \<Longrightarrow>
     process_take E (wk_idle wk) (Msg_ExecutionID (job_message j)) (job_consumer j) w = (Inr (), w') \<Longrightarrow>
     process_turn E wk j w (Some (j\<lparr>job_phase := Holding work (env_clock E (w_tick w'))\<rparr>)) (tick w')"
| take_fails: "job_phase j = Looked work \<Longrightarrow>
     process_take E (wk_idle wk) (Msg_ExecutionID (job_message j)) (job_consumer j) w = (Inl e, w') \<Longrightarrow>
     process_turn E wk j w None w'"
| unsupported: "job_phase j = Holding work started \<Longrightarrow>
     probe_of (wk_probes wk) (Exec_ProbeType (Work_Execution work)) = None \<Longrightarrow> process_turn E wk j w None w"
| probe: "job_phase j = Holding work started \<Longrightarrow>
     probe_of (wk_probes wk) (Exec_ProbeType (Work_Execution work)) = Some implementation \<Longrightarrow>
     process_probe implementation (wk_wait wk) work w0 = (Inr (result, attempts), w1) \<Longrightarrow>
     process_turn E wk j w (Some (j\<lparr>job_phase := Probed result attempts started\<rparr>)) w"
| settle: "job_phase j = Probed result attempts started \<Longrightarrow>
     process_settle E (Msg_ExecutionID (job_message j)) (job_consumer j) started result attempts w = (Inr (), w') \<Longrightarrow>
     process_turn E wk j w (Some (j\<lparr>job_phase := Settled\<rparr>)) w'"
| settle_fails: "job_phase j = Probed result attempts started \<Longrightarrow>
     process_settle E (Msg_ExecutionID (job_message j)) (job_consumer j) started result attempts w = (Inl e, w') \<Longrightarrow>
     process_turn E wk j w None w'"

inductive_cases process_turnE: "process_turn E wk j w r w'"

section \<open>The goroutines\<close>

text \<open>
  Where a loop is: at the top, in a call to Redis, sending the messages it was given, about to
  report the length of the queue after a message, waiting after an error, or returned.
\<close>

datatype loop =
    AtTop
  | Calling
  | Sending "(nat \<times> fields) list"
  | Measuring "(nat \<times> fields) list"
  | Sleeping
  | LoopEnded

datatype side = Reader | Claimer

text \<open>A worker: waiting for a job, about to report the length, in \<open>Process\<close>, or returned.\<close>

datatype goroutine = WkIdle | WkTaken job | WkBusy job | WkDone

text \<open>
  The consumer: the shared state with the jobs of the other processes, whether the context is
  cancelled, the loops, the cursor of the claims, the channel, the workers and the gauge. The last
  two components record what was sent and what was received, in order.
\<close>

record pool =
  go_shared :: pipeline
  go_cancelled :: bool
  go_loop :: "side \<Rightarrow> loop"
  go_start :: string
  go_jobs :: "job list"
  go_closed :: bool
  go_panicked :: bool
  go_workers :: "goroutine list"
  go_gauge :: int
  go_sent :: "job list"
  go_received :: "job list"

definition at :: "side \<Rightarrow> loop \<Rightarrow> pool \<Rightarrow> pool" where
  "at sd l g = g\<lparr>go_loop := (go_loop g)(sd := l)\<rparr>"

definition worker_at :: "nat \<Rightarrow> goroutine \<Rightarrow> pool \<Rightarrow> pool" where
  "worker_at n k g = g\<lparr>go_workers := (go_workers g)[n := k]\<rparr>"

definition pool_start :: "worker_setup \<Rightarrow> pipeline \<Rightarrow> pool" where
  "pool_start conf sh = \<lparr>go_shared = sh, go_cancelled = False, go_loop = (\<lambda>_. AtTop), go_start = ''0-0'',
     go_jobs = [], go_closed = False, go_panicked = False, go_workers = replicate (nat (ws_workers conf)) WkIdle,
     go_gauge = 0, go_sent = [], go_received = []\<rparr>"

text \<open>The entries of the stream that one XREADGROUP moves to the pending ones.\<close>

definition next_entries :: "nat \<Rightarrow> pipeline \<Rightarrow> (nat \<times> fields) list" where
  "next_entries k s = map (\<lambda>i. (i, pl_stream s ! i)) [pl_cursor s ..< pl_cursor s + k]"

definition delivered :: "nat \<Rightarrow> pipeline \<Rightarrow> pipeline" where
  "delivered k s = s\<lparr>pl_cursor := pl_cursor s + k,
     pl_pending := rev [pl_cursor s ..< pl_cursor s + k] @ pl_pending s\<rparr>"

text \<open>COUNT is sent to Redis when it is positive.\<close>

definition within_count :: "worker_setup \<Rightarrow> nat \<Rightarrow> bool" where
  "within_count conf k \<longleftrightarrow> (0 < ws_readCount conf \<longrightarrow> int k \<le> ws_readCount conf)"

section \<open>The steps of the loops\<close>

inductive read_step :: "worker_setup \<Rightarrow> pool \<Rightarrow> pool \<Rightarrow> bool" for conf where
  ends: "go_loop g Reader = AtTop \<Longrightarrow> go_cancelled g \<Longrightarrow> read_step conf g (at Reader LoopEnded g)"
| calls: "go_loop g Reader = AtTop \<Longrightarrow> \<not> go_cancelled g \<Longrightarrow> read_step conf g (at Reader Calling g)"
| reads: "go_loop g Reader = Calling \<Longrightarrow> within_count conf k \<Longrightarrow>
     pl_cursor (go_shared g) + k \<le> length (pl_stream (go_shared g)) \<Longrightarrow>
     read_step conf g (at Reader (Sending (next_entries k (go_shared g))) (g\<lparr>go_shared := delivered k (go_shared g)\<rparr>))"
| empty: "go_loop g Reader = Calling \<Longrightarrow> read_step conf g (at Reader AtTop g)"
| fails: "go_loop g Reader = Calling \<Longrightarrow> within_count conf k \<Longrightarrow>
     pl_cursor (go_shared g) + k \<le> length (pl_stream (go_shared g)) \<Longrightarrow>
     read_step conf g (at Reader Sleeping (g\<lparr>go_shared := delivered k (go_shared g)\<rparr>))"

text \<open>\<open>wait\<close>, which the reader calls after an error: the timer fires, or the context has ended.\<close>

inductive wait_step :: "pool \<Rightarrow> pool \<Rightarrow> bool" where
  fires: "go_loop g Reader = Sleeping \<Longrightarrow> wait_step g (at Reader AtTop g)"
| gives_up: "go_loop g Reader = Sleeping \<Longrightarrow> go_cancelled g \<Longrightarrow> wait_step g (at Reader LoopEnded g)"

inductive claim_step :: "pool \<Rightarrow> pool \<Rightarrow> bool" where
  ends: "go_loop g Claimer = AtTop \<Longrightarrow> go_cancelled g \<Longrightarrow> claim_step g (at Claimer LoopEnded g)"
| ticks: "go_loop g Claimer = AtTop \<Longrightarrow> claim_step g (at Claimer Calling g)"
| claims: "go_loop g Claimer = Calling \<Longrightarrow> set claimed \<subseteq> set (pl_pending (go_shared g)) \<Longrightarrow>
     claim_step g (at Claimer (Sending (map (\<lambda>i. (i, pl_stream (go_shared g) ! i)) claimed)) (g\<lparr>go_start := cursor\<rparr>))"
| fails: "go_loop g Claimer = Calling \<Longrightarrow> claim_step g (at Claimer AtTop g)"

text \<open>
  What both loops do with their messages: \<open>decode\<close>, \<open>enqueue\<close> and the report of the length. A
  channel without a buffer hands the job to a worker that waits; sending on a closed channel panics.
\<close>

inductive send_step :: "golib \<Rightarrow> worker_setup \<Rightarrow> string \<Rightarrow> pool \<Rightarrow> pool \<Rightarrow> bool" for L conf c where
  skips: "go_loop g sd = Sending ((i, v) # ms) \<Longrightarrow> decode L v = Inl e \<Longrightarrow> send_step L conf c g (at sd (Sending ms) g)"
| sends: "go_loop g sd = Sending ((i, v) # ms) \<Longrightarrow> decode L v = Inr m \<Longrightarrow> \<not> go_closed g \<Longrightarrow>
     int (length (go_jobs g)) < ws_capacity conf \<Longrightarrow>
     send_step L conf c g (at sd (Measuring ms)
       (g\<lparr>go_jobs := go_jobs g @ [new_job i c m], go_sent := go_sent g @ [new_job i c m]\<rparr>))"
| hands: "go_loop g sd = Sending ((i, v) # ms) \<Longrightarrow> decode L v = Inr m \<Longrightarrow> \<not> go_closed g \<Longrightarrow> ws_capacity conf = 0 \<Longrightarrow>
     n < length (go_workers g) \<Longrightarrow> go_workers g ! n = WkIdle \<Longrightarrow>
     send_step L conf c g (at sd (Measuring ms) (worker_at n (WkTaken (new_job i c m))
       (g\<lparr>go_sent := go_sent g @ [new_job i c m], go_received := go_received g @ [new_job i c m]\<rparr>)))"
| panics: "go_loop g sd = Sending ((i, v) # ms) \<Longrightarrow> decode L v = Inr m \<Longrightarrow> go_closed g \<Longrightarrow>
     send_step L conf c g (g\<lparr>go_panicked := True\<rparr>)"
| stops: "go_loop g sd = Sending ((i, v) # ms) \<Longrightarrow> decode L v = Inr m \<Longrightarrow> go_cancelled g \<Longrightarrow>
     send_step L conf c g (at sd LoopEnded g)"
| measures: "go_loop g sd = Measuring ms \<Longrightarrow>
     send_step L conf c g (at sd (Sending ms) (g\<lparr>go_gauge := int (length (go_jobs g))\<rparr>))"
| finishes: "go_loop g sd = Sending [] \<Longrightarrow> send_step L conf c g (at sd AtTop g)"

section \<open>The steps of the workers\<close>

definition after_turn :: "job option \<Rightarrow> goroutine" where
  "after_turn r = (case r of None \<Rightarrow> WkIdle | Some j \<Rightarrow> WkBusy j)"

text \<open>Of the job that a worker is in \<open>Process\<close> with, a panic is recovered, and the job is given up.\<close>

inductive work_step :: "env \<Rightarrow> workers \<Rightarrow> pool \<Rightarrow> pool \<Rightarrow> bool" for E wk where
  receives: "n < length (go_workers g) \<Longrightarrow> go_workers g ! n = WkIdle \<Longrightarrow> go_jobs g = j # js \<Longrightarrow>
     work_step E wk g (worker_at n (WkTaken j) (g\<lparr>go_jobs := js, go_received := go_received g @ [j]\<rparr>))"
| measures: "n < length (go_workers g) \<Longrightarrow> go_workers g ! n = WkTaken j \<Longrightarrow>
     work_step E wk g (worker_at n (WkBusy j) (g\<lparr>go_gauge := int (length (go_jobs g))\<rparr>))"
| turns: "n < length (go_workers g) \<Longrightarrow> go_workers g ! n = WkBusy j \<Longrightarrow>
     process_turn E wk j (pl_world (go_shared g)) r w' \<Longrightarrow>
     work_step E wk g (worker_at n (after_turn r) (g\<lparr>go_shared := (go_shared g)\<lparr>pl_world := w'\<rparr>\<rparr>))"
| acks: "n < length (go_workers g) \<Longrightarrow> go_workers g ! n = WkBusy j \<Longrightarrow> job_phase j = Settled \<Longrightarrow>
     work_step E wk g (worker_at n WkIdle
       (g\<lparr>go_shared := (go_shared g)\<lparr>pl_pending := removeAll (job_entry j) (pl_pending (go_shared g))\<rparr>\<rparr>))"
| ack_fails: "n < length (go_workers g) \<Longrightarrow> go_workers g ! n = WkBusy j \<Longrightarrow> job_phase j = Settled \<Longrightarrow>
     work_step E wk g (worker_at n WkIdle g)"
| recovers: "n < length (go_workers g) \<Longrightarrow> go_workers g ! n = WkBusy j \<Longrightarrow>
     work_step E wk g (worker_at n WkIdle g)"
| ends: "n < length (go_workers g) \<Longrightarrow> go_workers g ! n = WkIdle \<Longrightarrow> go_jobs g = [] \<Longrightarrow> go_closed g \<Longrightarrow>
     work_step E wk g (worker_at n WkDone g)"

section \<open>The consumer\<close>

definition loops_ended :: "pool \<Rightarrow> bool" where
  "loops_ended g \<longleftrightarrow> go_loop g Reader = LoopEnded \<and> go_loop g Claimer = LoopEnded"

text \<open>\<open>Run\<close> has returned: \<open>workers.Wait\<close> after the close.\<close>

definition run_returned :: "pool \<Rightarrow> bool" where
  "run_returned g \<longleftrightarrow> go_closed g \<and> (\<forall>k\<in>set (go_workers g). k = WkDone)"

text \<open>The steps of the consumer itself.\<close>

inductive own_step :: "env \<Rightarrow> golib \<Rightarrow> workers \<Rightarrow> worker_setup \<Rightarrow> string \<Rightarrow> pool \<Rightarrow> pool \<Rightarrow> bool" for E L wk conf c where
  read: "read_step conf g g' \<Longrightarrow> own_step E L wk conf c g g'"
| wait: "wait_step g g' \<Longrightarrow> own_step E L wk conf c g g'"
| claim: "claim_step g g' \<Longrightarrow> own_step E L wk conf c g g'"
| send: "send_step L conf c g g' \<Longrightarrow> own_step E L wk conf c g g'"
| work: "work_step E wk g g' \<Longrightarrow> own_step E L wk conf c g g'"
| closes: "loops_ended g \<Longrightarrow> \<not> go_closed g \<Longrightarrow> own_step E L wk conf c g (g\<lparr>go_closed := True\<rparr>)"

text \<open>With those around it: the cancellation, and any step of another process.\<close>

inductive pool_step :: "env \<Rightarrow> golib \<Rightarrow> workers \<Rightarrow> worker_setup \<Rightarrow> string \<Rightarrow> pool \<Rightarrow> pool \<Rightarrow> bool" for E L wk conf c where
  own: "own_step E L wk conf c g g' \<Longrightarrow> pool_step E L wk conf c g g'"
| cancels: "pool_step E L wk conf c g (g\<lparr>go_cancelled := True\<rparr>)"
| others: "pipe_step E L (wk_idle wk) (go_shared g) sh \<Longrightarrow> pool_step E L wk conf c g (g\<lparr>go_shared := sh\<rparr>)"

end
