(* ===== verification/PoolRefinement.thy ===== *)
theory PoolRefinement
  imports ConsumerPool "HOL-Library.Multiset"
begin

text \<open>
  Every run of a consumer's goroutines is simulated by steps of the pipeline, so that what is proved
  of the pipeline holds of the goroutines: the jobs in memory of the pipeline are those of the other
  processes with the messages a loop still has, the channel and the jobs the workers have.
\<close>

section \<open>Forward simulations\<close>

locale forward_simulation =
  fixes concrete :: "'c \<Rightarrow> 'c \<Rightarrow> bool" and abstract :: "'a \<Rightarrow> 'a \<Rightarrow> bool" and matching :: "'c \<Rightarrow> 'a \<Rightarrow> bool"
  assumes simulates: "concrete g g' \<Longrightarrow> matching g p \<Longrightarrow> \<exists>p'. abstract\<^sup>*\<^sup>* p p' \<and> matching g' p'"
begin

lemma simulates_runs:
  assumes "concrete\<^sup>*\<^sup>* g g'" and "matching g p"
  shows "\<exists>p'. abstract\<^sup>*\<^sup>* p p' \<and> matching g' p'"
  using assms(1)
proof (induction rule: rtranclp_induct)
  case base
  then show ?case using assms(2) by blast
next
  case (step g1 g2)
  then show ?case using simulates by (meson rtranclp_trans)
qed

end

section \<open>Jobs of others in memory\<close>

text \<open>A step of the pipeline is possible with any further jobs in memory, in any order.\<close>

lemma mset_job:
  assumes "mset js = mset (xs @ j # ys) + M"
  obtains xs' ys' where "js = xs' @ j # ys'" "mset (xs' @ ys') = mset (xs @ ys) + M"
proof -
  have "j \<in># mset js" using assms by simp
  then obtain xs' ys' where js: "js = xs' @ j # ys'" using split_list by fastforce
  then have "mset (xs' @ ys') = mset (xs @ ys) + M" using assms by simp
  then show thesis using js that by blast
qed

definition with_jobs :: "pipeline \<Rightarrow> job list \<Rightarrow> pipeline" where
  "with_jobs s js = s\<lparr>pl_jobs := js\<rparr>"

lemma with_jobs_simps [simp]:
  "pl_world (with_jobs s js) = pl_world s" "pl_stream (with_jobs s js) = pl_stream s"
  "pl_cursor (with_jobs s js) = pl_cursor s" "pl_pending (with_jobs s js) = pl_pending s"
  "pl_jobs (with_jobs s js) = js" "with_jobs (with_jobs s js) js' = with_jobs s js'"
  "with_jobs (s\<lparr>pl_jobs := js'\<rparr>) js = with_jobs s js" "(with_jobs s js)\<lparr>pl_jobs := js'\<rparr> = with_jobs s js'"
  "(with_jobs s js)\<lparr>pl_world := w\<rparr> = with_jobs (s\<lparr>pl_world := w\<rparr>) js"
  "(with_jobs s js)\<lparr>pl_stream := fs\<rparr> = with_jobs (s\<lparr>pl_stream := fs\<rparr>) js"
  "(with_jobs s js)\<lparr>pl_cursor := i\<rparr> = with_jobs (s\<lparr>pl_cursor := i\<rparr>) js"
  "(with_jobs s js)\<lparr>pl_pending := pending\<rparr> = with_jobs (s\<lparr>pl_pending := pending\<rparr>) js"
  by (simp_all add: with_jobs_def)

lemma with_jobs_same [simp]: "with_jobs s (pl_jobs s) = s"
  by (simp add: with_jobs_def)

lemma pipe_step_frame:
  assumes "pipe_step E L idle s s'" and "mset js = mset (pl_jobs s) + M"
  shows "\<exists>js'. pipe_step E L idle (with_jobs s js) (with_jobs s' js') \<and> mset js' = mset (pl_jobs s') + M"
  using assms(1)
proof cases
  case (schedule batch now r w' new)
  show ?thesis
    using pipe_step.schedule [of E batch now "with_jobs s js" r w' L new idle] schedule assms(2)
    by (intro exI [of _ js]) simp
next
  case (recover before n r w' new)
  show ?thesis
    using pipe_step.recover [of E before n "with_jobs s js" r w' L new idle] recover assms(2)
    by (intro exI [of _ js]) simp
next
  case (deliver m c)
  show ?thesis
    using pipe_step.deliver [of "with_jobs s js" L m E idle c] deliver assms(2)
    by (intro exI [of _ "\<lparr>job_entry = pl_cursor s, job_consumer = c, job_message = m, job_phase = Received\<rparr> # js"])
      simp
next
  case (deliver_bad e)
  show ?thesis
    using pipe_step.deliver_bad [of "with_jobs s js" L e E idle] deliver_bad assms(2)
    by (intro exI [of _ js]) simp
next
  case (claim i m c)
  show ?thesis
    using pipe_step.claim [of i "with_jobs s js" L m E idle c] claim assms(2)
    by (intro exI [of _ "\<lparr>job_entry = i, job_consumer = c, job_message = m, job_phase = Received\<rparr> # js"])
      simp
next
  case (look xs j ys r w')
  obtain xs' ys' where "js = xs' @ j # ys'" "mset (xs' @ ys') = mset (xs @ ys) + M"
    using assms(2) look mset_job by metis
  then show ?thesis
    using pipe_step.look [of "with_jobs s js" xs' j ys' E r w' L idle] look
    by (intro exI [of _ "xs' @ j\<lparr>job_phase := (case r of None \<Rightarrow> Settled | Some work \<Rightarrow> Looked work)\<rparr> # ys'"])
      simp
next
  case (look_fails xs j ys e w')
  obtain xs' ys' where "js = xs' @ j # ys'" "mset (xs' @ ys') = mset (xs @ ys) + M"
    using assms(2) look_fails mset_job by metis
  then show ?thesis
    using pipe_step.look_fails [of "with_jobs s js" xs' j ys' E e w' L idle] look_fails
    by (intro exI [of _ "xs' @ ys'"]) simp
next
  case (take xs j ys work w')
  obtain xs' ys' where "js = xs' @ j # ys'" "mset (xs' @ ys') = mset (xs @ ys) + M"
    using assms(2) take mset_job by metis
  then show ?thesis
    using pipe_step.take [of "with_jobs s js" xs' j ys' work E idle w' L] take
    by (intro exI [of _ "xs' @ j\<lparr>job_phase := Holding work (env_clock E (w_tick w'))\<rparr> # ys'"])
      simp
next
  case (take_fails xs j ys work e w')
  obtain xs' ys' where "js = xs' @ j # ys'" "mset (xs' @ ys') = mset (xs @ ys) + M"
    using assms(2) take_fails mset_job by metis
  then show ?thesis
    using pipe_step.take_fails [of "with_jobs s js" xs' j ys' work E idle e w' L] take_fails
    by (intro exI [of _ "xs' @ ys'"]) simp
next
  case (probe xs j ys work started implementation waitFor w result attempts w')
  obtain xs' ys' where "js = xs' @ j # ys'" "mset (xs' @ ys') = mset (xs @ ys) + M"
    using assms(2) probe mset_job by metis
  then show ?thesis
    using pipe_step.probe [of "with_jobs s js" xs' j ys' work started implementation waitFor w result attempts w' E L idle] probe
    by (intro exI [of _ "xs' @ j\<lparr>job_phase := Probed result attempts started\<rparr> # ys'"]) simp
next
  case (settle xs j ys result attempts started w')
  obtain xs' ys' where "js = xs' @ j # ys'" "mset (xs' @ ys') = mset (xs @ ys) + M"
    using assms(2) settle mset_job by metis
  then show ?thesis
    using pipe_step.settle [of "with_jobs s js" xs' j ys' result attempts started E w' L idle] settle
    by (intro exI [of _ "xs' @ j\<lparr>job_phase := Settled\<rparr> # ys'"]) simp
next
  case (settle_fails xs j ys result attempts started e w')
  obtain xs' ys' where "js = xs' @ j # ys'" "mset (xs' @ ys') = mset (xs @ ys) + M"
    using assms(2) settle_fails mset_job by metis
  then show ?thesis
    using pipe_step.settle_fails [of "with_jobs s js" xs' j ys' result attempts started E e w' L idle] settle_fails
    by (intro exI [of _ "xs' @ ys'"]) simp
next
  case (ack xs j ys)
  obtain xs' ys' where "js = xs' @ j # ys'" "mset (xs' @ ys') = mset (xs @ ys) + M"
    using assms(2) ack mset_job by metis
  then show ?thesis
    using pipe_step.ack [of "with_jobs s js" xs' j ys' E L idle] ack
    by (intro exI [of _ "xs' @ ys'"]) simp
next
  case (lose xs j ys)
  obtain xs' ys' where "js = xs' @ j # ys'" "mset (xs' @ ys') = mset (xs @ ys) + M"
    using assms(2) lose mset_job by metis
  then show ?thesis
    using pipe_step.lose [of "with_jobs s js" xs' j ys' E L idle] lose
    by (intro exI [of _ "xs' @ ys'"]) simp
next
  case (fleet req)
  show ?thesis
    using pipe_step.fleet [of E L idle "with_jobs s js" req] fleet assms(2)
    by (intro exI [of _ js]) simp
next
  case (elsewhere w')
  show ?thesis
    using pipe_step.elsewhere [of w' "with_jobs s js" E L idle] elsewhere assms(2)
    by (intro exI [of _ js]) simp
qed

lemma pipe_steps_frame:
  assumes "(pipe_step E L idle)\<^sup>*\<^sup>* s s'" and "mset js = mset (pl_jobs s) + M"
  shows "\<exists>js'. (pipe_step E L idle)\<^sup>*\<^sup>* (with_jobs s js) (with_jobs s' js') \<and> mset js' = mset (pl_jobs s') + M"
  using assms(1)
proof (induction rule: rtranclp_induct)
  case base
  then show ?case using assms(2) by blast
next
  case (step s1 s2)
  then show ?case using pipe_step_frame [OF step(2)] by (meson rtranclp.rtrancl_into_rtrancl)
qed

section \<open>The jobs of the goroutines\<close>

fun batch_jobs :: "golib \<Rightarrow> string \<Rightarrow> (nat \<times> fields) list \<Rightarrow> job list" where
  "batch_jobs L c [] = []"
| "batch_jobs L c ((i, v) # ms) =
     (case decode L v of Inl e \<Rightarrow> batch_jobs L c ms | Inr m \<Rightarrow> new_job i c m # batch_jobs L c ms)"

definition loop_jobs :: "golib \<Rightarrow> string \<Rightarrow> loop \<Rightarrow> job multiset" where
  "loop_jobs L c l =
     (case l of Sending ms \<Rightarrow> mset (batch_jobs L c ms) | Measuring ms \<Rightarrow> mset (batch_jobs L c ms) | _ \<Rightarrow> {#})"

definition worker_jobs :: "goroutine \<Rightarrow> job multiset" where
  "worker_jobs k = (case k of WkTaken j \<Rightarrow> {#j#} | WkBusy j \<Rightarrow> {#j#} | _ \<Rightarrow> {#})"

definition own_jobs :: "golib \<Rightarrow> string \<Rightarrow> pool \<Rightarrow> job multiset" where
  "own_jobs L c g =
     loop_jobs L c (go_loop g Reader) + loop_jobs L c (go_loop g Claimer) + mset (go_jobs g) +
     sum_list (map worker_jobs (go_workers g))"

definition matching :: "golib \<Rightarrow> string \<Rightarrow> pool \<Rightarrow> pipeline \<Rightarrow> bool" where
  "matching L c g p \<longleftrightarrow>
     p = with_jobs (go_shared g) (pl_jobs p) \<and> mset (pl_jobs p) = mset (pl_jobs (go_shared g)) + own_jobs L c g"

lemma jobs_simps [simp]:
  "loop_jobs L c AtTop = {#}" "loop_jobs L c Calling = {#}" "loop_jobs L c Sleeping = {#}" "loop_jobs L c LoopEnded = {#}"
  "loop_jobs L c (Sending ms) = mset (batch_jobs L c ms)" "loop_jobs L c (Measuring ms) = mset (batch_jobs L c ms)"
  "worker_jobs WkIdle = {#}" "worker_jobs WkDone = {#}" "worker_jobs (WkTaken j) = {#j#}" "worker_jobs (WkBusy j) = {#j#}"
  by (simp_all add: loop_jobs_def worker_jobs_def)

lemma own_jobs_at: "own_jobs L c (at sd l g) + loop_jobs L c (go_loop g sd) = own_jobs L c g + loop_jobs L c l"
  by (cases sd) (simp_all add: own_jobs_def at_def)

lemma worker_jobs_update:
  assumes "n < length ks"
  shows "sum_list (map worker_jobs (ks[n := k])) + worker_jobs (ks ! n) = sum_list (map worker_jobs ks) + worker_jobs k"
  using assms
proof (induction ks arbitrary: n)
  case (Cons k' ks)
  then show ?case by (cases n) (simp_all add: ac_simps)
qed simp

lemma own_jobs_worker_at:
  "n < length (go_workers g) \<Longrightarrow>
     own_jobs L c (worker_at n k g) + worker_jobs (go_workers g ! n) = own_jobs L c g + worker_jobs k"
  using worker_jobs_update [of n "go_workers g" k] by (simp add: own_jobs_def worker_at_def ac_simps)

lemma batch_jobs_append: "batch_jobs L c (ms @ ms') = batch_jobs L c ms @ batch_jobs L c ms'"
  by (induction L c ms rule: batch_jobs.induct) (simp_all split: sum.split)

section \<open>Steps of goroutines as steps of the pipeline\<close>

text \<open>
  A step of the consumer that turns some of its jobs, \<open>xs\<close>, into others, \<open>ys\<close>, is simulated when
  the pipeline makes the same of them.
\<close>

lemma matching_steps:
  assumes "matching L c g p" and "(pipe_step E L idle)\<^sup>*\<^sup>* (with_jobs (go_shared g) xs) (with_jobs (go_shared g') ys)"
    and "own_jobs L c g = mset xs + N" and "own_jobs L c g' = mset ys + N"
    and "pl_jobs (go_shared g') = pl_jobs (go_shared g)"
  shows "\<exists>p'. (pipe_step E L idle)\<^sup>*\<^sup>* p p' \<and> matching L c g' p'"
proof -
  have p: "with_jobs (with_jobs (go_shared g) xs) (pl_jobs p) = p" using assms(1) unfolding matching_def by simp
  obtain js' where "(pipe_step E L idle)\<^sup>*\<^sup>* p (with_jobs (go_shared g') js')"
    and "mset js' = mset ys + (mset (pl_jobs (go_shared g)) + N)"
    using pipe_steps_frame [OF assms(2), of "pl_jobs p" "mset (pl_jobs (go_shared g)) + N"] assms(1,3)
    unfolding p by (auto simp: matching_def ac_simps)
  then show ?thesis using assms(4,5)
    by (intro exI [of _ "with_jobs (go_shared g') js'"]) (simp add: matching_def ac_simps)
qed

lemma matching_stutter:
  assumes "matching L c g p" and "go_shared g' = go_shared g" and "own_jobs L c g' = own_jobs L c g"
  shows "\<exists>p'. (pipe_step E L idle)\<^sup>*\<^sup>* p p' \<and> matching L c g' p'"
  using assms by (intro exI [of _ p]) (simp add: matching_def)

lemma lose_many: "(pipe_step E L idle)\<^sup>*\<^sup>* (with_jobs s xs) (with_jobs s [])"
proof (induction xs)
  case (Cons x xs)
  have "pipe_step E L idle (with_jobs s (x # xs)) (with_jobs s xs)"
    using pipe_step.lose [of "with_jobs s (x # xs)" "[]" x xs] by simp
  then show ?case using Cons by (rule converse_rtranclp_into_rtranclp)
qed simp

lemma next_entries_delivered:
  assumes "pl_cursor s + k \<le> length (pl_stream s)"
  shows "\<exists>ys. (pipe_step E L idle)\<^sup>*\<^sup>* (with_jobs s []) (with_jobs (delivered k s) ys) \<and>
    mset ys = mset (batch_jobs L c (next_entries k s))"
  using assms
proof (induction k)
  case 0
  then show ?case by (auto simp: delivered_def next_entries_def)
next
  case (Suc k)
  let ?i = "pl_cursor s + k" and ?s = "delivered k s"
  obtain ys where ys: "(pipe_step E L idle)\<^sup>*\<^sup>* (with_jobs s []) (with_jobs ?s ys)"
    "mset ys = mset (batch_jobs L c (next_entries k s))" using Suc by auto
  have s: "pl_cursor ?s = ?i" "pl_stream ?s = pl_stream s" "pl_pending ?s = rev [pl_cursor s ..< ?i] @ pl_pending s"
    by (simp_all add: delivered_def)
  have s': "delivered (Suc k) s = ?s\<lparr>pl_cursor := Suc ?i, pl_pending := ?i # pl_pending ?s\<rparr>"
    by (simp add: delivered_def)
  have next': "next_entries (Suc k) s = next_entries k s @ [(?i, pl_stream s ! ?i)]" by (simp add: next_entries_def)
  have "\<exists>ys'. pipe_step E L idle (with_jobs ?s ys) (with_jobs (delivered (Suc k) s) ys') \<and>
      mset ys' = mset (batch_jobs L c (next_entries (Suc k) s))"
  proof (cases "decode L (pl_stream s ! ?i)")
    case (Inl e)
    then show ?thesis
      using pipe_step.deliver_bad [of "with_jobs ?s ys" L e E idle] Suc.prems ys(2)
      by (intro exI [of _ ys]) (simp add: s s' next' batch_jobs_append)
  next
    case (Inr m)
    then show ?thesis
      using pipe_step.deliver [of "with_jobs ?s ys" L m E idle c] Suc.prems ys(2)
      by (intro exI [of _ "new_job ?i c m # ys"]) (simp add: s s' next' batch_jobs_append new_job_def)
  qed
  then show ?case using ys(1) by (meson rtranclp.rtrancl_into_rtrancl)
qed

lemma claim_many:
  assumes "set is \<subseteq> set (pl_pending s)"
  shows "\<exists>ys. (pipe_step E L idle)\<^sup>*\<^sup>* (with_jobs s []) (with_jobs s ys) \<and>
    mset ys = mset (batch_jobs L c (map (\<lambda>i. (i, pl_stream s ! i)) is))"
  using assms
proof (induction "is")
  case Nil
  then show ?case by auto
next
  case (Cons i "is")
  then obtain ys where ys: "(pipe_step E L idle)\<^sup>*\<^sup>* (with_jobs s []) (with_jobs s ys)"
    "mset ys = mset (batch_jobs L c (map (\<lambda>i. (i, pl_stream s ! i)) is))" by auto
  show ?case
  proof (cases "decode L (pl_stream s ! i)")
    case (Inl e)
    then show ?thesis using ys by auto
  next
    case (Inr m)
    have "pipe_step E L idle (with_jobs s ys) (with_jobs s (new_job i c m # ys))"
      using pipe_step.claim [of i "with_jobs s ys" L m E idle c] Cons.prems Inr by (simp add: new_job_def)
    then have "(pipe_step E L idle)\<^sup>*\<^sup>* (with_jobs s []) (with_jobs s (new_job i c m # ys))"
      using ys(1) by (rule rtranclp.rtrancl_into_rtrancl [rotated])
    then show ?thesis using Inr ys(2) by (intro exI [of _ "new_job i c m # ys"]) simp
  qed
qed

definition turned :: "job option \<Rightarrow> job list" where
  "turned r = (case r of None \<Rightarrow> [] | Some j \<Rightarrow> [j])"

lemma worker_jobs_after_turn [simp]: "worker_jobs (after_turn r) = mset (turned r)"
  by (simp add: after_turn_def turned_def split: option.split)

lemma turn_steps:
  assumes "process_turn E wk j (pl_world s) r w'"
  shows "(pipe_step E L (wk_idle wk))\<^sup>*\<^sup>* (with_jobs s [j]) (with_jobs (s\<lparr>pl_world := w'\<rparr>) (turned r))"
proof -
  let ?s = "with_jobs s [j]"
  have js: "pl_jobs ?s = [] @ j # []" by simp
  note intros = pipe_step.look [OF js] pipe_step.look_fails [OF js] pipe_step.take [OF js] pipe_step.take_fails [OF js]
    pipe_step.probe [OF js] pipe_step.settle [OF js] pipe_step.settle_fails [OF js] pipe_step.lose [OF js]
  have "pipe_step E L (wk_idle wk) ?s (with_jobs (s\<lparr>pl_world := w'\<rparr>) (turned r))"
    using assms
  proof cases
    case (look r' )
    then show ?thesis using intros(1) [of E r' w' L "wk_idle wk"] by (simp add: turned_def)
  next
    case (look_fails e)
    then show ?thesis using intros(2) [of E e w' L "wk_idle wk"] by (simp add: turned_def)
  next
    case (take work w1)
    then show ?thesis using intros(3) [of work E "wk_idle wk" w1 L] by (simp add: turned_def)
  next
    case (take_fails work e)
    then show ?thesis using intros(4) [of work E "wk_idle wk" e w' L] by (simp add: turned_def)
  next
    case (unsupported work started)
    then show ?thesis using intros(8) [of E L "wk_idle wk"] by (simp add: turned_def)
  next
    case (probe work started implementation w0 result attempts w1)
    then show ?thesis
      using intros(5) [of work started implementation "wk_wait wk" w0 result attempts w1 E L "wk_idle wk"] by (simp add: turned_def)
  next
    case (settle result attempts started)
    then show ?thesis using intros(6) [of result attempts started E w' L "wk_idle wk"] by (simp add: turned_def)
  next
    case (settle_fails result attempts started e)
    then show ?thesis using intros(7) [of result attempts started E e w' L "wk_idle wk"] by (simp add: turned_def)
  qed
  then show ?thesis by (rule r_into_rtranclp)
qed

section \<open>The simulation\<close>

abbreviation simulated :: "env \<Rightarrow> golib \<Rightarrow> duration \<Rightarrow> string \<Rightarrow> pool \<Rightarrow> pipeline \<Rightarrow> bool" where
  "simulated E L idle c g' p \<equiv> \<exists>p'. (pipe_step E L idle)\<^sup>*\<^sup>* p p' \<and> matching L c g' p'"

lemma at_shared [simp]: "go_shared (at sd l g) = go_shared g" "go_shared (worker_at n k g) = go_shared g"
  by (simp_all add: at_def worker_at_def)

lemma own_jobs_fields [simp]:
  "own_jobs L c (g\<lparr>go_shared := sh\<rparr>) = own_jobs L c g" "own_jobs L c (g\<lparr>go_gauge := x\<rparr>) = own_jobs L c g"
  "own_jobs L c (g\<lparr>go_start := z\<rparr>) = own_jobs L c g" "own_jobs L c (g\<lparr>go_closed := b\<rparr>) = own_jobs L c g"
  "own_jobs L c (g\<lparr>go_cancelled := b\<rparr>) = own_jobs L c g" "own_jobs L c (g\<lparr>go_panicked := b\<rparr>) = own_jobs L c g"
  "own_jobs L c (g\<lparr>go_sent := js, go_received := js'\<rparr>) = own_jobs L c g"
  by (simp_all add: own_jobs_def)

text \<open>A loop that moves: it keeps its jobs, gets those of a batch, or gives up what it has.\<close>

lemma loop_keeps:
  assumes "matching L c g p" and "loop_jobs L c l = loop_jobs L c (go_loop g sd)"
  shows "simulated E L idle c (at sd l g) p"
  using assms own_jobs_at [of L c sd l g] by (intro matching_stutter) simp_all

lemma loop_gives_up:
  assumes "matching L c g p" and "loop_jobs L c l = {#}"
  shows "simulated E L idle c (at sd l g) p"
proof -
  obtain xs where xs: "mset xs = loop_jobs L c (go_loop g sd)" by (metis ex_mset)
  show ?thesis
    by (rule matching_steps [OF assms(1), where xs = xs and ys = "[]" and N = "own_jobs L c (at sd l g)"])
      (use lose_many own_jobs_at [of L c sd l g] assms(2) xs in \<open>simp_all add: ac_simps\<close>)
qed

lemma loop_gets:
  assumes "matching L c g p" and "loop_jobs L c (go_loop g sd) = {#}" and "loop_jobs L c l = mset ys"
    and "(pipe_step E L idle)\<^sup>*\<^sup>* (with_jobs (go_shared g) []) (with_jobs sh ys)" and "pl_jobs sh = pl_jobs (go_shared g)"
  shows "simulated E L idle c (at sd l (g\<lparr>go_shared := sh\<rparr>)) p"
  by (rule matching_steps [OF assms(1), where xs = "[]" and ys = ys and N = "own_jobs L c g"])
    (use assms own_jobs_at [of L c sd l "g\<lparr>go_shared := sh\<rparr>"] in \<open>simp_all add: ac_simps\<close>)

lemma sim_read:
  assumes "read_step conf g g'" and m: "matching L c g p"
  shows "simulated E L idle c g' p"
  using assms(1)
proof cases
  case (reads k)
  obtain ys where "(pipe_step E L idle)\<^sup>*\<^sup>* (with_jobs (go_shared g) []) (with_jobs (delivered k (go_shared g)) ys)"
    "mset ys = mset (batch_jobs L c (next_entries k (go_shared g)))"
    using next_entries_delivered [OF reads(4)] by blast
  then show ?thesis unfolding reads(1) by (intro loop_gets [OF m]) (simp_all add: reads(2) delivered_def)
next
  case (fails k)
  obtain ys where ys: "(pipe_step E L idle)\<^sup>*\<^sup>* (with_jobs (go_shared g) []) (with_jobs (delivered k (go_shared g)) ys)"
    using next_entries_delivered [OF fails(4)] by blast
  have "(pipe_step E L idle)\<^sup>*\<^sup>* (with_jobs (go_shared g) []) (with_jobs (delivered k (go_shared g)) [])"
    using ys lose_many by (rule rtranclp_trans)
  then show ?thesis unfolding fails(1) by (intro loop_gets [OF m]) (simp_all add: fails(2) delivered_def)
qed (use loop_keeps [OF m] in simp_all)

lemma sim_wait:
  assumes "wait_step g g'" and m: "matching L c g p"
  shows "simulated E L idle c g' p"
  using assms(1) by cases (use loop_keeps [OF m] in simp_all)

lemma sim_claim:
  assumes "claim_step g g'" and m: "matching L c g p"
  shows "simulated E L idle c g' p"
  using assms(1)
proof cases
  case (claims claimed cursor)
  let ?g = "g\<lparr>go_start := cursor\<rparr>"
  obtain ys where ys: "(pipe_step E L idle)\<^sup>*\<^sup>* (with_jobs (go_shared g) []) (with_jobs (go_shared g) ys)"
    "mset ys = mset (batch_jobs L c (map (\<lambda>i. (i, pl_stream (go_shared g) ! i)) claimed))"
    using claim_many [OF claims(3)] by blast
  have m': "matching L c ?g p" using m by (simp add: matching_def)
  have "simulated E L idle c (at Claimer (Sending (map (\<lambda>i. (i, pl_stream (go_shared g) ! i)) claimed))
      (?g\<lparr>go_shared := go_shared ?g\<rparr>)) p"
    by (rule loop_gets [OF m']) (use ys claims(2) in simp_all)
  then show ?thesis using claims(1) by simp
qed (use loop_keeps [OF m] in simp_all)

lemma sim_send:
  assumes "send_step L conf c g g'" and m: "matching L c g p"
  shows "simulated E L idle c g' p"
  using assms(1)
proof cases
  case (skips sd i v ms e)
  then show ?thesis using loop_keeps [OF m, of "Sending ms" sd] by simp
next
  case (sends sd i v ms m')
  let ?g = "g\<lparr>go_jobs := go_jobs g @ [new_job i c m'], go_sent := go_sent g @ [new_job i c m']\<rparr>"
  have "own_jobs L c ?g = own_jobs L c g + {#new_job i c m'#}" by (simp add: own_jobs_def ac_simps)
  then show ?thesis
    using own_jobs_at [of L c sd "Measuring ms" ?g] sends by (intro matching_stutter [OF m]) simp_all
next
  case (hands sd i v ms m' n)
  let ?g = "g\<lparr>go_sent := go_sent g @ [new_job i c m'], go_received := go_received g @ [new_job i c m']\<rparr>"
  let ?h = "worker_at n (WkTaken (new_job i c m')) ?g"
  have "go_loop ?h sd = Sending ((i, v) # ms)" using hands by (simp add: worker_at_def)
  then show ?thesis
    using own_jobs_at [of L c sd "Measuring ms" ?h] own_jobs_worker_at [of n ?g L c "WkTaken (new_job i c m')"] hands
    by (intro matching_stutter [OF m]) simp_all
next
  case (panics sd i v ms m')
  then show ?thesis by (intro matching_stutter [OF m]) simp_all
next
  case (stops sd i v ms m')
  then show ?thesis using loop_gives_up [OF m, of LoopEnded] by simp
next
  case (measures sd ms)
  have "matching L c (g\<lparr>go_gauge := int (length (go_jobs g))\<rparr>) p" using m by (simp add: matching_def)
  then show ?thesis using measures loop_keeps [of L c _ p "Sending ms" sd] by simp
next
  case (finishes sd)
  then show ?thesis using loop_keeps [OF m, of AtTop sd] by simp
qed

text \<open>A worker that moves: its job becomes what a step of the pipeline makes of it.\<close>

lemma worker_moves:
  assumes "matching L c g p" and "n < length (go_workers g)" and "worker_jobs (go_workers g ! n) = mset xs"
    and "worker_jobs k = mset ys" and "(pipe_step E L idle)\<^sup>*\<^sup>* (with_jobs (go_shared g) xs) (with_jobs sh ys)"
    and "pl_jobs sh = pl_jobs (go_shared g)"
  shows "simulated E L idle c (worker_at n k (g\<lparr>go_shared := sh\<rparr>)) p"
proof -
  obtain N where N: "own_jobs L c g = mset xs + N"
    using own_jobs_worker_at [of n g L c WkIdle] assms(2,3) by (metis add.commute add.right_neutral jobs_simps(7))
  then show ?thesis
    using own_jobs_worker_at [of n "g\<lparr>go_shared := sh\<rparr>" L c k] assms
    by (intro matching_steps [OF assms(1), where xs = xs and ys = ys and N = N]) (simp_all add: ac_simps)
qed

lemma sim_work:
  assumes "work_step E wk g g'" and m: "matching L c g p"
  shows "simulated E L (wk_idle wk) c g' p"
  using assms(1)
proof cases
  case (receives n j js)
  let ?g = "g\<lparr>go_jobs := js, go_received := go_received g @ [j]\<rparr>"
  have "own_jobs L c g = own_jobs L c ?g + {#j#}" using receives by (simp add: own_jobs_def ac_simps)
  then show ?thesis
    using own_jobs_worker_at [of n ?g L c "WkTaken j"] receives by (intro matching_stutter [OF m]) simp_all
next
  case (measures n j)
  let ?g = "g\<lparr>go_gauge := int (length (go_jobs g))\<rparr>"
  show ?thesis
    using own_jobs_worker_at [of n ?g L c "WkBusy j"] measures by (intro matching_stutter [OF m]) simp_all
next
  case (turns n j r w')
  show ?thesis
    unfolding turns(1)
    by (rule worker_moves [OF m turns(2), where xs = "[j]" and ys = "turned r"])
      (use turns turn_steps [OF turns(4)] in simp_all)
next
  case (acks n j)
  let ?sh = "(go_shared g)\<lparr>pl_pending := removeAll (job_entry j) (pl_pending (go_shared g))\<rparr>"
  have "pipe_step E L (wk_idle wk) (with_jobs (go_shared g) [j]) (with_jobs ?sh [])"
    using pipe_step.ack [of "with_jobs (go_shared g) [j]" "[]" j "[]" E L "wk_idle wk"] acks(4) by simp
  then show ?thesis
    unfolding acks(1)
    by (intro worker_moves [OF m acks(2), where xs = "[j]" and ys = "[]"]) (use acks in auto)
next
  case (ack_fails n j)
  have "simulated E L (wk_idle wk) c (worker_at n WkIdle (g\<lparr>go_shared := go_shared g\<rparr>)) p"
    by (rule worker_moves [OF m ack_fails(2), where xs = "[j]" and ys = "[]"]) (use ack_fails lose_many in auto)
  then show ?thesis using ack_fails(1) by simp
next
  case (recovers n j)
  have "simulated E L (wk_idle wk) c (worker_at n WkIdle (g\<lparr>go_shared := go_shared g\<rparr>)) p"
    by (rule worker_moves [OF m recovers(2), where xs = "[j]" and ys = "[]"]) (use recovers lose_many in auto)
  then show ?thesis using recovers(1) by simp
next
  case (ends n)
  then show ?thesis
    using own_jobs_worker_at [of n g L c WkDone] by (intro matching_stutter [OF m]) simp_all
qed

lemma sim_step:
  assumes "pool_step E L wk conf c g g'" and m: "matching L c g p"
  shows "simulated E L (wk_idle wk) c g' p"
  using assms(1)
proof cases
  case own
  then show ?thesis
  proof cases
    case read
    then show ?thesis using m by (rule sim_read)
  next
    case wait
    then show ?thesis using m by (rule sim_wait)
  next
    case claim
    then show ?thesis using m by (rule sim_claim)
  next
    case send
    then show ?thesis using m by (rule sim_send)
  next
    case work
    then show ?thesis using m by (rule sim_work)
  next
    case closes
    then show ?thesis by (intro matching_stutter [OF m]) simp_all
  qed
next
  case cancels
  then show ?thesis by (intro matching_stutter [OF m]) simp_all
next
  case (others sh)
  obtain js' where "pipe_step E L (wk_idle wk) (with_jobs (go_shared g) (pl_jobs p)) (with_jobs sh js')"
    "mset js' = mset (pl_jobs sh) + own_jobs L c g"
    using pipe_step_frame [OF others(2)] m unfolding matching_def by blast
  then show ?thesis
    using m others(1) by (intro exI [of _ "with_jobs sh js'"]) (auto simp: matching_def)
qed

interpretation consumer: forward_simulation "pool_step E L wk conf c" "pipe_step E L (wk_idle wk)" "matching L c"
  for E L wk conf c
  by unfold_locales (rule sim_step)

lemma idle_no_jobs: "sum_list (map worker_jobs (replicate n WkIdle)) = {#}"
  by (induction n) simp_all

lemma matching_start: "matching L c (pool_start conf sh) sh"
  using idle_no_jobs by (simp add: matching_def own_jobs_def pool_start_def)

lemma pool_refines:
  assumes "(pool_step E L wk conf c)\<^sup>*\<^sup>* (pool_start conf sh) g"
  shows "simulated E L (wk_idle wk) c g sh"
  using consumer.simulates_runs [OF assms matching_start] .

end
