(* ===== verification/PoolShutdown.thy ===== *)
theory PoolShutdown
  imports ConsumerPool
begin

text \<open>
  What holds of the goroutines of a consumer in every state they reach: the discipline of the
  channel, and the shutdown, which ends after a bounded number of steps of the consumer.
\<close>

lemmas pool_defs = at_def worker_at_def

section \<open>The discipline of the channel\<close>

definition channel_ok :: "worker_setup \<Rightarrow> pool \<Rightarrow> bool" where
  "channel_ok conf g \<longleftrightarrow>
     int (length (go_jobs g)) \<le> ws_capacity conf \<and> 0 \<le> go_gauge g \<and> go_gauge g \<le> ws_capacity conf \<and>
     go_sent g = go_received g @ go_jobs g \<and> length (go_workers g) = nat (ws_workers conf) \<and>
     (go_closed g \<longrightarrow> loops_ended g) \<and> (\<forall>sd. go_loop g sd = LoopEnded \<longrightarrow> go_cancelled g) \<and>
     go_loop g Claimer \<noteq> Sleeping \<and>
     (WkDone \<in> set (go_workers g) \<longrightarrow> go_closed g \<and> go_jobs g = []) \<and> \<not> go_panicked g"

lemma channel_okD:
  assumes "channel_ok conf g"
  shows "int (length (go_jobs g)) \<le> ws_capacity conf" "0 \<le> go_gauge g" "go_gauge g \<le> ws_capacity conf"
    "go_sent g = go_received g @ go_jobs g" "length (go_workers g) = nat (ws_workers conf)"
    "go_closed g \<Longrightarrow> go_loop g sd = LoopEnded" "go_loop g sd = LoopEnded \<Longrightarrow> go_cancelled g"
    "WkDone \<in> set (go_workers g) \<Longrightarrow> go_closed g \<and> go_jobs g = []" "\<not> go_panicked g" "go_loop g Claimer \<noteq> Sleeping"
  using assms by (cases sd; auto simp: channel_ok_def loops_ended_def)+

text \<open>A worker that moves on and has not returned leaves the returned ones as they were.\<close>

lemma done_update: "k \<noteq> WkDone \<Longrightarrow> WkDone \<in> set (ks[n := k]) \<Longrightarrow> WkDone \<in> set ks"
  using set_update_subset_insert [of ks n k] by auto

lemma channel_ok_loop:
  assumes "channel_ok conf g" and "go_loop g sd \<noteq> LoopEnded" and "l = LoopEnded \<longrightarrow> go_cancelled g"
    and "l = Sleeping \<longrightarrow> sd = Reader"
  shows "channel_ok conf (at sd l g)"
  using assms channel_okD(6) [OF assms(1), of sd]
  by (cases sd) (auto simp: channel_ok_def loops_ended_def at_def)

lemma channel_ok_worker:
  assumes "channel_ok conf g" and "k = WkDone \<longrightarrow> go_closed g \<and> go_jobs g = []"
  shows "channel_ok conf (worker_at n k g)"
  using assms done_update [of k "go_workers g" n]
  by (cases "k = WkDone") (auto simp: channel_ok_def loops_ended_def worker_at_def)

lemma channel_ok_shared: "channel_ok conf g \<Longrightarrow> channel_ok conf (g\<lparr>go_shared := sh\<rparr>)"
  by (simp add: channel_ok_def loops_ended_def)

lemma channel_ok_gauge: "channel_ok conf g \<Longrightarrow> channel_ok conf (g\<lparr>go_gauge := int (length (go_jobs g))\<rparr>)"
  by (simp add: channel_ok_def loops_ended_def)

lemma channel_ok_cursor: "channel_ok conf g \<Longrightarrow> channel_ok conf (g\<lparr>go_start := s\<rparr>)"
  by (simp add: channel_ok_def loops_ended_def)

lemmas channel_ok_updates = channel_ok_loop channel_ok_worker channel_ok_shared channel_ok_gauge

lemma channel_ok_read: "read_step conf g g' \<Longrightarrow> channel_ok conf g \<Longrightarrow> channel_ok conf g'"
  by (induction rule: read_step.induct) (auto intro!: channel_ok_updates)

lemma channel_ok_wait: "wait_step g g' \<Longrightarrow> channel_ok conf g \<Longrightarrow> channel_ok conf g'"
  by (induction rule: wait_step.induct) (auto intro!: channel_ok_updates)

lemma channel_ok_claim: "claim_step g g' \<Longrightarrow> channel_ok conf g \<Longrightarrow> channel_ok conf g'"
  by (induction rule: claim_step.induct) (auto intro!: channel_ok_loop channel_ok_cursor)

lemma channel_ok_send:
  assumes "send_step L conf c g g'" and ok: "channel_ok conf g"
  shows "channel_ok conf g'"
  using assms(1)
proof cases
  case (sends sd i v ms m)
  have "WkDone \<notin> set (go_workers g)" using channel_okD(8) [OF ok] sends by auto
  then have "channel_ok conf (g\<lparr>go_jobs := go_jobs g @ [new_job i c m], go_sent := go_sent g @ [new_job i c m]\<rparr>)"
    using ok sends by (auto simp: channel_ok_def loops_ended_def)
  then show ?thesis using sends by (auto intro!: channel_ok_loop)
next
  case (hands sd i v ms m n)
  have "go_jobs g = []" using channel_okD(1) [OF ok] hands by simp
  then have "channel_ok conf (g\<lparr>go_sent := go_sent g @ [new_job i c m], go_received := go_received g @ [new_job i c m]\<rparr>)"
    using ok by (auto simp: channel_ok_def loops_ended_def)
  from channel_ok_worker [OF this] show ?thesis
    unfolding hands(1) by (rule channel_ok_loop) (simp_all add: hands(2) worker_at_def)
next
  case (panics sd i v ms m)
  then show ?thesis using channel_okD(6) [OF ok, of sd] by simp
qed (use ok in \<open>auto intro!: channel_ok_updates\<close>)

lemma channel_ok_work: 
  assumes "work_step E wk g g'" and ok: "channel_ok conf g"
  shows "channel_ok conf g'"
  using assms(1)
proof cases
  case (receives n j js)
  have "channel_ok conf (g\<lparr>go_jobs := js, go_received := go_received g @ [j]\<rparr>)"
    using ok receives by (auto simp: channel_ok_def loops_ended_def)
  then show ?thesis using receives by (auto intro!: channel_ok_worker)
qed (use ok in \<open>auto intro!: channel_ok_updates simp: after_turn_def split: option.splits\<close>)

lemma channel_ok_own:
  assumes "own_step E L wk conf c g g'" and "channel_ok conf g"
  shows "channel_ok conf g'"
  using assms(1)
proof cases
  case closes
  then show ?thesis using assms(2) by (auto simp: channel_ok_def loops_ended_def)
qed (use assms(2) channel_ok_read channel_ok_wait channel_ok_claim channel_ok_send channel_ok_work in blast)+

lemma channel_ok_step:
  assumes "pool_step E L wk conf c g g'" and "channel_ok conf g"
  shows "channel_ok conf g'"
  using assms(1)
proof cases
  case own
  then show ?thesis using assms(2) by (rule channel_ok_own)
next
  case cancels
  then show ?thesis using assms(2) by (simp add: channel_ok_def loops_ended_def)
next
  case others
  then show ?thesis using assms(2) by (simp add: channel_ok_shared)
qed

lemma channel_ok_start: "0 \<le> ws_capacity conf \<Longrightarrow> channel_ok conf (pool_start conf sh)"
  by (simp add: channel_ok_def pool_start_def)

lemma channel_ok_reached:
  assumes "(pool_step E L wk conf c)\<^sup>*\<^sup>* (pool_start conf sh) g" and "0 \<le> ws_capacity conf"
  shows "channel_ok conf g"
  using assms(1) by (induction rule: rtranclp_induct) (simp_all add: assms(2) channel_ok_start channel_ok_step)

text \<open>When \<open>Run\<close> has returned with a worker at all, every job that was sent was received, in order.\<close>

lemma returned_received:
  assumes "channel_ok conf g" and "run_returned g" and "0 < ws_workers conf"
  shows "go_received g = go_sent g \<and> go_cancelled g"
proof -
  have "go_workers g \<noteq> []" using channel_okD(5) [OF assms(1)] assms(3) by auto
  then have "WkDone \<in> set (go_workers g)" using assms(2) by (metis list.set_intros(1) neq_Nil_conv run_returned_def)
  then show ?thesis
    using channel_okD(4) [OF assms(1)] channel_okD(8) [OF assms(1)] channel_okD(6,7) [OF assms(1), of Reader] by simp
qed

section \<open>The shutdown\<close>

text \<open>How many steps a job and a worker have at most before them.\<close>

definition phase_rank :: "phase \<Rightarrow> nat" where
  "phase_rank p = (case p of Received \<Rightarrow> 5 | Looked _ \<Rightarrow> 4 | Holding _ _ \<Rightarrow> 3 | Probed _ _ _ \<Rightarrow> 2 | Settled \<Rightarrow> 1)"

definition worker_rank :: "goroutine \<Rightarrow> nat" where
  "worker_rank k = (case k of WkDone \<Rightarrow> 0 | WkIdle \<Rightarrow> 1 | WkBusy j \<Rightarrow> 1 + phase_rank (job_phase j) | WkTaken _ \<Rightarrow> 7)"

definition shutdown_rank :: "pool \<Rightarrow> nat" where
  "shutdown_rank g = 7 * length (go_jobs g) + sum_list (map worker_rank (go_workers g)) + (if go_closed g then 0 else 1)"

lemma worker_rank_le: "worker_rank k \<le> 7"
  by (auto simp: worker_rank_def phase_rank_def split: goroutine.split phase.split)

lemma shutdown_rank_bound:
  assumes "channel_ok conf g"
  shows "shutdown_rank g \<le> 7 * (nat (ws_capacity conf) + nat (ws_workers conf)) + 1"
proof -
  have "sum_list (map worker_rank (go_workers g)) \<le> sum_list (map (\<lambda>_. 7) (go_workers g))"
    by (rule sum_list_mono) (rule worker_rank_le)
  then show ?thesis
    using channel_okD(1,5) [OF assms] by (simp add: shutdown_rank_def sum_list_triv) linarith
qed

lemma turn_rank: "process_turn E wk j w r w' \<Longrightarrow> worker_rank (after_turn r) < worker_rank (WkBusy j)"
  by (induction rule: process_turn.induct)
    (auto simp: worker_rank_def phase_rank_def after_turn_def split: phase.split option.split)

lemma rank_update:
  assumes "n < length ks"
  shows "sum_list (map worker_rank (ks[n := k])) + worker_rank (ks ! n) = sum_list (map worker_rank ks) + worker_rank k"
  using assms by (induction ks arbitrary: n) (auto simp: nth_Cons split: nat.split)

lemma rank_moves:
  assumes "n < length (go_workers g)" and "worker_rank k + 7 * length js < worker_rank (go_workers g ! n) + 7 * length (go_jobs g)"
  shows "shutdown_rank (worker_at n k (g\<lparr>go_jobs := js\<rparr>)) < shutdown_rank g"
  using assms rank_update [of n "go_workers g" k] by (simp add: shutdown_rank_def worker_at_def)

lemma work_step_rank:
  assumes "work_step E wk g g'"
  shows "shutdown_rank g' < shutdown_rank g"
  using assms
proof cases
  case (receives n j js)
  then show ?thesis using rank_moves [of n g "WkTaken j" js]
    by (simp add: shutdown_rank_def worker_at_def worker_rank_def)
next
  case (measures n j)
  then show ?thesis using rank_moves [of n g "WkBusy j" "go_jobs g"]
    by (simp add: shutdown_rank_def worker_at_def worker_rank_def phase_rank_def split: phase.splits)
next
  case (turns n j r w')
  then show ?thesis using rank_moves [of n g "after_turn r" "go_jobs g"] turn_rank [OF turns(4)]
    by (simp add: shutdown_rank_def worker_at_def)
next
  case (acks n j)
  then show ?thesis using rank_moves [of n g WkIdle "go_jobs g"]
    by (simp add: shutdown_rank_def worker_at_def worker_rank_def phase_rank_def)
next
  case (ack_fails n j)
  then show ?thesis using rank_moves [of n g WkIdle "go_jobs g"]
    by (simp add: shutdown_rank_def worker_at_def worker_rank_def phase_rank_def)
next
  case (recovers n j)
  then show ?thesis using rank_moves [of n g WkIdle "go_jobs g"]
    by (simp add: shutdown_rank_def worker_at_def worker_rank_def phase_rank_def split: phase.split)
next
  case (ends n)
  then show ?thesis using rank_moves [of n g WkDone "go_jobs g"]
    by (simp add: shutdown_rank_def worker_at_def worker_rank_def)
qed

lemma loops_ended_quiet:
  assumes "loops_ended g"
  shows "\<not> read_step conf g g'" "\<not> wait_step g g'" "\<not> claim_step g g'" "\<not> send_step L conf c g g'"
proof -
  have l: "go_loop g sd = LoopEnded" for sd using assms by (cases sd) (simp_all add: loops_ended_def)
  show "\<not> read_step conf g g'" "\<not> wait_step g g'" "\<not> claim_step g g'" "\<not> send_step L conf c g g'"
    by (auto elim!: read_step.cases wait_step.cases claim_step.cases send_step.cases simp: l)
qed

text \<open>
  Once the loops have returned, every step of the consumer brings it closer to its end, whatever the
  others make of the shared state between its steps.
\<close>

lemma work_step_loops: "work_step E wk g g' \<Longrightarrow> loops_ended g' = loops_ended g"
  by (induction rule: work_step.induct) (simp_all add: loops_ended_def worker_at_def)

lemma shutdown_step:
  assumes "own_step E L wk conf c g g'" and "loops_ended g"
  shows "loops_ended g' \<and> shutdown_rank g' < shutdown_rank g"
  using assms(1)
proof cases
  case work
  then show ?thesis using work_step_rank work_step_loops assms(2) by blast
next
  case closes
  then show ?thesis by (simp add: loops_ended_def shutdown_rank_def)
qed (simp_all add: loops_ended_quiet [OF assms(2)])

definition consumer_round :: "env \<Rightarrow> golib \<Rightarrow> workers \<Rightarrow> worker_setup \<Rightarrow> string \<Rightarrow> pool \<Rightarrow> pool \<Rightarrow> bool" where
  "consumer_round E L wk conf c g g' \<longleftrightarrow> (\<exists>g1 sh. own_step E L wk conf c g g1 \<and> g' = g1\<lparr>go_shared := sh\<rparr>)"

lemma shutdown_bounded:
  assumes "(consumer_round E L wk conf c ^^ n) g g'" and "loops_ended g"
  shows "loops_ended g' \<and> n + shutdown_rank g' \<le> shutdown_rank g"
  using assms(1)
proof (induction n arbitrary: g')
  case 0
  then show ?case using assms(2) by simp
next
  case (Suc n)
  then obtain g1 g2 sh where "(consumer_round E L wk conf c ^^ n) g g1" "own_step E L wk conf c g1 g2"
    "g' = g2\<lparr>go_shared := sh\<rparr>" unfolding consumer_round_def by auto
  then show ?case
    using Suc.IH [of g1] shutdown_step [of E L wk conf c g1 g2] by (fastforce simp: loops_ended_def shutdown_rank_def)
qed

text \<open>A job in \<open>Process\<close> always has a step before it, so a consumer that has not returned is not stuck.\<close>

lemma process_turn_total:
  assumes "job_phase j \<noteq> Settled"
  shows "\<exists>r w'. process_turn E wk j w r w'"
proof (cases "job_phase j")
  case Received
  obtain r w' where "process_look E (Msg_ExecutionID (job_message j)) w = (r, w')" by (metis surj_pair)
  then show ?thesis using Received process_turn.look [of j E _ _ w'] process_turn.look_fails [of j E w] by (cases r) blast+
next
  case (Looked work)
  obtain r w' where "process_take E (wk_idle wk) (Msg_ExecutionID (job_message j)) (job_consumer j) w = (r, w')"
    by (metis surj_pair)
  then show ?thesis using Looked process_turn.take [of j work E wk w w'] process_turn.take_fails [of j work E wk w]
    by (cases r) auto
next
  case (Holding work started)
  show ?thesis
  proof (cases "probe_of (wk_probes wk) (Exec_ProbeType (Work_Execution work))")
    case None
    then show ?thesis using Holding process_turn.unsupported by blast
  next
    case (Some implementation)
    obtain result attempts w' where "process_probe implementation (wk_wait wk) work w = (Inr (result, attempts), w')"
      using process_probe_total by blast
    then show ?thesis using Holding Some process_turn.probe by blast
  qed
next
  case (Probed result attempts started)
  obtain r w' where "process_settle E (Msg_ExecutionID (job_message j)) (job_consumer j) started result attempts w = (r, w')"
    by (metis surj_pair)
  then show ?thesis
    using Probed process_turn.settle [of j result attempts started E w w' wk]
      process_turn.settle_fails [of j result attempts started E w] by (cases r) auto
qed (use assms in simp)

lemma shutdown_progress:
  assumes "loops_ended g" and "\<not> run_returned g"
  shows "\<exists>g'. own_step E L wk conf c g g'"
proof (cases "go_closed g")
  case False
  then show ?thesis using own_step.closes [OF assms(1)] by blast
next
  case True
  then obtain n where n: "n < length (go_workers g)" "go_workers g ! n \<noteq> WkDone"
    using assms(2) by (auto simp: run_returned_def in_set_conv_nth)
  have "\<exists>g'. work_step E wk g g'"
  proof (cases "go_workers g ! n")
    case WkIdle
    then show ?thesis
      using n True work_step.ends [of n g E wk] work_step.receives [of n g _ _ E wk]
      by (cases "go_jobs g") blast+
  next
    case (WkBusy j)
    then show ?thesis
      using n work_step.acks [of n g j E wk] work_step.turns [of n g j E wk] process_turn_total [of j E wk]
      by (cases "job_phase j = Settled") blast+
  qed (use n work_step.measures in blast)+
  then show ?thesis using own_step.work by blast
qed

text \<open>When the context has ended, each loop can return, whatever the other goroutines do.\<close>

lemma sending_can_end:
  assumes "go_cancelled g" and "go_loop g sd = Sending ms"
  shows "\<exists>l. (own_step E L wk conf c)\<^sup>*\<^sup>* g (at sd l g) \<and> l \<in> {AtTop, LoopEnded}"
  using assms
proof (induction ms arbitrary: g)
  case Nil
  then show ?case using own_step.send [OF send_step.finishes [of g sd L conf c]] by blast
next
  case (Cons e ms)
  obtain i v where e: "e = (i, v)" by (cases e)
  show ?case
  proof (cases "decode L v")
    case (Inl err)
    have step: "own_step E L wk conf c g (at sd (Sending ms) g)"
      using Cons.prems(2) Inl by (intro own_step.send send_step.skips) (simp_all add: e)
    have twice: "at sd l (at sd (Sending ms) g) = at sd l g" for l by (simp add: at_def)
    obtain l where "(own_step E L wk conf c)\<^sup>*\<^sup>* (at sd (Sending ms) g) (at sd l g)" "l \<in> {AtTop, LoopEnded}"
      using Cons.IH [of "at sd (Sending ms) g"] Cons.prems(1) twice by (auto simp: at_def)
    then show ?thesis using step by (meson converse_rtranclp_into_rtranclp)
  next
    case (Inr m)
    have "own_step E L wk conf c g (at sd LoopEnded g)"
      using Cons.prems Inr by (intro own_step.send send_step.stops) (simp_all add: e)
    then show ?thesis by (intro exI [of _ LoopEnded]) (simp add: r_into_rtranclp)
  qed
qed

lemma top_can_end:
  assumes "go_cancelled g" and "go_loop g sd \<in> {AtTop, LoopEnded}"
  shows "(own_step E L wk conf c)\<^sup>*\<^sup>* g (at sd LoopEnded g)"
proof (cases "go_loop g sd = LoopEnded")
  case True
  then have "(go_loop g)(sd := LoopEnded) = go_loop g" by auto
  then have "at sd LoopEnded g = g" by (simp add: at_def)
  then show ?thesis by simp
next
  case False
  then have top: "go_loop g sd = AtTop" using assms(2) by simp
  have "own_step E L wk conf c g (at sd LoopEnded g)"
    using top assms(1) by (cases sd) (auto intro: own_step.read own_step.claim read_step.ends claim_step.ends)
  then show ?thesis by (rule r_into_rtranclp)
qed

lemma at_twice [simp]: "at sd l (at sd l' g) = at sd l g" "go_loop (at sd l g) sd = l" "go_cancelled (at sd l g) = go_cancelled g"
  by (simp_all add: at_def)

lemma loop_can_end:
  assumes "go_cancelled g" and "go_loop g sd = Sleeping \<longrightarrow> sd = Reader"
  shows "\<exists>g'. (own_step E L wk conf c)\<^sup>*\<^sup>* g g' \<and> go_loop g' = (go_loop g)(sd := LoopEnded) \<and> go_cancelled g'"
proof -
  let ?r = "own_step E L wk conf c"
  have "\<exists>g1. ?r\<^sup>*\<^sup>* g g1 \<and> go_loop g1 = (go_loop g)(sd := go_loop g1 sd) \<and>
      go_cancelled g1 \<and> go_loop g1 sd \<in> {AtTop, LoopEnded}"
  proof (cases "go_loop g sd")
    case Calling
    have "?r g (at sd AtTop g)"
      using Calling by (cases sd) (auto intro: own_step.read own_step.claim read_step.empty claim_step.fails)
    then show ?thesis using assms(1) by (intro exI [of _ "at sd AtTop g"]) (simp add: r_into_rtranclp at_def)
  next
    case Sleeping
    then have "?r g (at sd LoopEnded g)"
      using assms by (auto intro: own_step.wait wait_step.gives_up)
    then show ?thesis using assms(1) by (intro exI [of _ "at sd LoopEnded g"]) (simp add: r_into_rtranclp at_def)
  next
    case (Sending ms)
    then show ?thesis
      using sending_can_end [OF assms(1) Sending, of E L wk conf c] assms(1)
      by (elim exE conjE) (rule exI, auto simp: at_def)
  next
    case (Measuring ms)
    let ?g = "at sd (Sending ms) (g\<lparr>go_gauge := int (length (go_jobs g))\<rparr>)"
    have "?r g ?g" using Measuring by (intro own_step.send send_step.measures)
    moreover obtain l where "?r\<^sup>*\<^sup>* ?g (at sd l ?g)" "l \<in> {AtTop, LoopEnded}"
      using sending_can_end [of ?g sd ms E L wk conf c] assms(1) by auto
    ultimately have "?r\<^sup>*\<^sup>* g (at sd l ?g)" by (simp add: converse_rtranclp_into_rtranclp)
    then show ?thesis using \<open>l \<in> _\<close> assms(1) by (intro exI [of _ "at sd l ?g"]) (simp add: at_def)
  qed (use assms(1) in \<open>auto intro!: exI [of _ g]\<close>)
  then obtain g1 where g1: "?r\<^sup>*\<^sup>* g g1" "go_loop g1 = (go_loop g)(sd := go_loop g1 sd)" "go_cancelled g1"
    "go_loop g1 sd \<in> {AtTop, LoopEnded}" by blast
  have "?r\<^sup>*\<^sup>* g (at sd LoopEnded g1)" using g1(1) top_can_end [OF g1(3,4)] by (rule rtranclp_trans)
  moreover have "go_loop (at sd LoopEnded g1) = (go_loop g)(sd := LoopEnded)"
    by (subst at_def) (simp, subst g1(2), simp)
  ultimately show ?thesis using g1(3) by (intro exI [of _ "at sd LoopEnded g1"]) simp
qed

lemma loops_can_end:
  assumes "channel_ok conf g" and "go_cancelled g"
  shows "\<exists>g'. (own_step E L wk conf c)\<^sup>*\<^sup>* g g' \<and> loops_ended g'"
proof -
  obtain g1 where g1: "(own_step E L wk conf c)\<^sup>*\<^sup>* g g1" "go_loop g1 = (go_loop g)(Reader := LoopEnded)" "go_cancelled g1"
    using loop_can_end [OF assms(2), of Reader] by blast
  obtain g2 where g2: "(own_step E L wk conf c)\<^sup>*\<^sup>* g1 g2" "go_loop g2 = (go_loop g1)(Claimer := LoopEnded)"
    using loop_can_end [OF g1(3), of Claimer E L wk conf c] g1(2) channel_okD(10) [OF assms(1)] by auto
  show ?thesis using g1 g2 by (intro exI [of _ g2]) (auto simp: loops_ended_def intro: rtranclp_trans)
qed

lemma ended_returns:
  assumes "loops_ended g"
  shows "\<exists>g'. (own_step E L wk conf c)\<^sup>*\<^sup>* g g' \<and> run_returned g'"
  using assms
proof (induction "shutdown_rank g" arbitrary: g rule: less_induct)
  case less
  show ?case
  proof (cases "run_returned g")
    case False
    obtain g1 where g1: "own_step E L wk conf c g g1" using shutdown_progress [OF less.prems False] by blast
    then obtain g' where "(own_step E L wk conf c)\<^sup>*\<^sup>* g1 g'" "run_returned g'"
      using less.hyps [of g1] shutdown_step [OF g1 less.prems] by blast
    then show ?thesis using g1 by (meson converse_rtranclp_into_rtranclp)
  qed blast
qed

lemma cancelled_can_return:
  assumes "channel_ok conf g" and "go_cancelled g"
  shows "\<exists>g'. (own_step E L wk conf c)\<^sup>*\<^sup>* g g' \<and> run_returned g'"
  using loops_can_end [OF assms] ended_returns by (meson rtranclp_trans)

end
