(* ===== verification/IncidentSpec.thy ===== *)
theory IncidentSpec
  imports IncidentService
begin

text \<open>
  The abstract specification of the incident tracker: a map from event keys to a status and a
  number of occurrences, on which an alert fires or resolves. The webhook refines it, up to a
  prefix of its alerts; the three user actions are characterised on every branch.
\<close>

section \<open>The abstract tracker\<close>

type_synonym tracker = "string \<Rightarrow> (string \<times> nat) option"

definition incident_abs :: "env \<Rightarrow> db \<Rightarrow> tracker" where
  "incident_abs E d = (\<lambda>k. map_option (\<lambda>x. (Inc_Status x, Inc_OccurrenceCount x))
     (find (\<lambda>x. incident_uk (env_coll E) x = k) (T_incidents d)))"

definition spec_fire :: "string \<Rightarrow> tracker \<Rightarrow> tracker" where
  "spec_fire k m = m(k \<mapsto> (case m k of None \<Rightarrow> (IncFiring, 1) | Some (s, n) \<Rightarrow> (s, n + 1)))"

definition spec_resolve :: "string \<Rightarrow> tracker \<Rightarrow> tracker" where
  "spec_resolve k m = m(k \<mapsto> (case m k of None \<Rightarrow> (IncResolved, 1)
     | Some (s, n) \<Rightarrow> (if s = IncClosed then s else IncResolved, n)))"

text \<open>The key of an alert that normalises does not depend on the time at which it arrives.\<close>

definition alert_key :: "env \<Rightarrow> golib \<Rightarrow> Alert \<Rightarrow> string" where
  "alert_key E L a = (case normalize L a 0 of Inl e \<Rightarrow> [] | Inr v \<Rightarrow> incident_uk (env_coll E) v)"

text \<open>An alert with any other status than firing and resolved is an error and has no effect.\<close>

definition spec_alert :: "env \<Rightarrow> golib \<Rightarrow> string \<Rightarrow> Alert \<Rightarrow> tracker \<Rightarrow> tracker" where
  "spec_alert E L st a m =
     (if map_index (Alert_Labels a) ''cloudsentinel_incident'' \<noteq> ''true'' then m
      else if (if Alert_Status a = [] then st else Alert_Status a) = IncFiring
      then spec_fire (alert_key E L a) m
      else if (if Alert_Status a = [] then st else Alert_Status a) = IncResolved
      then spec_resolve (alert_key E L a) m
      else m)"

lemma spec_resolve_idem: "spec_resolve k (spec_resolve k m) = spec_resolve k m"
  by (auto simp: spec_resolve_def split: option.splits)

lemma normalize_key_time:
  assumes "normalize L a t = Inr v"
  shows "incident_uk (env_coll E) v = alert_key E L a"
  using assms by (auto simp: normalize_def alert_key_def incident_uk_def Let_def split: option.splits if_splits)

section \<open>Abstraction of the two statements\<close>

lemma incident_abs_map:
  assumes "T_incidents d' = map (\<lambda>x. if incident_uk (env_coll E) x = k then f x else x) (T_incidents d)"
    and "\<And>x. incident_uk (env_coll E) (f x) = incident_uk (env_coll E) x"
  shows "incident_abs E d' = (incident_abs E d)(k := map_option (\<lambda>x. (Inc_Status (f x), Inc_OccurrenceCount (f x)))
     (find (\<lambda>x. incident_uk (env_coll E) x = k) (T_incidents d)))"
proof (rule ext)
  fix j
  let ?g = "\<lambda>x. if incident_uk (env_coll E) x = k then f x else x"
  have "find (\<lambda>x. incident_uk (env_coll E) x = j) (map ?g (T_incidents d)) =
      map_option ?g (find (\<lambda>x. incident_uk (env_coll E) x = j) (T_incidents d))"
    by (rule find_map_same) (simp add: assms(2))
  moreover have "incident_uk (env_coll E) x = j"
    if "find (\<lambda>x. incident_uk (env_coll E) x = j) (T_incidents d) = Some x" for x
    using find_Some_mem [OF that] by simp
  ultimately show "incident_abs E d' j = ((incident_abs E d)(k := map_option (\<lambda>x. (Inc_Status (f x), Inc_OccurrenceCount (f x)))
     (find (\<lambda>x. incident_uk (env_coll E) x = k) (T_incidents d)))) j"
    by (cases "find (\<lambda>x. incident_uk (env_coll E) x = j) (T_incidents d)")
       (auto simp: incident_abs_def assms(1))
qed

lemma incident_abs_append:
  assumes "T_incidents d' = T_incidents d @ [x]" and "\<forall>y\<in>set (T_incidents d). incident_uk (env_coll E) y \<noteq> incident_uk (env_coll E) x"
  shows "incident_abs E d' = (incident_abs E d)(incident_uk (env_coll E) x \<mapsto> (Inc_Status x, Inc_OccurrenceCount x))"
proof -
  have "find (\<lambda>y. incident_uk (env_coll E) y = incident_uk (env_coll E) x) (T_incidents d) = None"
    using assms(2) by (simp add: find_None_eq)
  then show ?thesis
    using assms(1) by (auto simp: incident_abs_def find_append fun_eq_iff split: option.splits)
qed

lemma incident_abs_None:
  "incident_abs E d k = None \<longleftrightarrow> (\<forall>x\<in>set (T_incidents d). incident_uk (env_coll E) x \<noteq> k)"
  by (auto simp: incident_abs_def find_None_eq)

lemma same_event_uk: "same_event E v x \<longleftrightarrow> incident_uk (env_coll E) x = incident_uk (env_coll E) v"
  by (simp add: same_event_def incident_uk_def)

lemma upsert_firing_abs:
  assumes "upsert_firing E v t d = Inr (u, d')"
  shows "incident_abs E d' = spec_fire (incident_uk (env_coll E) v) (incident_abs E d)"
proof (cases "list_ex (same_event E v) (T_incidents d)")
  case True
  let ?f = "fired_again E v (env_col3 E (env_clock E t))"
  have "T_incidents d' = map (\<lambda>x. if incident_uk (env_coll E) x = incident_uk (env_coll E) v then ?f x else x) (T_incidents d)"
    using assms True by (auto simp: upsert_firing_def same_event_uk)
  moreover have "incident_uk (env_coll E) (?f x) = incident_uk (env_coll E) x" for x
    by (simp add: fired_again_def incident_uk_def)
  ultimately show ?thesis
    using incident_abs_map [of d' E "incident_uk (env_coll E) v" ?f d] True
    by (auto simp: spec_fire_def incident_abs_def fired_again_def find_None_eq same_event_uk list_ex_iff
        split: option.splits)
next
  case False
  then obtain r where ins: "insert_row E (incidents_table E) (firing_row v) t d = Inr (r, d')"
    using assms by (auto simp: upsert_firing_def split: sum.splits)
  have r: "incident_uk (env_coll E) (tb_store (incidents_table E) r) = incident_uk (env_coll E) v"
    "Inc_Status (tb_store (incidents_table E) r) = IncFiring" "Inc_OccurrenceCount (tb_store (incidents_table E) r) = 1"
    using incidents.insert_row_Inr(4) [OF ins] by (simp_all add: firing_row_def incident_uk_def incidents_table_def)
  have none: "\<forall>x\<in>set (T_incidents d). incident_uk (env_coll E) x \<noteq> incident_uk (env_coll E) v"
    using False by (simp add: list_ex_iff same_event_uk)
  show ?thesis
    using incident_abs_append [of d' d "tb_store (incidents_table E) r" E] incidents.insert_row_Inr(1) [OF ins] r none
      incident_abs_None [of E d "incident_uk (env_coll E) v"]
    by (simp add: spec_fire_def)
qed

lemma UpsertFiring_abs:
  "case IncidentRepo_UpsertFiring E v w of
     (Inr _, w') \<Rightarrow> incident_abs E (w_db w') = spec_fire (incident_uk (env_coll E) v) (incident_abs E (w_db w))
   | (Inl _, w') \<Rightarrow> w_db w' = w_db w"
  using upsert_firing_abs [of E v "w_tick w" "w_db w"]
  by (auto simp: IncidentRepo_UpsertFiring_def db_stmt_def split: option.splits sum.splits prod.splits)

lemma resolve_body_abs:
  assumes up: "update_rows E (incidents_table E) (same_event E v) (resolved_row E v) t d = Inr (n, d1)"
    and rest: "(n > 0 \<and> d' = d1) \<or> (n = 0 \<and> (\<exists>t r. insert_row E (incidents_table E)
        (\<lambda>i now. v\<lparr>Inc_ID := i, Inc_CreatedAt := now, Inc_UpdatedAt := now\<rparr>) t d1 = Inr (r, d')))"
    and v: "Inc_Status v = IncResolved" "Inc_OccurrenceCount v = 1"
  shows "incident_abs E d' = spec_resolve (incident_uk (env_coll E) v) (incident_abs E d)"
  using rest
proof
  let ?f = "resolved_row E v (env_col3 E (env_clock E t))"
  assume n: "n > 0 \<and> d' = d1"
  then have "T_incidents d' = map (\<lambda>x. if incident_uk (env_coll E) x = incident_uk (env_coll E) v then ?f x else x) (T_incidents d)"
    using incidents.update_rows_Inr(2) [OF up] by (simp add: same_event_uk)
  moreover have "incident_uk (env_coll E) (?f x) = incident_uk (env_coll E) x" for x
    by (simp add: resolved_row_def incident_uk_def)
  moreover have "\<exists>x\<in>set (T_incidents d). incident_uk (env_coll E) x = incident_uk (env_coll E) v"
    using incidents.update_rows_some_row [OF up] n by (simp add: same_event_uk)
  ultimately show ?thesis
    using incident_abs_map [of d' E "incident_uk (env_coll E) v" ?f d]
    by (auto simp: spec_resolve_def incident_abs_def resolved_row_def find_None_eq split: option.splits)
next
  assume "n = 0 \<and> (\<exists>t r. insert_row E (incidents_table E)
        (\<lambda>i now. v\<lparr>Inc_ID := i, Inc_CreatedAt := now, Inc_UpdatedAt := now\<rparr>) t d1 = Inr (r, d'))"
  then obtain t' r where n: "n = 0" and ins: "insert_row E (incidents_table E)
        (\<lambda>i now. v\<lparr>Inc_ID := i, Inc_CreatedAt := now, Inc_UpdatedAt := now\<rparr>) t' d1 = Inr (r, d')" by blast
  have "map (\<lambda>x. if same_event E v x then resolved_row E v (env_col3 E (env_clock E t)) x else x) (T_incidents d) = T_incidents d"
    using incidents.update_rows_Inr(3) [OF up] n
    by (intro map_idI) (auto simp: filter_empty_conv)
  then have d1: "d1 = d" using incidents.update_rows_Inr(1) [OF up] by simp
  note row = incidents.insert_row_Inr [OF ins]
  have r: "incident_uk (env_coll E) (tb_store (incidents_table E) r) = incident_uk (env_coll E) v"
    "Inc_Status (tb_store (incidents_table E) r) = IncResolved" "Inc_OccurrenceCount (tb_store (incidents_table E) r) = 1"
    using row(4) v by (simp_all add: incident_uk_def incidents_table_def)
  have none: "\<forall>x\<in>set (T_incidents d). incident_uk (env_coll E) x \<noteq> incident_uk (env_coll E) v"
    using row(3) row(4) d1 by (auto simp: incidents.clash_uk incident_uk_def)
  show ?thesis
    using incident_abs_append [of d' d "tb_store (incidents_table E) r" E] row(1) r none d1
      incident_abs_None [of E d "incident_uk (env_coll E) v"]
    by (simp add: spec_resolve_def)
qed

lemma Resolve_abs:
  assumes "Inc_Status v = IncResolved" and "Inc_OccurrenceCount v = 1"
  shows "all_or_nothing w_db (IncidentRepo_Resolve E v) w
    (\<lambda>_ d. incident_abs E d = spec_resolve (incident_uk (env_coll E) v) (incident_abs E (w_db w)))"
  unfolding IncidentRepo_Resolve_def
proof (rule transaction_all_or_nothing)
  fix u w1
  assume "op_bind (tb_update_where E (incidents_table E) (same_event E v) (resolved_row E v)) (\<lambda>affected.
       if affected > 0 then op_return ()
       else op_bind (tb_create E (incidents_table E)
              (\<lambda>i now. v\<lparr>Inc_ID := i, Inc_CreatedAt := now, Inc_UpdatedAt := now\<rparr>)) (\<lambda>_. op_return ()))
       (tick w) = (Inr u, w1)"
  then obtain n d r where up: "update_rows E (incidents_table E) (same_event E v) (resolved_row E v)
        (Suc (w_tick w)) (w_db w) = Inr (n, d)"
    and rest: "(n > 0 \<and> w_db w1 = d) \<or> (n = 0 \<and> (\<exists>t r. insert_row E (incidents_table E)
        (\<lambda>i now. v\<lparr>Inc_ID := i, Inc_CreatedAt := now, Inc_UpdatedAt := now\<rparr>) t d = Inr (r, w_db w1)))"
    by (auto simp: tb_Inr elim!: op_bind_Inr split: if_splits) blast
  show "incident_abs E (w_db w1) = spec_resolve (incident_uk (env_coll E) v) (incident_abs E (w_db w))"
    by (rule resolve_body_abs [OF up rest assms])
qed

section \<open>The webhook refines the specification\<close>

text \<open>
  An alert that succeeds has its effect on the tracker; one that fails has none, or all of it
  when only the reply of the commit was lost.
\<close>

lemma ingest_alert_abs:
  "all_or_nothing (\<lambda>w. w_db w) (IncidentService_ingest_alert E L st a) w
     (\<lambda>_ d. incident_abs E d = spec_alert E L st a (incident_abs E (w_db w)))"
proof (cases "map_index (Alert_Labels a) ''cloudsentinel_incident'' = ''true''")
  case False
  then show ?thesis by (simp add: IncidentService_ingest_alert_def all_or_nothing_def spec_alert_def)
next
  case True
  let ?w = "tick w"
  let ?st = "if Alert_Status a = [] then st else Alert_Status a"
  show ?thesis
  proof (cases "normalize L a (env_clock E (w_tick w))")
    case (Inl e)
    then show ?thesis
      using True by (simp add: IncidentService_ingest_alert_def op_bind_def all_or_nothing_def Let_def)
  next
    case (Inr v)
    let ?r = "v\<lparr>Inc_Status := IncResolved, Inc_ResolvedAt := Some (Inc_LastSeenAt v)\<rparr>"
    have k: "incident_uk (env_coll E) v = alert_key E L a" "incident_uk (env_coll E) ?r = alert_key E L a"
      using normalize_key_time [OF Inr, of E] by (simp_all add: incident_uk_def)
    consider "?st = IncFiring" | "?st = IncResolved" | "?st \<noteq> IncFiring" "?st \<noteq> IncResolved" by blast
    then show ?thesis
    proof cases
      case 1
      then show ?thesis
        using UpsertFiring_abs [where E = E and v = v and w = ?w] True Inr k
        by (auto simp: IncidentService_ingest_alert_def op_bind_def all_or_nothing_def spec_alert_def Let_def
            split: prod.splits sum.splits)
    next
      case 2
      have "all_or_nothing w_db (IncidentRepo_Resolve E ?r) ?w
          (\<lambda>_ d. incident_abs E d = spec_resolve (incident_uk (env_coll E) ?r) (incident_abs E (w_db ?w)))"
        by (rule Resolve_abs) (simp_all add: normalize_Inr [OF Inr])
      then show ?thesis
        using 2 True Inr k
        by (auto simp: IncidentService_ingest_alert_def op_bind_def all_or_nothing_def spec_alert_def Let_def
            split: prod.splits sum.splits)
    next
      case 3
      then show ?thesis
        using True Inr by (simp add: IncidentService_ingest_alert_def op_bind_def all_or_nothing_def Let_def)
    qed
  qed
qed

lemma ingest_alerts_abs:
  "\<exists>k\<le>length as. incident_abs E (w_db (snd (ingest_alerts E L st as w))) =
       fold (spec_alert E L st) (take k as) (incident_abs E (w_db w)) \<and>
     (k = length as \<or> (\<exists>e. fst (ingest_alerts E L st as w) = Inl e))"
proof (induction as arbitrary: w)
  case Nil
  show ?case by simp
next
  case (Cons a as)
  obtain r w1 where one: "IncidentService_ingest_alert E L st a w = (r, w1)" by (metis surj_pair)
  show ?case
  proof (cases r)
    case (Inl e)
    have "w_db w1 = w_db w \<or> incident_abs E (w_db w1) = spec_alert E L st a (incident_abs E (w_db w))"
      using ingest_alert_abs [where E = E and L = L and st = st and a = a and w = w] one Inl by (simp add: all_or_nothing_def)
    then show ?thesis
    proof
      assume "w_db w1 = w_db w"
      then show ?thesis using one Inl by (intro exI [of _ 0]) (simp add: op_bind_def)
    next
      assume "incident_abs E (w_db w1) = spec_alert E L st a (incident_abs E (w_db w))"
      then show ?thesis using one Inl by (intro exI [of _ 1]) (simp add: op_bind_def)
    qed
  next
    case (Inr u)
    have a1: "incident_abs E (w_db w1) = spec_alert E L st a (incident_abs E (w_db w))"
      using ingest_alert_abs [where E = E and L = L and st = st and a = a and w = w] one Inr by (simp add: all_or_nothing_def)
    obtain k where k: "k \<le> length as" "incident_abs E (w_db (snd (ingest_alerts E L st as w1))) =
         fold (spec_alert E L st) (take k as) (incident_abs E (w_db w1))"
       "k = length as \<or> (\<exists>e. fst (ingest_alerts E L st as w1) = Inl e)" using Cons.IH [of w1] by blast
    then show ?thesis using one Inr a1 by (intro exI [of _ "Suc k"]) (simp add: op_bind_def)
  qed
qed

section \<open>User actions on every branch\<close>

text \<open>
  Without faults a user action succeeds exactly when the incident exists and has one of the
  source statuses; it then moves the incident and writes one audit entry, and otherwise it
  changes nothing and says which of the two was missing.
\<close>

definition transition_outcome ::
  "env \<Rightarrow> u64 \<Rightarrow> string \<Rightarrow> string list \<Rightarrow> Log \<Rightarrow> db \<Rightarrow> (go_error + Incident) \<Rightarrow> db \<Rightarrow> bool" where
  "transition_outcome E i to sources entry d r d' \<longleftrightarrow>
     (case find (\<lambda>x. Inc_ID x = i) (T_incidents d) of
        None \<Rightarrow> r = Inl (Sentinel IncidentErrNotFound) \<and> d' = d
      | Some x \<Rightarrow>
          if Inc_Status x \<notin> set sources then r = Inl (Sentinel IncidentErrConflict) \<and> d' = d
          else \<exists>y a. r = Inr y \<and> Inc_Status y = to \<and> incident_identity y = incident_identity x \<and>
                 same_entry a entry \<and>
                 d' = d\<lparr>T_incidents := map (\<lambda>z. if Inc_ID z = i then y else z) (T_incidents d),
                        T_audit_logs := T_audit_logs d @ [a]\<rparr>)"

lemma first_incident:
  assumes "distinct (map Inc_ID (T_incidents d))"
  shows "first_row (incidents_table E) (\<lambda>x. Inc_ID x = i) d =
    (case find (\<lambda>x. Inc_ID x = i) (T_incidents d) of None \<Rightarrow> Inl gorm_ErrRecordNotFound | Some x \<Rightarrow> Inr x)"
proof (cases "find (\<lambda>x. Inc_ID x = i) (T_incidents d)")
  case None
  then have "\<forall>x\<in>set (T_incidents d). Inc_ID x \<noteq> i" by (simp add: find_None_eq)
  then have "first_row (incidents_table E) (\<lambda>x. Inc_ID x = i) d = Inl gorm_ErrRecordNotFound"
    by (subst incidents.first_row_Inl) simp
  then show ?thesis using None by simp
next
  case (Some x)
  then show ?thesis
    using incidents.first_row_key [of E d x] assms find_Some_mem [OF Some] by auto
qed

lemma IncidentRepo_Get_run:
  assumes "\<And>t. env_fault E t = None" and "distinct (map Inc_ID (T_incidents (w_db w)))"
  shows "IncidentRepo_Get E i w =
    (case find (\<lambda>x. Inc_ID x = i) (T_incidents (w_db w)) of
       None \<Rightarrow> Inl (Sentinel IncidentErrNotFound) | Some x \<Rightarrow> Inr x, tick w)"
  using assms by (cases w) (auto simp: IncidentRepo_Get_def op_map_error_def tb_first_def db_query_def db_stmt_def
      first_incident gorm_ErrRecordNotFound_def tick_def split: option.splits)

text \<open>The statement of a transition that selects one row, and one that selects none.\<close>

lemma transition_update_one:
  assumes inv: "incidents_inv E d" and x: "x \<in> set (T_incidents d)" "Inc_Status x \<in> set sources"
    and to: "to \<notin> set sources"
  shows "update_rows E (incidents_table E) (\<lambda>z. Inc_ID z = Inc_ID x \<and> Inc_Status z \<in> set sources)
      (transition_row E to actor now) t d =
    Inr (1, d\<lparr>T_incidents := map (\<lambda>z. if Inc_ID z = Inc_ID x
      then transition_row E to actor now (env_col3 E (env_clock E t)) x else z) (T_incidents d)\<rparr>)"
proof -
  let ?p = "\<lambda>z. Inc_ID z = Inc_ID x \<and> Inc_Status z \<in> set sources"
  have one: "z = x" if "z \<in> set (T_incidents d)" "Inc_ID z = Inc_ID x" for z
    using inv distinct_map_unique [of Inc_ID "T_incidents d" z x] that x by (simp add: incidents_inv_def)
  have fld: "Inc_Status (transition_row E to actor now u z) = to" "Inc_ID (transition_row E to actor now u z) = Inc_ID z"
    "incident_uk (env_coll E) (transition_row E to actor now u z) = incident_uk (env_coll E) z" for u z
    by (simp_all add: transition_row_def Let_def incident_uk_def)
  have "transition_row E to actor now u x \<noteq> x" for u using fld(1) [of u x] x(2) to by metis
  then have "update_rows E (incidents_table E) ?p (transition_row E to actor now) t d =
    Inr (1, tb_update (incidents_table E) (map (\<lambda>r. if ?p r then transition_row E to actor now (env_col3 E (env_clock E t)) r else r)) d)"
    by (intro incidents.update_rows_one [where x = x]) (use inv x one fld in \<open>auto simp: incidents_inv_def\<close>)
  moreover have "map (\<lambda>r. if ?p r then transition_row E to actor now u r else r) (T_incidents d) =
      map (\<lambda>z. if Inc_ID z = Inc_ID x then transition_row E to actor now u x else z) (T_incidents d)" for u
    by (rule map_cong [OF refl]) (use one x in auto)
  ultimately show ?thesis by simp
qed

lemma transition_update_none:
  assumes "\<forall>z\<in>set (T_incidents d). Inc_ID z = i \<longrightarrow> Inc_Status z \<notin> set sources"
  shows "update_rows E (incidents_table E) (\<lambda>z. Inc_ID z = i \<and> Inc_Status z \<in> set sources) f t d = Inr (0, d)"
proof -
  have "map (\<lambda>r. if Inc_ID r = i \<and> Inc_Status r \<in> set sources then f u r else r) (T_incidents d) = T_incidents d" for u
    by (rule map_idI) (use assms in auto)
  moreover have "filter (\<lambda>r. (if Inc_ID r = i \<and> Inc_Status r \<in> set sources then f u r else r) \<noteq> r) (T_incidents d) = []" for u
    using assms by (auto simp: filter_empty_conv)
  ultimately show ?thesis using assms by (auto simp: update_rows_def Let_def list_ex_iff)
qed

lemma logs_clash: "\<not> tb_clash (logs_table E) x r"
  by (simp add: logs_table_def)

lemma create_log_run:
  assumes "env_fault E (w_tick w) = None"
    and "env_new_id E (w_tick w) (map Log_ID (T_audit_logs (w_db w))) \<notin> insert 0 (Log_ID ` set (T_audit_logs (w_db w)))"
  shows "\<exists>r a. same_entry a entry \<and>
    create_log E entry w = (Inr r, (tick w)\<lparr>w_db := (w_db w)\<lparr>T_audit_logs := T_audit_logs (w_db w) @ [a]\<rparr>\<rparr>)"
proof -
  let ?i = "env_new_id E (w_tick w) (map Log_ID (T_audit_logs (w_db w)))"
  let ?r = "entry\<lparr>Log_ID := ?i, Log_CreatedAt := env_clock E (w_tick w)\<rparr>"
  have "create_log E entry w = (Inr ?r, (tick w)\<lparr>w_db := (w_db w)\<lparr>T_audit_logs := T_audit_logs (w_db w) @ [tb_store (logs_table E) ?r]\<rparr>\<rparr>)"
    using assms by (simp add: create_log_def tb_create_def db_stmt_def insert_row_def Let_def list_ex_iff logs_clash)
      (metis image_eqI)
  moreover have "same_entry (tb_store (logs_table E) ?r) entry" by (simp add: logs_table_def same_entry_def)
  ultimately show ?thesis by blast
qed

lemma transition_run:
  assumes ok: "\<And>t. env_fault E t = None"
    and ids: "\<And>t. env_new_id E t (map Log_ID (T_audit_logs (w_db w))) \<notin> insert 0 (Log_ID ` set (T_audit_logs (w_db w)))"
    and inv: "incidents_inv E (w_db w)" and to: "to \<notin> set sources"
  shows "\<exists>r w'. IncidentService_transition E i actor username to sources action w = (r, w') \<and>
    transition_outcome E i to sources (incident_audit i actor username action) (w_db w) r (w_db w')"
proof (cases "find (\<lambda>x. Inc_ID x = i) (T_incidents (w_db w))")
  case None
  then show ?thesis
    using inv IncidentRepo_Get_run [OF ok, of w i]
    by (simp add: IncidentService_transition_def op_bind_def incidents_inv_def transition_outcome_def)
next
  case (Some x)
  note mem = find_Some_mem [OF Some]
  have dist: "distinct (map Inc_ID (T_incidents (w_db w)))" using inv by (simp add: incidents_inv_def)
  have get: "IncidentRepo_Get E i w = (Inr x, tick w)"
    using IncidentRepo_Get_run [OF ok dist] Some by simp
  let ?entry = "incident_audit i actor username action"
  let ?t = "Suc (w_tick w)"
  let ?now = "env_clock E (Suc ?t)"
  have one: "z = x" if "z \<in> set (T_incidents (w_db w))" "Inc_ID z = i" for z
    using distinct_map_unique [OF dist that(1), of x] mem that by simp
  show ?thesis
  proof (cases "Inc_Status x \<in> set sources")
    case False
    then have "update_rows E (incidents_table E) (\<lambda>z. Inc_ID z = i \<and> Inc_Status z \<in> set sources) f t (w_db w) = Inr (0, w_db w)" for f t
      by (intro transition_update_none) (use one in auto)
    then show ?thesis
      using False ok Some
      by (simp add: IncidentService_transition_def op_bind_def get IncidentRepo_Transition_def transaction_def
          tb_update_where_def db_stmt_def op_when_fail_def transition_outcome_def)
  next
    case True
    let ?y = "transition_row E to actor ?now (env_col3 E (env_clock E (Suc (Suc ?t)))) x"
    let ?d = "(w_db w)\<lparr>T_incidents := map (\<lambda>z. if Inc_ID z = i then ?y else z) (T_incidents (w_db w))\<rparr>"
    have up: "update_rows E (incidents_table E) (\<lambda>z. Inc_ID z = i \<and> Inc_Status z \<in> set sources)
        (transition_row E to actor ?now) (Suc (Suc ?t)) (w_db w) = Inr (1, ?d)"
      using transition_update_one [OF inv conjunct1 [OF mem] True to] mem by simp
    let ?w = "(tick (tick (tick (tick w))))\<lparr>w_db := ?d\<rparr>"
    obtain r a where a: "same_entry a ?entry"
      and log: "create_log E ?entry ?w = (Inr r, (tick ?w)\<lparr>w_db := ?d\<lparr>T_audit_logs := T_audit_logs (w_db w) @ [a]\<rparr>\<rparr>)"
      using create_log_run [OF ok, of ?w ?entry] ids by auto
    have ky: "Inc_ID ?y = i" using mem by (simp add: transition_row_def Let_def)
    have "map Inc_ID (T_incidents ?d) = map Inc_ID (T_incidents (w_db w))"
      using ky by simp
    moreover have "find (\<lambda>z. Inc_ID z = i) (T_incidents ?d) = Some ?y"
      using find_map_same [of "T_incidents (w_db w)" "\<lambda>z. Inc_ID z = i" "\<lambda>z. if Inc_ID z = i then ?y else z"] Some ky mem
      by (simp split: if_splits)
    ultimately have "first_row (incidents_table E) (\<lambda>x. Inc_ID x = i) (?d\<lparr>T_audit_logs := T_audit_logs (w_db w) @ [a]\<rparr>) = Inr ?y"
      using first_incident [of "?d\<lparr>T_audit_logs := T_audit_logs (w_db w) @ [a]\<rparr>" E i] dist
      by (simp del: map_map)
    then have run: "IncidentService_transition E i actor username to sources action w =
        (Inr ?y, (tick (tick (tick ?w)))\<lparr>w_db := ?d\<lparr>T_audit_logs := T_audit_logs (w_db w) @ [a]\<rparr>\<rparr>)"
      using ok up log
      by (simp add: IncidentService_transition_def op_bind_def get IncidentRepo_Transition_def transaction_def
          tb_update_where_def db_stmt_def op_when_fail_def tb_first_def db_query_def tick_def)
    have "incident_identity ?y = incident_identity x" "Inc_Status ?y = to"
      by (simp_all add: incident_identity_def transition_row_def Let_def)
    then show ?thesis using run a True Some
      by (auto simp: transition_outcome_def)
  qed
qed

end
