(* ===== verification/IncidentScenario.thy ===== *)
theory IncidentScenario
  imports IncidentSpec Scenario
begin

text \<open>Concrete alerts and short runs of the webhook, for the witnesses and the
  counterexamples about incidents.\<close>

lemma run_incidents_append:
  "run_incidents E L (before @ after) w = run_incidents E L after (run_incidents E L before w)"
  by (simp add: run_incidents_def)

definition alert_of :: "string \<Rightarrow> string \<Rightarrow> string \<Rightarrow> string \<Rightarrow> string \<Rightarrow> Alert" where
  "alert_of st name service task probe = \<lparr>Alert_Status = st,
     Alert_Labels = map_of [(''cloudsentinel_incident'', ''true''), (''alertname'', name),
       (''service_id'', service), (''task_id'', task), (''probe_type'', probe)],
     Alert_Annotations = map_of [], Alert_StartsAt = 5000 * second, Alert_EndsAt = 6000 * second,
     Alert_Fingerprint = []\<rparr>"

definition alert_up :: Alert where "alert_up = alert_of IncResolved ''Probe'' ''1'' ''1'' ''tcp''"
definition alert_down :: Alert where "alert_down = alert_of IncFiring ''Probe'' ''1'' ''2'' ''tcp''"

lemmas alert_defs = alert_up_def alert_down_def alert_of_def

definition incident_up :: Incident where
  "incident_up = (case normalize lib0 alert_up 0 of Inr v \<Rightarrow> v | Inl _ \<Rightarrow> undefined)"
definition incident_down :: Incident where
  "incident_down = (case normalize lib0 alert_down 0 of Inr v \<Rightarrow> v | Inl _ \<Rightarrow> undefined)"

text \<open>A label value may hold any character, a newline too.\<close>

definition alert_forged :: Alert where
  "alert_forged = alert_of IncFiring ''a'' ''1'' ''2''
     (''x'' @ newline @ ''service_id=3'' @ newline @ ''task_id=4'' @ newline @ ''probe_type=tcp'')"
definition alert_victim :: Alert where
  "alert_victim = alert_of IncFiring
     (''a'' @ newline @ ''service_id=1'' @ newline @ ''task_id=2'' @ newline @ ''probe_type=x'') ''3'' ''4'' ''tcp''"

definition env_frozen :: env where
  "env_frozen = env0\<lparr>env_clock := (\<lambda>_. 7000 * second)\<rparr>"

definition lib_plain :: golib where
  "lib_plain = lib0\<lparr>lib_sha256_hex := (\<lambda>s. Itoa (int (length s)))\<rparr>"

definition resolved_twice :: Webhook where
  "resolved_twice = \<lparr>Webhook_Status = IncResolved, Webhook_Alerts = [alert_up, alert_up]\<rparr>"

lemma alert_fields:
  "TrimSpace (map_index (Alert_Labels alert_up) ''alertname'') = ''Probe''"
  "TrimSpace (map_index (Alert_Labels alert_up) ''probe_type'') = ''tcp''"
  "positive_id (map_index (Alert_Labels alert_up) ''service_id'') = Some 1"
  "positive_id (map_index (Alert_Labels alert_up) ''task_id'') = Some 1"
  "TrimSpace (map_index (Alert_Labels alert_down) ''alertname'') = ''Probe''"
  "TrimSpace (map_index (Alert_Labels alert_down) ''probe_type'') = ''tcp''"
  "positive_id (map_index (Alert_Labels alert_down) ''service_id'') = Some 1"
  "positive_id (map_index (Alert_Labels alert_down) ''task_id'') = Some 2"
  "Alert_StartsAt alert_up \<noteq> 0" "Alert_StartsAt alert_down \<noteq> 0"
  by code_simp+

lemma alert_up_normal: "normalize lib0 alert_up 0 = Inr incident_up"
  by (simp add: normalize_def Let_def alert_fields incident_up_def)

lemma alert_down_normal: "normalize lib0 alert_down 0 = Inr incident_down"
  by (simp add: normalize_def Let_def alert_fields incident_down_def)

lemma lib0_sha: "inj (lib_sha256_hex lib0)" "CHR 0x0A \<notin> set (lib_sha256_hex lib0 x)"
proof -
  show "inj (lib_sha256_hex lib0)" by (simp add: lib0_def inj_def hex_encode_inject)
  show "CHR 0x0A \<notin> set (lib_sha256_hex lib0 x)" by (simp add: lib0_def hex_encode_no_newline)
qed

lemma incident_names: "CHR 0x0A \<notin> set (lib_ToLower lib0 (Inc_AlertName incident_up))"
  "CHR 0x0A \<notin> set (lib_ToLower lib0 (Inc_AlertName incident_down))"
proof -
  have "Inc_AlertName incident_up = ''Probe''" "Inc_AlertName incident_down = ''Probe''"
    using normalize_Inr(7) [OF alert_up_normal] normalize_Inr(7) [OF alert_down_normal]
    by (simp_all add: alert_fields)
  moreover have "CHR 0x0A \<notin> set (lib_ToLower lib0 ''Probe'')" by code_simp
  ultimately show "CHR 0x0A \<notin> set (lib_ToLower lib0 (Inc_AlertName incident_up))"
    "CHR 0x0A \<notin> set (lib_ToLower lib0 (Inc_AlertName incident_down))" by simp_all
qed

lemma alert_fields_differ: "stable_fields lib0 alert_up \<noteq> stable_fields lib0 alert_down"
  by code_simp

lemma forged_canonical:
  "canonical lib0 ''a'' 1 2 (''x'' @ newline @ ''service_id=3'' @ newline @ ''task_id=4'' @ newline @ ''probe_type=tcp'') =
   canonical lib0 (''a'' @ newline @ ''service_id=1'' @ newline @ ''task_id=2'' @ newline @ ''probe_type=x'') 3 4 ''tcp''"
  by code_simp

lemma forged_fields:
  "TrimSpace (map_index (Alert_Labels alert_forged) ''alertname'') = ''a''"
  "TrimSpace (map_index (Alert_Labels alert_forged) ''probe_type'') =
     ''x'' @ newline @ ''service_id=3'' @ newline @ ''task_id=4'' @ newline @ ''probe_type=tcp''"
  "positive_id (map_index (Alert_Labels alert_forged) ''service_id'') = Some 1"
  "positive_id (map_index (Alert_Labels alert_forged) ''task_id'') = Some 2"
  "TrimSpace (map_index (Alert_Labels alert_victim) ''alertname'') =
     ''a'' @ newline @ ''service_id=1'' @ newline @ ''task_id=2'' @ newline @ ''probe_type=x''"
  "TrimSpace (map_index (Alert_Labels alert_victim) ''probe_type'') = ''tcp''"
  "positive_id (map_index (Alert_Labels alert_victim) ''service_id'') = Some 3"
  "positive_id (map_index (Alert_Labels alert_victim) ''task_id'') = Some 4"
  "Alert_StartsAt alert_forged = Alert_StartsAt alert_victim" "Alert_StartsAt alert_victim \<noteq> 0"
  by code_simp+

lemma forged_key:
  "\<exists>v v'. normalize lib0 alert_forged 0 = Inr v \<and> normalize lib0 alert_victim 0 = Inr v' \<and>
     Inc_EventKey v = Inc_EventKey v' \<and> Inc_ServiceID v \<noteq> Inc_ServiceID v' \<and> Inc_TaskID v \<noteq> Inc_TaskID v'"
  using forged_canonical by (simp add: normalize_def Let_def forged_fields)

definition firing_once :: "incident_request list" where
  "firing_once = [IncReqWebhook \<lparr>Webhook_Status = IncFiring, Webhook_Alerts = [alert_down]\<rparr>]"

definition world_firing :: world where
  "world_firing = run_incidents env0 lib_plain firing_once world0"

lemma world_firing_incident:
  "map (\<lambda>x. (Inc_ID x, Inc_Status x)) (T_incidents (w_db world_firing)) = [(1, IncFiring)]"
  by code_simp

lemma world_firing_inv: "incidents_inv env0 (w_db world_firing)"
  using run_incidents_good [of env0 world0 lib_plain firing_once] incidents_inv_empty [of env0]
  by (simp add: incident_good_def world_firing_def world0_def)

lemma world_firing_logs: "T_audit_logs (w_db world_firing) = []"
  by code_simp

lemma frozen_run:
  "fst (IncidentService_Ingest env_frozen lib_plain resolved_twice world0) = Inl duplicate_entry \<and>
   incident_abs env_frozen (w_db (snd (IncidentService_Ingest env_frozen lib_plain resolved_twice world0)))
     (alert_key env_frozen lib_plain alert_up) = Some (IncResolved, 1)"
  by code_simp

end
