(* ===== verification/ServerScenario.thy ===== *)
theory ServerScenario
  imports Processes IncidentScenario
begin

text \<open>
  A small concrete installation on which the properties of the server, the tokens and the
  startup are applied: one user, a signing library that knows the token of that user, a few
  requests, and a worker.
\<close>

section \<open>Libraries\<close>

definition manager0 :: TokenManager where
  "manager0 = \<lparr>tm_secret = ''k3y'', tm_issuer = ''cloudsentinel-api'', tm_expiresIn = 2 * hour\<rparr>"

definition user0 :: User where
  "user0 = \<lparr>User_ID = 7, User_Username = ''ops'', User_PasswordHash = ''hash:secret'',
     User_Status = AuthStatusActive, User_LastLoginAt = None, User_CreatedAt = 0, User_UpdatedAt = 0\<rparr>"

definition claims_at :: "time \<Rightarrow> Claims" where
  "claims_at now = \<lparr>Claims_Username = ''ops'', Claims_Subject = ''7'', Claims_Issuer = ''cloudsentinel-api'',
     Claims_IssuedAt = Some now, Claims_ExpiresAt = Some (now + 2 * hour)\<rparr>"

text \<open>A token names the time it was issued and the secret it was signed with.\<close>

definition token_at :: "time \<Rightarrow> string \<Rightarrow> string" where
  "token_at now secret = Itoa now @ ''.'' @ secret"

definition auth0 :: authlib where
  "auth0 = \<lparr>jwt_NewNumericDate = (\<lambda>t. t),
     jwt_SignedString = (\<lambda>meth claims secret.
       case Claims_IssuedAt claims of
         None \<Rightarrow> Inl (New ''unsupported claims'')
       | Some now \<Rightarrow> if meth = HS256 \<and> claims = claims_at now \<and> min_int64 \<le> now \<and> now \<le> max_int64
                    then Inr (token_at now secret) else Inl (New ''unsupported claims'')),
     jwt_ParseWithClaims = (\<lambda>options key now raw.
       case split2 (CHR ''.'') raw of
         [t, s] \<Rightarrow>
           (case Atoi t of
              None \<Rightarrow> Inl (New ''token is malformed'')
            | Some issued \<Rightarrow>
                if HS256 \<in> set (po_ValidMethods options) \<and> key HS256 = Inr s \<and>
                   po_Issuer options = Claims_Issuer (claims_at issued) \<and> now < issued + 2 * hour
                then Inr (True, claims_at issued) else Inl (New ''token is invalid''))
       | _ \<Rightarrow> Inl (New ''token is malformed'')),
     bcrypt_Compare = (\<lambda>hash password. if hash = ''hash:'' @ password then None else Some (New ''mismatch'')),
     bcrypt_DefaultCost = 10,
     bcrypt_Generate = (\<lambda>cost password. Inr (''hash:'' @ password))\<rparr>"

lemma Itoa_no_point: "min_int64 \<le> n \<Longrightarrow> CHR ''.'' \<notin> set (Itoa n)"
proof -
  have "CHR ''.'' \<notin> set (dec m)" if "0 \<le> m" for m
    using dec_digits [OF that] by (auto simp: list_all_iff is_digit_def)
  then show ?thesis by (auto simp: Itoa_def)
qed

lemma auth0_reads_back: "jwt_reads_back auth0"
  unfolding jwt_reads_back_def
proof (intro allI impI, elim conjE exE)
  fix claims secret raw now ex and options :: parse_options and key :: "string \<Rightarrow> go_error + string"
  assume sig: "jwt_SignedString auth0 HS256 claims secret = Inr raw"
    and opt: "HS256 \<in> set (po_ValidMethods options)" "po_Issuer options = Claims_Issuer claims" "key HS256 = Inr secret"
    and ex: "Claims_ExpiresAt claims = Some ex" "now < ex"
  obtain issued where raw: "raw = token_at issued secret" and c: "claims = claims_at issued"
    and range: "min_int64 \<le> issued" "issued \<le> max_int64"
    using sig by (auto simp: auth0_def split: option.splits if_splits)
  have "split2 (CHR ''.'') raw = [Itoa issued, secret]"
    unfolding raw token_at_def using split2_at [OF Itoa_no_point [OF range(1)], of secret] by simp
  then show "jwt_ParseWithClaims auth0 options key now raw = Inr (True, claims)"
    using opt ex c Atoi_Itoa [OF range] by (simp add: auth0_def claims_at_def)
qed

definition http0 :: httplib where
  "http0 = \<lparr>hl_json = (\<lambda>body. if body = ''login'' then
       Some (JObject [(''username'', JString ''ops''), (''password'', JString ''secret'')]) else None),
     hl_fold = ascii_lower, hl_json_time = (\<lambda>_. None)\<rparr>"

section \<open>Server and worker\<close>

text \<open>Routes without a path parameter, matched exactly.\<close>

definition exact_route :: "(string \<times> string) list \<Rightarrow> string \<Rightarrow> string \<Rightarrow> (nat \<times> string) option" where
  "exact_route routes meth path =
     map_option (\<lambda>k. (k, [])) (map_of (zip routes [0..<length routes]) (meth, path))"

definition server0 :: server where
  "server0 = \<lparr>sv_env = env0, sv_lib = lib0, sv_http = http0, sv_auth = auth0, sv_tokens = manager0,
     sv_webhook_token = ''hook'', sv_pings = [(''mysql'', \<lambda>_. None), (''redis'', \<lambda>_. None)],
     sv_metrics = (\<lambda>c w. Success 200 DataNil), sv_gin_route = exact_route,
     sv_gin_no_route = (\<lambda>c. Error 404 40400 ''not found'')\<rparr>"

definition workers0 :: workers where
  "workers0 = \<lparr>wk_idle = 30 * minute, wk_probes = \<lparr>probe_http = probe0, probe_tcp = probe0\<rparr>, wk_wait = timer_fires\<rparr>"

lemma workers0_off_db: "probes_off_db workers0"
  by (simp add: probes_off_db_def workers0_def probe0_def timer_fires_def)

definition world_user :: world where
  "world_user = \<lparr>w_db = empty_db\<lparr>T_users := [user0]\<rparr>, w_tick = 0\<rparr>"

definition context0 :: "(string \<times> string) list \<Rightarrow> string \<Rightarrow> gin_context" where
  "context0 headers body = \<lparr>cx_Header = (\<lambda>h. case map_of headers h of None \<Rightarrow> [] | Some v \<Rightarrow> v),
     cx_Query = (\<lambda>_. None), cx_Param_id = [], cx_ClientIP = ''192.0.2.7'', cx_Body = body,
     cx_RequestID = None, cx_Principal = None\<rparr>"

definition context_me :: gin_context where
  "context_me = context0 [(''Authorization'', ''Bearer '' @ token_at (1000 * second) ''k3y'')] []"

definition md_login :: RequestMetadata where
  "md_login = \<lparr>RM_RequestID = ''r1'', RM_ClientIP = ''192.0.2.7'', RM_UserAgent = ''curl''\<rparr>"

definition settings0 :: environ where
  "settings0 = map_of [(''JWT_SECRET'', ''k3y''), (''BOOTSTRAP_USER_USERNAME'', ''ops''),
     (''BOOTSTRAP_USER_PASSWORD'', ''secret''), (''ALERTMANAGER_WEBHOOK_TOKEN'', ''hook'')]"

text \<open>The user reads its account with its token; a page number that overflows the offset.\<close>

lemma me_replies: "replied_success (fst (serve server0 ''GET'' ''/api/v1/users/me'' context_me world_user))"
  by code_simp

lemma me_matched:
  "map_option (\<lambda>(r, i). ro_Path r) (matched server0 ''GET'' ''/api/v1/users/me'') = Some ''/api/v1/users/me''"
  by code_simp

definition context_huge :: gin_context where
  "context_huge = (context0 [] [])\<lparr>cx_Query := map_of [(''page'', ''461168601842738792'')]\<rparr>"

definition login0 :: "(go_error + LoginResult) \<times> world" where
  "login0 = AuthService_Login env0 auth0 (auth_repository env0) manager0 '' ops '' ''secret'' md_login world_user"

lemma login_replies: "case fst login0 of Inl e \<Rightarrow> False | Inr res \<Rightarrow> LR_AccessToken res = token_at (1001 * second) ''k3y''"
  by code_simp

text \<open>A complete configuration, and one whose scheduler has no period.\<close>

definition startup0 :: "(go_error + TokenManager) \<times> world" where
  "startup0 = (case Load (\<lambda>_ _ _. 0) settings0 of Inl err \<Rightarrow> (Inl err, world0)
     | Inr cfg \<Rightarrow> api_startup env0 auth0 cfg world0)"

lemma startup_accepted: "case fst startup0 of Inl e \<Rightarrow> False | Inr m \<Rightarrow> m = manager0"
  by code_simp

definition settings_stalled :: environ where
  "settings_stalled = map_of [(''PROBE_SCHEDULER_INTERVAL'', ''0s''), (''PROBE_WORKER_COUNT'', ''0''),
     (''PROBE_QUEUE_CAPACITY'', ''-1'')]"

definition metrics0 :: worker_metrics where
  "metrics0 = \<lparr>wm_total = (\<lambda>_. 0), wm_duration = (\<lambda>_. []), wm_active = 0, wm_queue = 0\<rparr>"

text \<open>The run of \<open>Process\<close> in the scenario of the pipeline, as one call.\<close>

definition probes0 :: "world probes" where
  "probes0 = \<lparr>probe_http = probe0, probe_tcp = probe0\<rparr>"

lemma scenario_process:
  "Processor_Process env0 (30 * minute) probes0 timer_fires message0 ''w1'' world2 = (Inr (), world5)"
proof -
  have "process_look env0 (Msg_ExecutionID message0) world2 = (Inr (Some work0), world3)"
    by (simp add: scenario_look world3_def prod_eq_iff)
  moreover have "process_take env0 (30 * minute) (Msg_ExecutionID message0) ''w1'' world3 = (Inr (), world4)"
    by (simp add: scenario_take world4_def prod_eq_iff)
  moreover have "process_settle env0 (Msg_ExecutionID message0) ''w1'' (env_clock env0 (w_tick world4))
      (zero_result\<lparr>Res_Success := True\<rparr>) 1 (tick world4) = (Inr (), world5)"
    by (simp add: scenario_settle world5_def prod_eq_iff)
  moreover have "Exec_ProbeType (Work_Execution work0) = TypeTCP" by code_simp
  ultimately show ?thesis
    by (simp add: Processor_Process_def op_bind_def probe_of_def probes0_def probe0_result)
qed

section \<open>Processes\<close>

definition net0 :: "world net" where
  "net0 = \<lparr>net_LookupIP = (\<lambda>h w. (Inr [[192, 0, 2, 10]], w)), net_ip_String = (\<lambda>a. ''192.0.2.10''),
     net_DialContext = (\<lambda>n a w. (Inr (), w)), net_Close = (\<lambda>w. (None, w)), net_NewRequest = (\<lambda>u. None)\<rparr>"

definition platform0 :: platform where
  "platform0 = \<lparr>pf_env = env0, pf_lib = lib0, pf_http = http0, pf_auth = auth0,
     pf_log = \<lparr>ll_ToUpper = (\<lambda>s. if s = ''info'' then ''INFO'' else s), ll_Quote = (\<lambda>s. s)\<rparr>,
     pf_driver = \<lparr>gorm_Open = (\<lambda>_. None), gorm_DB = (\<lambda>_. None)\<rparr>, pf_fraction = (\<lambda>_ _ _. 0),
     pf_environ = settings0, pf_mysql_ping = (\<lambda>_ _. None), pf_redis_ping = (\<lambda>_ _. None),
     pf_metrics = (\<lambda>c w. Success 200 DataNil), pf_gin_route = exact_route,
     pf_gin_no_route = (\<lambda>c. Error 404 40400 ''not found''), pf_net = net0,
     pf_client_Do = (\<lambda>timeout u. HttpResponse 200), pf_wait = timer_fires\<rparr>"

lemma platform0_off_db: "platform_off_db platform0"
  by (simp add: platform_off_db_def platform0_def net_off_db_def net0_def timer_fires_def)

lemma platform0_opens:
  "case process_opens platform0 of Inl err \<Rightarrow> False
   | Inr (cfg, db, redis) \<Rightarrow> worker_starts (worker_setup_of cfg) \<and> 0 < ws_workers (worker_setup_of cfg) \<and>
       Dbs_DSN db = ''cloudsentinel:@tcp(mysql:3306)/cloudsentinel?charset=utf8mb4&loc=UTC&parseTime=true&timeout=5s''"
  by code_simp

lemma platform0_serves:
  "fst (api_run platform0 [(''GET'', ''/healthz'', context0 [] [])] (Signalled None) world0) =
     (None, snd (fst (api_run platform0 [] (Signalled None) world0)))"
  by code_simp

end
