(* ===== verification/PoolScenario.thy ===== *)
theory PoolScenario
  imports PoolRefinement PoolShutdown ServerScenario
begin

text \<open>A run of the goroutines of a consumer: the reader fetches a message and a worker receives it.\<close>

definition conf0 :: worker_setup where
  "conf0 = \<lparr>ws_interval = 5 * second, ws_batch = 100, ws_policy = \<lparr>AllowPrivate = True, AllowLoopback = False\<rparr>,
     ws_idle = 30 * minute, ws_stream = ''probes'', ws_group = ''workers'', ws_readCount = 10, ws_block = 5 * second,
     ws_claimInterval = 30 * second, ws_workers = 4, ws_capacity = 100\<rparr>"

definition received0 :: job where
  "received0 = new_job 0 ''w1'' message0"

definition pool_fetched :: pool where
  "pool_fetched = at Reader (Sending (next_entries 1 pipe2)) ((pool_start conf0 pipe2)\<lparr>go_shared := delivered 1 pipe2\<rparr>)"

definition pool_queued :: pool where
  "pool_queued = at Reader (Measuring []) (pool_fetched\<lparr>go_jobs := [received0], go_sent := [received0]\<rparr>)"

definition pool_busy :: pool where
  "pool_busy = worker_at 0 (WkTaken received0) (pool_queued\<lparr>go_jobs := [], go_received := [received0]\<rparr>)"

lemmas pool_scenario = pool_fetched_def pool_queued_def pool_busy_def pool_start_def at_def worker_at_def conf0_def

lemma pipe2_entry: "next_entries 1 pipe2 = [(0, publish_fields lib0 message0)]"
  by (simp add: next_entries_def pipe2_def pipe_start_def)

lemma message0_decodes: "decode lib0 (publish_fields lib0 message0) = Inr message0"
  by (rule decode_publish) code_simp+

abbreviation "step0 \<equiv> pool_step env0 lib0 workers0 conf0 ''w1''"

lemma pool_run: "step0\<^sup>*\<^sup>* (pool_start conf0 pipe2) pool_busy"
proof -
  let ?g0 = "pool_start conf0 pipe2"
  have "step0 ?g0 (at Reader Calling ?g0)"
    by (intro pool_step.own own_step.read read_step.calls) (simp_all add: pool_start_def)
  moreover have "step0 (at Reader Calling ?g0) pool_fetched"
    using read_step.reads [of "at Reader Calling ?g0" conf0 1]
    by (intro pool_step.own own_step.read)
      (simp add: pool_fetched_def pool_start_def at_def within_count_def conf0_def pipe2_def pipe_start_def)
  moreover have "step0 pool_fetched pool_queued"
    using send_step.sends [of pool_fetched Reader 0 "publish_fields lib0 message0" "[]" lib0 message0 conf0 "''w1''"]
      message0_decodes pipe2_entry
    by (intro pool_step.own own_step.send) (simp add: pool_scenario received0_def)
  moreover have "step0 pool_queued pool_busy"
    using work_step.receives [of 0 pool_queued received0 "[]" env0 workers0]
    by (intro pool_step.own own_step.work) (simp add: pool_scenario)
  ultimately show ?thesis by (meson r_into_rtranclp rtranclp.rtrancl_into_rtrancl)
qed

end
