(* ===== verification/Spec2Isabelle.thy ===== *)
theory Spec2Isabelle
  imports FleetRace ProbeSafety ProbeLimits Completion DemoTarget PoolScenario
begin

text \<open>
  Verification development of the CloudSentinel backend: the Go program under \<open>src/cmd\<close> and
  \<open>src/internal\<close>, an API server and a worker that share a MySQL database and a Redis stream.
  Users register hosts, services on them and probe tasks; the worker schedules the tasks that are
  due, publishes a message per execution, and its consumers probe the targets and store results;
  Alertmanager reports incidents to a webhook, which users acknowledge, process and close.

  \<^bold>\<open>Foundations.\<close> \<open>Prelude\<close> has the types shared by all: Go's \<open>uint64\<close> identifiers as 64-bit
  words, \<open>int\<close>, times and durations as integers with the wrap-around of 64 bits written out, errors
  as values, and operations as functions from a state to an error or a value and a state.
  \<open>GoStrings\<close> and \<open>GoNet\<close> model what the program uses of \<open>strings\<close>, \<open>strconv\<close>, \<open>encoding/hex\<close> and
  \<open>net\<close>. \<open>Schema\<close> has the rows of the tables, \<open>Store\<close> a database with statements, transactions and
  faults, \<open>Tables\<close> the unique keys. The world is the database and a counter of the steps taken; an
  \<open>env\<close> gives, for every step, the clock, randomness, new identifiers, the rows that others have
  locked, and whether the statement fails, and how a column stores a text or a time. A transaction
  is all or nothing, and may commit and still report an error. The locales of \<open>Store\<close>
  and \<open>Tables\<close> state the laws of a table and those of \<open>AssetService\<close> and \<open>Auth\<close> what a service
  relies on in its store; they are interpreted on every table and on the MySQL repositories.

  \<^bold>\<open>The fleet\<close> (\<open>internal/asset\<close>, tasks of \<open>internal/probe\<close>): \<open>AssetValidation\<close>,
  \<open>AssetRepository\<close>, \<open>AssetService\<close>, \<open>ProbeTaskService\<close>, with the invariant in \<open>FleetInvariant\<close>;
  \<open>FleetRequests\<close> puts the nine writing requests into one type, and \<open>FleetRace\<close> interleaves two.

  \<^bold>\<open>Probing\<close> (\<open>internal/probe\<close>): \<open>ProbeRepository\<close> (\<open>ScheduleDue\<close>, \<open>QueuedBefore\<close>, \<open>Acquire\<close>,
  \<open>MarkFinal\<close>), \<open>ProbeExecution\<close> (the retry loop, the network policy, the TCP and HTTP probes),
  \<open>ProbeProcessor\<close> (messages and \<open>Process\<close>). \<open>ProbeSafety\<close>, \<open>ProbeLimits\<close>, \<open>ProbeScheduling\<close>,
  \<open>ExecutionLedger\<close> (the life of an execution row as an inductive relation) and \<open>ProbeRecovery\<close>
  (\<open>Process\<close> makes an execution final that can be taken) are about them. \<open>Pipeline\<close> is the step relation of the whole: scheduling,
  recovery, delivery and claiming of stream entries, the steps of \<open>Process\<close> of any number of
  workers, their loss at any point, and the requests of the API, in any order, with its invariant.
  \<open>WorkerLoops\<close> are the loops of \<open>scheduler.go\<close> and \<open>consumer.go\<close> as functions, one turn each,
  and \<open>Completion\<close> shows that turns of them complete what a dead worker left and publish again
  what was not published. \<open>ConsumerPool\<close> is one consumer at the level of its goroutines: the reader,
  the claimer, the bounded channel, the workers, the cancellation and the close; \<open>PoolRefinement\<close>
  simulates its steps by the pipeline, and \<open>PoolShutdown\<close> has the discipline of the channel and the
  end of \<open>Run\<close>.

  \<^bold>\<open>Incidents\<close> (\<open>internal/incident\<close>): \<open>IncidentRepository\<close>, \<open>IncidentService\<close>, and in
  \<open>IncidentSpec\<close> the abstract tracker, a map from event keys to a status and a count.

  \<^bold>\<open>Users\<close> (\<open>internal/auth\<close>): \<open>Auth\<close> (tokens, repository, login, bootstrap), \<open>AuthSpec\<close>.

  \<^bold>\<open>The API\<close> (\<open>internal/httpserver\<close>, \<open>internal/middleware\<close>, the handlers): \<open>Http\<close>,
  \<open>AssetHandler\<close>, \<open>ProbeHandler\<close>, \<open>IncidentHandler\<close>, \<open>AuthHandler\<close>, \<open>Health\<close>, \<open>Router\<close>, and the
  properties of a request in \<open>ServerSpec\<close>. \<open>Metrics\<close> (\<open>internal/platform/metrics\<close>, the access log)
  adds observers beside the world and shows them transparent, with the metrics that are registered.

  \<^bold>\<open>The processes\<close> (\<open>cmd\<close>, \<open>internal/platform\<close>): \<open>Config\<close>, \<open>Startup\<close>, \<open>Platform\<close>, \<open>DataSource\<close>
  (configuration, clients, data source name, logger), \<open>System\<close> (the server and the loops as
  sequences of actions) and \<open>Processes\<close> (\<open>run\<close> of both processes and \<open>Run\<close> of the consumer).
  \<open>DemoTarget\<close> is the server of the demonstration setup.

  \<^bold>\<open>What is shown.\<close> Of the pipeline: no running execution is without a pending message, what is
  acknowledged is final, final rows do not change, rows and fleet stay well formed, a queued or an
  abandoned execution is finished by processing its message, one that was not published is published
  again, and the program's loops and requests refine the steps for which this holds (C1 to C8). Of the
  goroutines of a consumer: they refine the pipeline, keep to their bounded channel in order, and shut
  down in a bounded number of steps (C9 to C11). Of the scheduler: a round queues what is due (C12). Of
  the fleet: well-formedness, audit, and the race that breaks it when two requests interleave (C13 to
  C15). Of the API: invariants, authentication, replies (C16 to C18). Of probing: only permitted
  addresses are dialled, the policy as ranges, the outcome and duration of attempts (C19 to C23). Of
  incidents: history, refinement of the tracker, outcome of the actions, identity of alerts (C24 to
  C27, C29). Of the processes and users: the run of the worker (C28) and of the API (C33), login,
  tokens, bootstrap (C30 to C32), configuration (C34 to C36). The rest are overflow, readiness and metrics.
  \<open>Scenario\<close>, \<open>IncidentScenario\<close>, \<open>ServerScenario\<close> and \<open>PoolScenario\<close> hold the concrete runs on which the
  properties are applied.

  \<^bold>\<open>Termination and bounds.\<close> No definition uses fuel that may run out: the retry loop and the
  parser of durations terminate by a measure; the draining of the queue recurses on its length,
  which is enough because every round removes a job. Loops that run until a signal are lists of
  turns; after the cancellation a rank of the goroutines bounds the steps of the consumer (C11). Within the validated limits of a task (5 retries, 60 s, 30 s of base delay) no duration
  wraps around, and an execution takes less than 1290 s, below the default idle timeout of 30 min.

  \<^bold>\<open>Parameters.\<close> Third-party and untranslatable parts are arguments, with what is relied on as named
  hypotheses: case folding, URL syntax, SHA-256 and time formats (\<open>golib\<close>), JSON syntax (\<open>httplib\<close>),
  JWT and bcrypt (\<open>authlib\<close>), the resolver, the dialler and the HTTP client as an interaction tree
  of its calls of the program's callbacks, gin's matching of paths, the MySQL driver, and Redis: the
  stream is its log of entries with the cursor and the pending entries of the group.

  \<^bold>\<open>Not modelled.\<close> The memory model of goroutines: they interleave between the steps of the
  pipeline and of the consumer, which are those between which they can see each other; in \<open>System\<close> a
  turn of a loop is atomic. A process that dies is the loss of its jobs. The buckets of histograms and
  the text format of metrics, log lines other than the access log, sockets and signals (which of them
  ends a process is an input), deletion of stream entries, foreign keys (the program never deletes
  rows). \<open>web\<close>, \<open>deploy\<close> and the scripts are not part of the backend. The program's own use of HTTP
  proxies for probes is left to the client. Constructors that only store their arguments have no
  definition of their own: the fields are arguments of the operations.
\<close>

section \<open>The probe pipeline\<close>

text \<open>C1: No execution is lost. In every state the pipeline can reach from an empty database,
  by any interleaving of scheduling, recovery, delivery, claiming, processing, worker loss and
  API requests, an execution that a worker has marked running still has an unacknowledged
  message in the stream, so that it can be claimed again.\<close>

theorem no_lost_execution:
  assumes "(pipe_step E L idle)\<^sup>*\<^sup>* (pipe_start w) s" and "w_db w = empty_db"
    and "x \<in> set (T_results (pl_db s))" and "Exec_Status x = ExecutionRunning"
  shows "\<exists>i\<in>set (pl_pending s). entry_for E L s i x"
  using pipe_steps_inv [OF assms(1) pipe_inv_start [OF assms(2)]] assms(3,4)
  by (simp add: pipe_inv_def running_pending_def)

theorem no_lost_execution_witness:
  "\<exists>x\<in>set (T_results (pl_db pipe4)). \<exists>i\<in>set (pl_pending pipe4). entry_for env0 lib0 pipe4 i x"
proof -
  obtain x where x: "x \<in> set (T_results (pl_db pipe4))" "Exec_Status x = ExecutionRunning"
    using scenario_running by (auto simp: pipe4_def)
  show ?thesis
    using no_lost_execution [OF scenario_run _ x] x(1) by (auto simp: world0_def)
qed

text \<open>C2: A message leaves the pending list of the consumer group only when its execution is
  final: every entry that was delivered and is no longer pending stands for a succeeded or
  failed execution.\<close>

theorem acknowledged_is_final:
  assumes "(pipe_step E L idle)\<^sup>*\<^sup>* (pipe_start w) s" and "w_db w = empty_db"
    and "i < pl_cursor s" and "i \<notin> set (pl_pending s)"
  shows "\<exists>m x. decode L (pl_stream s ! i) = Inr m \<and> x \<in> set (T_results (pl_db s)) \<and>
    has_execution_id E (Msg_ExecutionID m) x \<and> terminal x"
  using pipe_steps_inv [OF assms(1) pipe_inv_start [OF assms(2)]] stream_ok_acked [of E L s i] assms(3,4)
  by (auto simp: pipe_inv_def settled_def)

theorem acknowledged_is_final_witness:
  "\<exists>x\<in>set (T_results (pl_db pipe6)). has_execution_id env0 (Msg_ExecutionID message0) x \<and> terminal x"
  using acknowledged_is_final [OF scenario_all, of 0] scenario_decode
  by (auto simp: world0_def pipe6_def)

text \<open>C4: A final execution never changes again, whatever the pipeline does after.\<close>

theorem final_execution_immutable:
  assumes "(pipe_step E L idle)\<^sup>*\<^sup>* (pipe_start w) s" and "w_db w = empty_db"
    and "(pipe_step E L idle)\<^sup>*\<^sup>* s s'" and "x \<in> set (T_results (pl_db s))" and "terminal x"
  shows "x \<in> set (T_results (pl_db s'))"
  using pipe_steps_terminal [OF assms(3) _ assms(4,5)] pipe_steps_inv [OF assms(1) pipe_inv_start [OF assms(2)]]
  by blast

theorem final_execution_immutable_witness:
  "\<exists>x\<in>set (T_results (pl_db pipe6)). terminal x \<and> x \<in> set (T_results (pl_db pipe6))"
proof -
  obtain x where x: "x \<in> set (T_results (pl_db pipe6))" "terminal x"
    using scenario_final by (auto simp: pipe6_def terminal_def)
  show ?thesis
    using final_execution_immutable [OF scenario_all _ rtranclp.rtrancl_refl x] x by (auto simp: world0_def)
qed



text \<open>C6: In every reachable state, without faults, processing the message of a queued execution
  returns no error and makes the execution final, whatever the probe answers.\<close>

theorem queued_execution_finishes:
  assumes "(pipe_step E L idle)\<^sup>*\<^sup>* (pipe_start w) s" and "w_db w = empty_db"
    and "\<And>t. env_fault E t = None"
    and "x \<in> set (T_results (pl_db s))" and "has_execution_id E (Msg_ExecutionID message) x"
    and "Exec_Status x = ExecutionQueued"
    and "\<And>tm tg w. w_db (snd (probe_http ps tm tg w)) = w_db w"
    and "\<And>tm tg w. w_db (snd (probe_tcp ps tm tg w)) = w_db w"
    and "\<And>dl w. w_db (snd (waitFor dl w)) = w_db w"
  shows "\<exists>w'. Processor_Process E idleTimeout ps waitFor message consumer (pl_world s) = (Inr (), w') \<and>
    settled E (w_db w') (Msg_ExecutionID message)"
  using reachable_processable [OF assms(1,2)]
    reachable_finishes [where ps = ps and waitFor = waitFor and c = consumer,
      OF assms(3) _ _ assms(4,5) takeable_queued [OF assms(6)] assms(7,8,9)] by blast

theorem queued_execution_finishes_witness:
  "\<exists>w'. Processor_Process env0 (30 * minute) \<lparr>probe_http = probe0, probe_tcp = probe0\<rparr> timer_fires message0 ''w2''
     (pl_world pipe2) = (Inr (), w') \<and> settled env0 (w_db w') (Msg_ExecutionID message0)"
proof (rule queued_execution_finishes [OF scenario_start])
  have "T_results (w_db world2) = [Work_Execution work0]" by code_simp
  then show "Work_Execution work0 \<in> set (T_results (pl_db pipe2))" by (simp add: pipe2_def pipe_start_def)
  show "has_execution_id env0 (Msg_ExecutionID message0) (Work_Execution work0)" by code_simp
  show "Exec_Status (Work_Execution work0) = ExecutionQueued" by code_simp
qed (simp_all add: env0_def probe0_def timer_fires_def world0_def)

text \<open>C7: An execution that a worker left running for longer than the idle timeout is not stuck. In
  every reachable state its message is still pending, and without faults one turn of a claimer and
  one of a worker of any consumer take it over, make it final and acknowledge the message.\<close>

theorem abandoned_execution_recovered:
  assumes "(pipe_step (sv_env sv) (sv_lib sv) idle)\<^sup>*\<^sup>* (pipe_start w) s" and "w_db w = empty_db"
    and "\<And>t. env_fault (sv_env sv) t = None" and "probes_off_db wk"
    and "x \<in> set (T_results (pl_db s))" and "Exec_Status x = ExecutionRunning"
    and "Exec_UpdatedAt x < env_clock (sv_env sv) (Suc (Suc (w_tick (pl_world s)))) - wk_idle wk"
    and "Exec_UpdatedAt x < env_col3 (sv_env sv) (env_clock (sv_env sv) (Suc (Suc (Suc (Suc (w_tick (pl_world s)))))))"
  shows "\<exists>i\<in>set (pl_pending s). entry_for (sv_env sv) (sv_lib sv) s i x \<and>
    (let s' = run_actions sv wk [ActClaim c [i] None, ActWork None 0] s
     in settled (sv_env sv) (pl_db s') (Exec_ExecutionID x) \<and> i \<notin> set (pl_pending s'))"
proof -
  have inv: "pipe_inv (sv_env sv) (sv_lib sv) s" "all_processable (pl_db s)"
    using reachable_processable [OF assms(1,2)] by auto
  obtain i where i: "i \<in> set (pl_pending s)" "entry_for (sv_env sv) (sv_lib sv) s i x"
    using inv(1) assms(5,6) by (auto simp: pipe_inv_def running_pending_def)
  have "takeable (sv_env sv) (wk_idle wk) (w_tick (pl_world s)) x" using assms(6-8) by (simp add: takeable_def)
  from claim_and_work [OF assms(4,3) inv assms(5) this i] i show ?thesis by (auto simp: Let_def)
qed

definition world_later :: world where
  "world_later = world4\<lparr>w_tick := 10000\<rparr>"

definition pipe_later :: pipeline where
  "pipe_later = pipe4\<lparr>pl_world := world_later\<rparr>"

theorem abandoned_execution_recovered_witness:
  "\<exists>i\<in>set (pl_pending pipe_later). i \<notin> set (pl_pending
     (run_actions server0 workers0 [ActClaim ''w2'' [i] None, ActWork None 0] pipe_later))"
proof -
  let ?x = "hd (T_results (w_db world4))"
  have ne: "T_results (w_db world4) \<noteq> []" by code_simp
  then have x: "?x \<in> set (T_results (pl_db pipe_later))" by (simp add: pipe_later_def world_later_def)
  have "pipe_step env0 lib0 (30 * minute) pipe4 pipe_later"
    unfolding pipe_later_def by (rule pipe_step.elsewhere) (simp_all add: world_later_def pipe4_def)
  then have run: "(pipe_step env0 lib0 (30 * minute))\<^sup>*\<^sup>* (pipe_start world0) pipe_later"
    using scenario_run by (rule rtranclp.rtrancl_into_rtrancl [rotated])
  have status: "Exec_Status ?x = ExecutionRunning" by code_simp
  have times: "Exec_UpdatedAt ?x < env_clock env0 (Suc (Suc (w_tick world_later))) - 30 * minute"
    "Exec_UpdatedAt ?x < env_col3 env0 (env_clock env0 (Suc (Suc (Suc (Suc (w_tick world_later))))))" by code_simp+
  have "\<exists>i\<in>set (pl_pending pipe_later). entry_for (sv_env server0) (sv_lib server0) pipe_later i ?x \<and>
    (let s' = run_actions server0 workers0 [ActClaim ''w2'' [i] None, ActWork None 0] pipe_later
     in settled (sv_env server0) (pl_db s') (Exec_ExecutionID ?x) \<and> i \<notin> set (pl_pending s'))"
    by (rule abandoned_execution_recovered [where idle = "30 * minute" and w = world0, OF _ _ _ workers0_off_db x status])
       (use run times in \<open>simp_all add: server0_def workers0_def world0_def env0_def pipe_later_def\<close>)
  then show ?thesis by (auto simp: Let_def)
qed

text \<open>C8: An execution whose message was not published is not lost. It stays queued, and a tick of
  the dispatcher, when the statements succeed, the overdue executions fit its batch and Redis takes
  the messages, appends an entry for every execution that is queued for longer than two intervals,
  without changing the database. The hypothesis on the library is that the printed time reads back.\<close>

theorem queued_execution_republished:
  assumes "\<And>t. env_fault E t = None" and "0 \<le> batch"
    and "before = env_clock E (w_tick (pl_world s)) + wrap64 (- 2 * interval)"
    and "x \<in> set (overdue before (pl_db s))" and "length (overdue before (pl_db s)) \<le> nat batch"
    and "lib_parse_time L (lib_format_time L (Exec_ScheduledAt x)) = Some (Exec_ScheduledAt x)"
    and "Exec_ExecutionID x \<noteq> []"
  shows "let s' = RecoveryDispatcher_tick E L interval batch (\<lambda>_. None) s
    in \<exists>k\<ge>length (pl_stream s). k < length (pl_stream s') \<and> entry_for E L s' k x \<and> pl_db s' = pl_db s"
  using assms(4,5) unfolding assms(3) by (rule dispatcher_publishes [OF assms(1,2) _ _ assms(6,7)])

definition pipe_unpublished :: pipeline where
  "pipe_unpublished = pipe_start (world2\<lparr>w_tick := 10000\<rparr>)"

theorem queued_execution_republished_witness:
  "\<exists>k. k < length (pl_stream (RecoveryDispatcher_tick env0 lib0 (10 * second) 100 (\<lambda>_. None) pipe_unpublished)) \<and>
    entry_for env0 lib0 (RecoveryDispatcher_tick env0 lib0 (10 * second) 100 (\<lambda>_. None) pipe_unpublished) k (Work_Execution work0)"
proof -
  let ?s' = "RecoveryDispatcher_tick env0 lib0 (10 * second) 100 (\<lambda>_. None) pipe_unpublished"
  let ?before = "env_clock env0 (w_tick (pl_world pipe_unpublished)) + wrap64 (- 2 * (10 * second))"
  have x: "overdue ?before (pl_db pipe_unpublished) = [Work_Execution work0]" by code_simp
  have "lib_parse_time lib0 (lib_format_time lib0 (Exec_ScheduledAt (Work_Execution work0)))
      = Some (Exec_ScheduledAt (Work_Execution work0))" by code_simp
  moreover have "Exec_ExecutionID (Work_Execution work0) \<noteq> []" by code_simp
  ultimately have "let s' = ?s' in \<exists>k\<ge>length (pl_stream pipe_unpublished). k < length (pl_stream s') \<and>
      entry_for env0 lib0 s' k (Work_Execution work0) \<and> pl_db s' = pl_db pipe_unpublished"
    using x by (intro queued_execution_republished [OF _ _ refl]) (simp_all add: env0_def)
  then show ?thesis by (auto simp: Let_def)
qed

section \<open>The goroutines of a consumer\<close>

text \<open>C9: The goroutines of a consumer, among the steps of any other processes, refine the pipeline.
  The shared state of every state they reach, with the jobs a loop, the channel and the workers have,
  is one the pipeline reaches; so no running execution is without a pending message there.\<close>

theorem consumer_refines_pipeline:
  assumes "(pool_step E L wk conf c)\<^sup>*\<^sup>* (pool_start conf sh) g"
    and "(pipe_step E L (wk_idle wk))\<^sup>*\<^sup>* (pipe_start w) sh" and "w_db w = empty_db"
  shows "(\<exists>p. (pipe_step E L (wk_idle wk))\<^sup>*\<^sup>* (pipe_start w) p \<and> matching L c g p) \<and>
    (\<forall>x\<in>set (T_results (pl_db (go_shared g))). Exec_Status x = ExecutionRunning \<longrightarrow>
       (\<exists>i\<in>set (pl_pending (go_shared g)). entry_for E L (go_shared g) i x))"
proof -
  obtain p where p: "(pipe_step E L (wk_idle wk))\<^sup>*\<^sup>* (pipe_start w) p" "matching L c g p"
    using pool_refines [OF assms(1)] assms(2) by (meson rtranclp_trans)
  obtain js where "p = with_jobs (go_shared g) js" using p(2) unfolding matching_def by blast
  then have "running_pending E L (with_jobs (go_shared g) js)"
    using pipe_steps_inv [OF p(1) pipe_inv_start [OF assms(3)]] by (simp add: pipe_inv_def)
  then show ?thesis using p by (auto simp: running_pending_def entry_for_def)
qed

theorem consumer_refines_pipeline_witness:
  "\<exists>p. (pipe_step env0 lib0 (30 * minute))\<^sup>*\<^sup>* (pipe_start world0) p \<and> matching lib0 ''w1'' pool_busy p"
  using consumer_refines_pipeline [OF pool_run, of world0] scenario_start by (simp add: workers0_def world0_def)

text \<open>C10: The channel of a consumer. However its goroutines interleave, the queue and the reported
  length stay within the capacity, jobs are received in the order they were sent, each once, and no
  loop sends on the closed channel; when \<open>Run\<close> has returned, which is only after the cancellation,
  every job that was sent was received, if there are workers.\<close>

theorem consumer_channel:
  assumes "(pool_step E L wk conf c)\<^sup>*\<^sup>* (pool_start conf sh) g" and "0 \<le> ws_capacity conf"
  shows "int (length (go_jobs g)) \<le> ws_capacity conf \<and> 0 \<le> go_gauge g \<and> go_gauge g \<le> ws_capacity conf \<and>
    go_sent g = go_received g @ go_jobs g \<and> \<not> go_panicked g \<and>
    (run_returned g \<and> 0 < ws_workers conf \<longrightarrow> go_cancelled g \<and> go_received g = go_sent g)"
  using channel_okD [OF channel_ok_reached [OF assms]] returned_received [OF channel_ok_reached [OF assms]] by simp

theorem consumer_channel_witness: "go_sent pool_busy = [received0] \<and> go_sent pool_busy = go_received pool_busy @ go_jobs pool_busy"
  using consumer_channel [OF pool_run] by (simp add: conf0_def pool_busy_def pool_queued_def worker_at_def at_def)

text \<open>C11: The shutdown of a consumer ends. Once the context is cancelled, \<open>Run\<close> can return from every
  state. When its loops have returned, it is never stuck before its end, and it has at most seven steps
  for every place in the queue and every worker, and one, before it, whatever other processes do to
  the shared state between its steps.\<close>

theorem consumer_shutdown:
  assumes "(pool_step E L wk conf c)\<^sup>*\<^sup>* (pool_start conf sh) g" and "0 \<le> ws_capacity conf" and "go_cancelled g"
  shows "(\<exists>g'. (own_step E L wk conf c)\<^sup>*\<^sup>* g g' \<and> run_returned g') \<and>
    (loops_ended g \<longrightarrow>
       (\<forall>n g'. (consumer_round E L wk conf c ^^ n) g g' \<longrightarrow> n \<le> 7 * (nat (ws_capacity conf) + nat (ws_workers conf)) + 1) \<and>
       (\<not> run_returned g \<longrightarrow> (\<exists>g'. own_step E L wk conf c g g')))"
proof -
  note ok = channel_ok_reached [OF assms(1,2)]
  have "n \<le> 7 * (nat (ws_capacity conf) + nat (ws_workers conf)) + 1"
    if "loops_ended g" "(consumer_round E L wk conf c ^^ n) g g'" for n g'
    using shutdown_bounded [OF that(2,1)] shutdown_rank_bound [OF ok] by linarith
  then show ?thesis using cancelled_can_return [OF ok assms(3)] shutdown_progress by blast
qed

theorem consumer_shutdown_witness:
  "\<exists>g'. (own_step env0 lib0 workers0 conf0 ''w1'')\<^sup>*\<^sup>* (pool_busy\<lparr>go_cancelled := True\<rparr>) g' \<and> run_returned g'"
proof -
  have "step0\<^sup>*\<^sup>* (pool_start conf0 pipe2) (pool_busy\<lparr>go_cancelled := True\<rparr>)"
    using pool_run pool_step.cancels by (rule rtranclp.rtrancl_into_rtrancl)
  then show ?thesis using consumer_shutdown by (fastforce simp: conf0_def)
qed

section \<open>The monitored fleet\<close>

text \<open>C13: Any sequence of create, update and disable requests on hosts, services and tasks,
  each succeeding, failing or losing its commit reply, keeps the fleet well formed, starting
  from an empty database.\<close>

theorem fleet_well_formed:
  "fleet_inv (env_coll E) L (w_db (run_fleet_all E L reqs \<lparr>w_db = empty_db, w_tick = t\<rparr>))"
  by (rule run_fleet_all_inv) (simp add: fleet_inv_empty)


text \<open>C15: Every request on the fleet leaves users, execution results and incidents alone, and
  appends exactly one audit entry of outcome success with its actor, unless it changed neither
  hosts nor services nor tasks.\<close>

theorem fleet_request_audited: "audited_change (w_db w) (w_db (run_fleet E L req w))"
  by (rule run_fleet_audited)

section \<open>Probing\<close>

text \<open>C19: The TCP probe dials only addresses that the network policy permits, whatever the
  resolver and the peers answer.\<close>

theorem tcp_probe_dials_permitted:
  "set (fst (snd (TCPProbe_Execute L p (logged N) timeout target ([], w))))
     \<subseteq> {JoinHostPort (net_ip_String N a) port | a port. policy_validate p a = None}"
  using TCPProbe_permitted [of L p N timeout target w]
  by (cases "TCPProbe_Execute L p (logged N) timeout target ([], w)")
     (fastforce simp: only_permitted_def permitted_dial_def)

text \<open>C20: So does the HTTP probe, on every connection and every redirect that the HTTP client
  makes, however the client calls back.\<close>

theorem http_probe_dials_permitted:
  "set (fst (snd (HTTPProbe_Execute L p (logged N) client_Do timeout target ([], w))))
     \<subseteq> {JoinHostPort (net_ip_String N a) port | a port. policy_validate p a = None}"
  using HTTPProbe_permitted [of L p N client_Do timeout target w]
  by (cases "HTTPProbe_Execute L p (logged N) client_Do timeout target ([], w)")
     (fastforce simp: only_permitted_def permitted_dial_def)

text \<open>C21: On IPv4 addresses, in the 4-byte and in the mapped 16-byte form alike, the policy is
  the list of ranges: it denies 0.0.0.0, multicast 224.0.0.0/4 and link-local 169.254.0.0/16, and
  loopback 127.0.0.0/8 and the private ranges unless they are allowed.\<close>

theorem policy_on_ipv4:
  "(policy_validate p [a, b, c, d] = None \<longleftrightarrow> v4_allowed p a b c d) \<and>
   (policy_validate p (v4_prefix @ [a, b, c, d]) = None \<longleftrightarrow> v4_allowed p a b c d)"
  using policy_v4 [of "[a, b, c, d]" a b c d p] policy_v4 [of "v4_prefix @ [a, b, c, d]" a b c d p] by simp

text \<open>C22: When no context ends early, the outcome of the retry loop is that of the first attempt
  that succeeds, must not be retried or is the last one allowed, with its number, and no
  further attempt is made.\<close>

theorem retry_outcome:
  assumes "0 \<le> maxRetries"
  shows "\<exists>k. final_attempt maxRetries r k \<and> (\<forall>j<k. \<not> final_attempt maxRetries r j) \<and> int k \<le> maxRetries \<and>
    ExecuteWithRetry (scripted r) timer_fires target timeout maxRetries baseDelay 0 =
      ((with_message (fst (r k)) (snd (r k)), int k + 1), Suc k)"
  by (rule retry_script [OF assms])

definition flaky :: "nat \<Rightarrow> Result \<times> go_error option" where
  "flaky k = (if k < 2 then (zero_result\<lparr>Res_ErrorCode := ''timeout''\<rparr>, None)
              else (zero_result\<lparr>Res_Success := True\<rparr>, None))"

theorem retry_outcome_witness:
  "\<exists>k. int k \<le> 5 \<and> ExecuteWithRetry (scripted flaky) timer_fires
      \<lparr>Target_Type = ''tcp'', Target_Address = ''192.0.2.10:22''\<rparr> second 5 second 0
    = ((with_message (fst (flaky k)) (snd (flaky k)), int k + 1), Suc k)"
  using retry_outcome [of 5 flaky "\<lparr>Target_Type = ''tcp'', Target_Address = ''192.0.2.10:22''\<rparr>" second second]
  by auto

text \<open>C23: For a task within its limits, when every attempt ends by its deadline and every timer
  fires when due, the whole execution takes at most 21.5 minutes, less than the default idle
  timeout of 30 minutes after which another worker may take it over.\<close>

theorem execution_within_idle_timeout:
  assumes "task_ok t" and "timeout = wrap64 (Task_TimeoutMilliseconds t * millisecond)"
    and "base = wrap64 (Task_RetryBaseDelayMilliseconds t * millisecond)"
    and "\<And>w. clk (snd (implementation timeout target w)) \<le> clk w + timeout"
    and "\<And>d w. 0 \<le> d \<Longrightarrow> clk (snd (waitFor d w)) \<le> clk w + d"
  shows "clk (snd (ExecuteWithRetry implementation waitFor target timeout (Task_MaxRetries t) base w))
    \<le> clk w + 1290 * second \<and> 1290 * second < 30 * minute"
  by (rule retry_elapsed_limits [where clk = clk and implementation = implementation and waitFor = waitFor, OF assms])

theorem execution_within_idle_timeout_witness:
  "snd (ExecuteWithRetry (\<lambda>tm tg c. ((zero_result\<lparr>Res_ErrorCode := ''timeout''\<rparr>, None), c + tm)) (\<lambda>d c. (None, c + d))
      \<lparr>Target_Type = ''tcp'', Target_Address = ''192.0.2.10:22''\<rparr>
      (wrap64 (Task_TimeoutMilliseconds (new_task 1 task0 TaskActive 0 1 1) * millisecond))
      (Task_MaxRetries (new_task 1 task0 TaskActive 0 1 1))
      (wrap64 (Task_RetryBaseDelayMilliseconds (new_task 1 task0 TaskActive 0 1 1) * millisecond)) (0::int))
    \<le> 1290 * second"
proof -
  have ok: "task_ok (new_task 1 task0 TaskActive 0 1 1)" by (rule validateTask_ok) code_simp
  show ?thesis
    using execution_within_idle_timeout [OF ok refl refl, where clk = "\<lambda>c. c" and w = 0 and waitFor = "\<lambda>d c. (None, c + d)"
        and implementation = "\<lambda>tm tg c. ((zero_result\<lparr>Res_ErrorCode := ''timeout''\<rparr>, None), c + tm)"]
    by simp
qed

section \<open>Incidents\<close>

text \<open>C24: Whatever webhooks and user actions arrive, from an empty database and then on: the
  timestamps and actors of every incident agree with its status and event keys and
  identifiers are unique; no incident is ever removed or loses its identity, its status only
  advances, and no other table than the incidents and the audit log is written.\<close>

theorem incident_history:
  "let d = w_db (run_incidents E L before \<lparr>w_db = empty_db, w_tick = t\<rparr>);
       d' = w_db (run_incidents E L (before @ after) \<lparr>w_db = empty_db, w_tick = t\<rparr>)
   in incidents_inv E d \<and> incidents_advanced d d' \<and> only_incidents d d'"
proof -
  let ?w = "\<lparr>w_db = empty_db, w_tick = t\<rparr>"
  have "incidents_inv E (w_db (run_incidents E L before ?w))"
    using run_incidents_good [of E ?w L before] by (simp add: incident_good_def incidents_inv_empty)
  then show ?thesis
    using run_incidents_good [of E "run_incidents E L before ?w" L after]
    by (simp add: incident_good_def run_incidents_append Let_def)
qed

text \<open>C25: The webhook refines the abstract tracker of incidents: whatever faults occur, its
  effect is that of a prefix of the alerts of the payload, of all of them when it succeeds.\<close>

theorem webhook_refines_tracker:
  "\<exists>k\<le>length (Webhook_Alerts payload).
     incident_abs E (w_db (snd (IncidentService_Ingest E L payload w))) =
       fold (spec_alert E L (Webhook_Status payload)) (take k (Webhook_Alerts payload)) (incident_abs E (w_db w)) \<and>
     (k = length (Webhook_Alerts payload) \<or> (\<exists>e. fst (IncidentService_Ingest E L payload w) = Inl e))"
  unfolding IncidentService_Ingest_def by (rule ingest_alerts_abs)

text \<open>C26: Without faults, a user action on an incident is decided by its existence and its
  status: acknowledging needs a firing incident, processing a firing or acknowledged one,
  closing a resolved one. It then moves the incident and adds one audit entry of the user; a
  missing incident is a not-found error, another status a conflict, and both change nothing.\<close>

theorem user_actions_outcome:
  assumes "\<And>t. env_fault E t = None" and "incidents_inv E (w_db w)"
    and "\<And>t. env_new_id E t (map Log_ID (T_audit_logs (w_db w))) \<notin> insert 0 (Log_ID ` set (T_audit_logs (w_db w)))"
  shows
   "(let (r, w') = IncidentService_Acknowledge E i actor username w in
       transition_outcome E i IncAcknowledged [IncFiring]
         (incident_audit i actor username ''incident.acknowledge'') (w_db w) r (w_db w')) \<and>
    (let (r, w') = IncidentService_Process E i actor username w in
       transition_outcome E i IncProcessing [IncFiring, IncAcknowledged]
         (incident_audit i actor username ''incident.process'') (w_db w) r (w_db w')) \<and>
    (let (r, w') = IncidentService_Close E i actor username w in
       transition_outcome E i IncClosed [IncResolved]
         (incident_audit i actor username ''incident.close'') (w_db w) r (w_db w'))"
  using transition_run [OF assms(1,3,2), of IncAcknowledged "[IncFiring]" i actor username "''incident.acknowledge''"]
    transition_run [OF assms(1,3,2), of IncProcessing "[IncFiring, IncAcknowledged]" i actor username "''incident.process''"]
    transition_run [OF assms(1,3,2), of IncClosed "[IncResolved]" i actor username "''incident.close''"]
  by (auto simp: IncidentService_Acknowledge_def IncidentService_Process_def IncidentService_Close_def)

theorem user_actions_outcome_witness:
  "\<exists>y. fst (IncidentService_Acknowledge env0 1 7 ''ops'' world_firing) = Inr y \<and> Inc_Status y = IncAcknowledged"
proof -
  obtain x where "find (\<lambda>x. Inc_ID x = 1) (T_incidents (w_db world_firing)) = Some x" "Inc_Status x = IncFiring"
    using world_firing_incident by auto
  then show ?thesis
    using user_actions_outcome [of env0 world_firing 1 7 "''ops''", OF _ world_firing_inv]
    by (auto simp: env0_def world_firing_logs transition_outcome_def Let_def case_prod_beta)
qed

text \<open>C27: Two alerts have the same event key, and so the same incident, exactly when their
  alert name and probe type agree up to case and surrounding space and their service, task and
  start time are equal, provided that SHA-256 does not collide on the strings hashed for them,
  that timestamps are formatted differently and that the names hold no newline. The last condition
  is needed: the string that is hashed does not escape its fields, and two alerts of different
  services and tasks fall into one incident when a label holds a newline.\<close>

theorem event_key_identity:
  assumes "normalize L a t = Inr v" and "normalize L b u = Inr v'"
    and "inj_on (lib_sha256_hex L) (hashed L v \<union> hashed L v')" and "\<And>x. CHR 0x0A \<notin> set (lib_sha256_hex L x)"
    and "inj_on (lib_format_time L) {Alert_StartsAt a, Alert_StartsAt b}"
    and "CHR 0x0A \<notin> set (lib_ToLower L (Inc_AlertName v))" and "CHR 0x0A \<notin> set (lib_ToLower L (Inc_AlertName v'))"
  shows "(Inc_EventKey v = Inc_EventKey v' \<longleftrightarrow> stable_fields L a = stable_fields L b) \<and>
    (\<exists>f g. normalize lib0 alert_forged 0 = Inr f \<and> normalize lib0 alert_victim 0 = Inr g \<and>
       Inc_EventKey f = Inc_EventKey g \<and> Inc_ServiceID f \<noteq> Inc_ServiceID g \<and> Inc_TaskID f \<noteq> Inc_TaskID g)"
  using event_key_iff [OF assms(3,4,5,1,2,6,7)] forged_key by blast

theorem event_key_identity_witness: "Inc_EventKey incident_up \<noteq> Inc_EventKey incident_down"
proof -
  have "Inc_EventKey incident_up = Inc_EventKey incident_down \<longleftrightarrow> stable_fields lib0 alert_up = stable_fields lib0 alert_down"
    by (rule conjunct1, rule event_key_identity [OF alert_up_normal alert_down_normal])
       (use lib0_sha incident_names in \<open>auto simp: alert_defs intro: inj_on_subset\<close>)
  then show ?thesis using alert_fields_differ by simp
qed


section \<open>The whole program\<close>


definition actions0 :: "action list" where
  "actions0 = [ActBootstrap ''ops'' ''secret'',
     ActRequest ''POST'' ''/api/v1/auth/login'' (context0 [] ''login''),
     ActSchedule 100 (\<lambda>_. None), ActRead ''w1'' 10 None, ActWork None 0,
     ActClaim ''w2'' [0] None, ActWork None 0, ActRecover (5 * second) 100 (\<lambda>_. None)]"


text \<open>C12: A successful round of the scheduler on a well-formed fleet creates exactly one queued
  execution and one message for every task that is due, at most \<open>batch\<close>, moves those tasks to
  their next run, and changes nothing else.\<close>

theorem due_tasks_scheduled:
  assumes "fleet_inv (env_coll E) L (w_db w)" and "0 \<le> batch"
    and "ProbeRepo_ScheduleDue E batch now w = (Inr msgs, w')"
  shows "\<exists>t. let rows = due_rows E batch now t (w_db w) in
    scheduled E now rows (w_db w) msgs (w_db w') \<and> length msgs = length rows \<and> length rows \<le> nat batch"
proof -
  have "distinct (map Task_ID (T_tasks (w_db w)))" "distinct (map Svc_ID (T_services (w_db w)))"
    using assms(1) by (simp_all add: fleet_inv_def keys_unique_def)
  from ScheduleDue_effect [OF this, of E batch now] obtain t where
    "scheduled E now (due_rows E batch now t (w_db w)) (w_db w) msgs (w_db w')"
    using assms(3) by (auto simp: all_or_nothing_def)
  then show ?thesis using due_rows_length [OF assms(2)] by (auto simp: scheduled_def Let_def)
qed

theorem due_tasks_scheduled_witness:
  "\<exists>t. scheduled env0 now1 (due_rows env0 100 now1 t (w_db world1)) (w_db world1) [message0] (w_db world2)"
proof -
  have inv: "fleet_inv (env_coll env0) lib0 (w_db world1)"
    unfolding world1_def by (rule run_fleet_all_inv) (simp add: world0_def fleet_inv_empty)
  have "ProbeRepo_ScheduleDue env0 100 now1 world1 = (Inr [message0], world2)"
    using scenario_schedule by (simp add: world2_def prod_eq_iff)
  from due_tasks_scheduled [OF inv _ this] show ?thesis by (auto simp: Let_def)
qed

section \<open>The API\<close>

text \<open>C16: Any sequence of requests to the API, authenticated or not, well formed or not, keeps the
  invariants of the fleet and of the incidents; it never touches the results of executions, the
  accounts of users or the audit entries already written.\<close>

theorem api_requests_keep_invariants:
  "let start = \<lparr>w_db = empty_db\<lparr>T_users := users\<rparr>, w_tick = t\<rparr>;
       w = serve_all sv before start; w' = serve_all sv (before @ after) start
   in server_inv sv (w_db w) \<and> server_inv sv (w_db w') \<and> server_frame (w_db w) (w_db w')"
  by (simp add: Let_def serve_all_inv server_inv_users serve_all_append serve_all_frame)

text \<open>C17: A request that gets a success reply or changes the database is for one of the open
  paths, or is the webhook with the machine token, or carries a bearer token that the token
  manager accepts.\<close>

theorem api_effects_authenticated:
  assumes "effective (serve sv meth path c w) w" and "matched sv meth path = Some (r, i)"
  shows "ro_Path r \<in> open_paths \<or> (ro_Path r = ''/api/v1/alerts/webhook'' \<and> machine_accepted sv c) \<or>
    (\<exists>w1. w_db w1 = w_db w \<and> bearer_accepted sv c w1)"
  by (rule serve_effective [OF assms])

theorem api_effects_authenticated_witness:
  "\<exists>w1. w_db w1 = w_db world_user \<and> bearer_accepted server0 context_me w1"
proof -
  have eff: "effective (serve server0 ''GET'' ''/api/v1/users/me'' context_me world_user) world_user"
    using me_replies by (simp add: effective_def)
  obtain r i where "matched server0 ''GET'' ''/api/v1/users/me'' = Some (r, i)" "ro_Path r = ''/api/v1/users/me''"
    using me_matched by auto
  then show ?thesis using api_effects_authenticated [OF eff] by (auto simp: open_paths_def)
qed

text \<open>C18: Every reply of a route except the metrics is an envelope whose code agrees with its HTTP
  status: zero with 200, 201 or 503, and otherwise the status followed by two digits with no data;
  a panic never reaches the client.\<close>

theorem api_reply_envelope:
  assumes "matched sv meth path = Some (r, i)" and "ro_Path r \<noteq> ''/metrics''"
  shows "reply_ok (fst (serve sv meth path c w))"
  by (rule serve_ok [OF assms])

theorem api_reply_envelope_witness: "reply_ok (fst (serve server0 ''GET'' ''/api/v1/users/me'' context_me world_user))"
proof -
  obtain r i where "matched server0 ''GET'' ''/api/v1/users/me'' = Some (r, i)" "ro_Path r = ''/api/v1/users/me''"
    using me_matched by auto
  then show ?thesis by (intro api_reply_envelope) auto
qed



text \<open>C38: Readiness: the reply is 200 and \<open>ready\<close> exactly when every dependency answered
  without error, otherwise 503 and \<open>not_ready\<close>; it lists every dependency with what it
  answered last. The worker replies the same.\<close>

theorem readiness_reports_dependencies:
  "(\<exists>ds. fst (Health_Ready checkers c w) =
      (if list_all snd (answers checkers w) then Success 200 (DataReady ''ready'' ds)
       else Success 503 (DataReady ''not_ready'' ds)) \<and>
      map_of ds = map_option state_text \<circ> map_of (rev (answers checkers w))) \<and>
   WorkerHealth_Ready checkers c w = Health_Ready checkers c w"
  by (rule readiness)

section \<open>Users and tokens\<close>

text \<open>C30: The outcome of a login is complete: on success an active user of that name, with a
  password that matches the stored hash, had its last login and one audit entry written, and
  nothing else; a refusal writes at most one audit entry of outcome failure; any other error
  changes nothing, or is the lost reply of a login that was recorded.\<close>

theorem login_outcomes:
  "case AuthService_Login E A (auth_repository E) m username password md w of
     (r, w') \<Rightarrow> login_outcome A (env_coll E) (TrimSpace username) password md (w_db w) r (w_db w')"
  by (auto intro: auth_repo.Login_outcome split: prod.split)



text \<open>C32: The bootstrap adds at most one user, with a hash of the configured password, and when it
  succeeds with a name configured there is a user of that name, also when another replica created
  it in between; it changes no user that exists.\<close>

theorem bootstrap_outcome:
  "case Bootstrap A (auth_repository E) username password w of (r, w') \<Rightarrow>
     (w_db w' = w_db w \<or> (\<exists>hash. bcrypt_Generate A (bcrypt_DefaultCost A) password = Inr hash \<and>
        user_effect (new_user username hash) (w_db w) (w_db w'))) \<and>
     (r = Inr () \<longrightarrow> username \<noteq> [] \<longrightarrow> env_coll E username \<in> (env_coll E \<circ> User_Username) ` set (T_users (w_db w')))"
proof -
  obtain r w' where run: "Bootstrap A (auth_repository E) username password w = (r, w')" by (metis surj_pair)
  have "env_coll E username \<in> (env_coll E \<circ> User_Username) ` set (T_users (w_db w'))" if "r = Inr ()" "username \<noteq> []"
    using auth_repo.Bootstrap_effect(2) [OF run that] by (force simp: image_iff)
  then show ?thesis using auth_repo.Bootstrap_effect(1) [OF run] run by simp
qed

theorem bootstrap_outcome_witness:
  "env_coll env0 ''ops'' \<in> (env_coll env0 \<circ> User_Username) `
     set (T_users (w_db (snd (Bootstrap auth0 (auth_repository env0) ''ops'' ''secret'' world0))))"
proof -
  have "fst (Bootstrap auth0 (auth_repository env0) ''ops'' ''secret'' world0) = Inr ()" by code_simp
  then show ?thesis
    using bootstrap_outcome [where A = auth0 and E = env0 and username = "''ops''" and password = "''secret''" and w = world0]
    by (auto simp: case_prod_beta)
qed

section \<open>The processes\<close>



text \<open>C28: A run of the worker process, beside any API servers and other workers, ends with every
  execution that is marked running still in the pending entries of its stream; when it exits with
  status zero and has workers, they have emptied the queue: no job of its consumer is left in memory.\<close>

theorem worker_process_run:
  assumes "platform_off_db P" and "sv_env sv = pf_env P" and "sv_lib sv = pf_lib P" and "w_db w = empty_db"
    and "worker_run P sv host g acts acks (pipe_start w) = ((r, events), s)"
  shows "(\<forall>x\<in>set (T_results (pl_db s)). Exec_Status x = ExecutionRunning \<longrightarrow>
      (\<exists>i\<in>set (pl_pending s). entry_for (pf_env P) (pf_lib P) s i x)) \<and>
    (\<forall>cfg db redis. worker_exit_status r = 0 \<and> process_opens P = Inr (cfg, db, redis) \<and> 0 < ws_workers (worker_setup_of cfg) \<longrightarrow>
       (\<forall>j\<in>set (pl_jobs s). job_consumer j \<noteq> fst (consumerName (pf_env P) host w)))"
  using worker_run_result [OF assms] by (simp add: pipe_inv_def running_pending_def)

theorem worker_process_run_witness:
  "list_all (\<lambda>j. job_consumer j \<noteq> fst (consumerName env0 ''node'' world0))
     (pl_jobs (snd (worker_run platform0 server0 ''node'' None
        (actions0 @ [ActRead (fst (consumerName env0 ''node'' world0)) 10 None]) (\<lambda>_. None) (pipe_start world0))))"
proof -
  let ?acts = "actions0 @ [ActRead (fst (consumerName env0 ''node'' world0)) 10 None]"
  obtain r events s where run: "worker_run platform0 server0 ''node'' None ?acts (\<lambda>_. None) (pipe_start world0) = ((r, events), s)"
    by (metis surj_pair)
  obtain cfg db redis where opens: "process_opens platform0 = Inr (cfg, db, redis)"
    and conf: "worker_starts (worker_setup_of cfg)" "0 < ws_workers (worker_setup_of cfg)"
    using platform0_opens by (auto split: sum.splits)
  have "r = Exited None" using worker_run_exit [OF run opens] conf by (simp add: group_error_def)
  then show ?thesis
    using worker_process_run [OF platform0_off_db _ _ _ run] run opens conf
    by (simp add: list_all_iff platform0_def server0_def world0_def)
qed

section \<open>Configuration\<close>

text \<open>C34: Loading the configuration fails exactly with the message of the first setting, in the
  order they are read, whose value is not of its type; otherwise it succeeds.\<close>

theorem config_fails_with_first_invalid:
  "case find (\<lambda>s. \<not> setting_valid F V s) settings of
     Some s \<Rightarrow> Load F V = Inl (setting_message s)
   | None \<Rightarrow> \<exists>cfg. Load F V = Inr cfg"
  using Load_fails_first [of F V] by (simp add: fails_as_def)


text \<open>C36: A setting of a number of whole units, from nanoseconds to hours, is read as that
  duration, as long as it fits 64 bits; and a duration of whole seconds that is printed, as the
  timeout in the data source name is, reads back.\<close>

theorem duration_setting_reads_back:
  assumes "0 \<le> n" and "unit_of u = Some k" and "n * k \<le> max_int64"
  shows "env_duration F (\<lambda>_. Some (dec n @ u)) key fallback = Inr (n * k) \<and>
    (n * k mod second = 0 \<longrightarrow> ParseDuration F (Duration_String (n * k)) = Some (n * k))"
  using ParseDuration_units [OF assms] Duration_String_reads_back [of "n * k"] assms unit_of_chars [OF assms(2)]
  by (simp add: env_duration_def env_value_def)

theorem duration_setting_reads_back_witness:
  "env_duration (\<lambda>_ _ _. 0) (\<lambda>_. Some (dec 90 @ ''m'')) ''JWT_EXPIRES_IN'' ''2h'' = Inr (90 * minute) \<and>
     ParseDuration (\<lambda>_ _ _. 0) (Duration_String (90 * minute)) = Some (90 * minute)"
  using duration_setting_reads_back [of 90 "''m''" minute "\<lambda>_ _ _. 0" "''JWT_EXPIRES_IN''" "''2h''"]
  by (simp add: unit_of_def duration_defs max_int64_def)

section \<open>Metrics\<close>



end
